(* ===== verification/Prelude.thy ===== *)
theory Prelude
  imports Main "HOL-Library.Word" "HOL-Library.List_Lexorder" "HOL-Library.Char_ord"
    "HOL-Library.Multiset"
    "HOL-Library.Code_Target_Nat"
begin

text \<open>
  Shared vocabulary of the development: the enumerations every component uses
  (\<open>State\<close>, \<open>ErrorCode\<close>, the gRPC status codes), \<open>compare_exchange_strong\<close> on the
  life-cycle state, \<open>std::sort\<close> over an \<open>operator<\<close>, decimal printing, and the string
  routines of Abseil, which are not part of the repository and therefore enter the
  definitions as a record of parameters.  The theory also declares the fact collections
  that carry the component proofs.
\<close>

named_theorems route_simps \<open>unfolding rules of the route data model\<close>
named_theorems code_map \<open>the status-code tables of the client manager\<close>
named_theorems pq_simps \<open>unfolding rules of the process queue\<close>

type_synonym u8 = "8 word"
type_synonym u32 = "32 word"
type_synonym u64 = "64 word"
type_synonym bytes = "8 word list"

section \<open>Enumerations\<close>

text \<open>\<open>enum State\<close> (api/rocketmq/State.h).\<close>

datatype State = CREATED | STARTING | STARTED | STOPPING | STOPPED

text \<open>\<open>enum class ErrorCode\<close> (api/rocketmq/ErrorCode.h).  A \<open>std::error_code\<close> made from it is
  \<open>Success\<close> when it is default constructed.\<close>

datatype ErrorCode =
    Success | IllegalState | BadConfiguration | BadRequest | Unauthorized | Forbidden | NotFound
  | RequestTimeout | PayloadTooLarge | PreconditionRequired | TooManyRequest
  | HeaderFieldsTooLarge | UnavailableForLegalReasons | InternalServerError | NotImplemented
  | BadGateway | ServiceUnavailable | GatewayTimeout | ProtocolVersionNotSupported
  | InsufficientStorage

fun ErrorCode_value :: "ErrorCode \<Rightarrow> int" where
  "ErrorCode_value Success = 0"
| "ErrorCode_value IllegalState = 1"
| "ErrorCode_value BadConfiguration = 300"
| "ErrorCode_value BadRequest = 400"
| "ErrorCode_value Unauthorized = 401"
| "ErrorCode_value Forbidden = 403"
| "ErrorCode_value NotFound = 404"
| "ErrorCode_value RequestTimeout = 408"
| "ErrorCode_value PayloadTooLarge = 413"
| "ErrorCode_value PreconditionRequired = 428"
| "ErrorCode_value TooManyRequest = 429"
| "ErrorCode_value HeaderFieldsTooLarge = 431"
| "ErrorCode_value UnavailableForLegalReasons = 451"
| "ErrorCode_value InternalServerError = 500"
| "ErrorCode_value NotImplemented = 501"
| "ErrorCode_value BadGateway = 502"
| "ErrorCode_value ServiceUnavailable = 503"
| "ErrorCode_value GatewayTimeout = 504"
| "ErrorCode_value ProtocolVersionNotSupported = 505"
| "ErrorCode_value InsufficientStorage = 507"

text \<open>\<open>std::error_code::operator bool\<close>: the value differs from zero.\<close>

definition ec_bool :: "ErrorCode \<Rightarrow> bool" where
  "ec_bool ec \<longleftrightarrow> ErrorCode_value ec \<noteq> 0"

text \<open>\<open>google::rpc::Code\<close> (proto/google/rpc/code.proto).\<close>

datatype RpcCode =
    OK | CANCELLED | UNKNOWN | INVALID_ARGUMENT | DEADLINE_EXCEEDED | NOT_FOUND | ALREADY_EXISTS
  | PERMISSION_DENIED | UNAUTHENTICATED | RESOURCE_EXHAUSTED | FAILED_PRECONDITION | ABORTED
  | OUT_OF_RANGE | UNIMPLEMENTED | INTERNAL | UNAVAILABLE | DATA_LOSS

section \<open>Atomic life-cycle state\<close>

text \<open>\<open>state_.compare_exchange_strong(expected, desired)\<close>: the new value and the outcome.\<close>

definition compare_exchange_strong :: "'s \<Rightarrow> 's \<Rightarrow> 's \<Rightarrow> 's \<times> bool" where
  "compare_exchange_strong cur expected desired =
     (if cur = expected then (desired, True) else (cur, False))"

section \<open>Sorting with an operator<\<close>

text \<open>\<open>std::sort\<close> leaves the order of equivalent elements open; the model fixes one of the
  permitted results (the stable one).  Every statement about it uses only that the result is
  a sorted permutation.\<close>

primrec insert_by :: "('a \<Rightarrow> 'a \<Rightarrow> bool) \<Rightarrow> 'a \<Rightarrow> 'a list \<Rightarrow> 'a list" where
  "insert_by lt x [] = [x]"
| "insert_by lt x (y # ys) = (if lt y x then y # insert_by lt x ys else x # y # ys)"

definition sort_by :: "('a \<Rightarrow> 'a \<Rightarrow> bool) \<Rightarrow> 'a list \<Rightarrow> 'a list" where
  "sort_by lt xs = foldr (insert_by lt) xs []"

section \<open>Decimal numbers\<close>

definition digit_char :: "nat \<Rightarrow> char" where
  "digit_char d = char_of (48 + d)"

fun nat_digits :: "nat \<Rightarrow> string" where
  "nat_digits n =
     (if n < 10 then [digit_char n] else nat_digits (n div 10) @ [digit_char (n mod 10)])"

declare nat_digits.simps [simp del]

text \<open>\<open>std::to_string\<close> on a signed integer.\<close>

definition to_string :: "int \<Rightarrow> string" where
  "to_string i = (if i < 0 then CHR ''-'' # nat_digits (nat (- i)) else nat_digits (nat i))"

definition is_digit :: "char \<Rightarrow> bool" where
  "is_digit c \<longleftrightarrow> 48 \<le> (of_char c :: nat) \<and> (of_char c :: nat) \<le> 57"

definition digit_value :: "char \<Rightarrow> nat" where
  "digit_value c = of_char c - 48"

definition digits_value :: "string \<Rightarrow> nat" where
  "digits_value = foldl (\<lambda>n c. 10 * n + digit_value c) 0"

text \<open>\<open>std::stoi\<close>: leading white space, an optional sign, the longest run of digits.  It throws
  \<open>std::invalid_argument\<close> without a digit and \<open>std::out_of_range\<close> beyond a 32-bit \<open>int\<close>.\<close>

datatype stoi_error = invalid_argument | out_of_range

definition is_space :: "char \<Rightarrow> bool" where
  "is_space c \<longleftrightarrow> (of_char c :: nat) \<in> {9, 10, 11, 12, 13, 32}"

definition stoi :: "string \<Rightarrow> stoi_error + int" where
  "stoi s =
     (let t = dropWhile is_space s;
          neg = (case t of c # _ \<Rightarrow> c = CHR ''-'' | [] \<Rightarrow> False);
          u = (case t of c # r \<Rightarrow> if c = CHR ''-'' \<or> c = CHR ''+'' then r else t | [] \<Rightarrow> []);
          ds = takeWhile is_digit u;
          v = (if neg then - int (digits_value ds) else int (digits_value ds))
      in if ds = [] then Inl invalid_argument
         else if v < - (2 ^ 31) \<or> 2 ^ 31 - 1 < v then Inl out_of_range
         else Inr v)"

section \<open>Parameters: Abseil's string routines\<close>

text \<open>Abseil is not part of the repository.  The routines the code calls are the fields of a
  record that the definitions take as an argument; \<open>absl_ok\<close> states their documented
  behaviour.  \<open>SimpleAtoi\<close> is the overload on \<open>std::int32_t\<close>, \<open>SimpleAtoiU\<close> the one on
  \<open>std::uint32_t\<close>.\<close>

record absl_strings =
  StartsWith :: "string \<Rightarrow> string \<Rightarrow> bool"
  StripPrefix :: "string \<Rightarrow> string \<Rightarrow> string"
  StrSplit :: "string \<Rightarrow> char \<Rightarrow> string list"
  SimpleAtoi :: "string \<Rightarrow> int option"
  SimpleAtoiU :: "string \<Rightarrow> nat option"
  StrContains :: "string \<Rightarrow> char \<Rightarrow> bool"
  EndsWith :: "string \<Rightarrow> string \<Rightarrow> bool"
  StrJoin :: "string list \<Rightarrow> string \<Rightarrow> string"

fun join :: "string \<Rightarrow> string list \<Rightarrow> string" where
  "join sep [] = []"
| "join sep [x] = x"
| "join sep (x # y # xs) = x @ sep @ join sep (y # xs)"

definition starts_with :: "string \<Rightarrow> string \<Rightarrow> bool" where
  "starts_with s p \<longleftrightarrow> take (length p) s = p"

definition absl_ok :: "absl_strings \<Rightarrow> bool" where
  "absl_ok A \<longleftrightarrow>
     (\<forall>s p. StartsWith A s p = starts_with s p) \<and>
     (\<forall>s p. StripPrefix A s p = (if starts_with s p then drop (length p) s else s)) \<and>
     (\<forall>s c. StrSplit A s c \<noteq> [] \<and> join [c] (StrSplit A s c) = s \<and>
        (\<forall>x \<in> set (StrSplit A s c). c \<notin> set x)) \<and>
     (\<forall>i. - (2 ^ 31) \<le> i \<and> i < 2 ^ 31 \<longrightarrow> SimpleAtoi A (to_string i) = Some i) \<and>
     (\<forall>n. n < 2 ^ 32 \<longrightarrow> SimpleAtoiU A (nat_digits n) = Some n) \<and>
     (\<forall>s c. StrContains A s c = (c \<in> set s)) \<and>
     (\<forall>s p. EndsWith A s p = starts_with (rev s) (rev p)) \<and>
     (\<forall>xs sep. StrJoin A xs sep = join sep xs)"

text \<open>A concrete Abseil, used by the witnesses.\<close>

fun split_on :: "char \<Rightarrow> string \<Rightarrow> string list" where
  "split_on c [] = [[]]"
| "split_on c (x # xs) =
     (if x = c then [] # split_on c xs
      else (case split_on c xs of [] \<Rightarrow> [[x]] | y # ys \<Rightarrow> (x # y) # ys))"

definition parse_nat :: "string \<Rightarrow> nat option" where
  "parse_nat s = (if s \<noteq> [] \<and> list_all is_digit s then Some (digits_value s) else None)"

definition parse_int :: "string \<Rightarrow> int option" where
  "parse_int s =
     (case s of
        [] \<Rightarrow> None
      | c # r \<Rightarrow> if c = CHR ''-'' then map_option (\<lambda>n. - int n) (parse_nat r)
                 else map_option int (parse_nat s))"

definition absl_ref :: absl_strings where
  "absl_ref =
     \<lparr>StartsWith = starts_with,
      StripPrefix = (\<lambda>s p. if starts_with s p then drop (length p) s else s),
      StrSplit = (\<lambda>s c. split_on c s),
      SimpleAtoi = parse_int,
      SimpleAtoiU = parse_nat,
      StrContains = (\<lambda>s c. c \<in> set s),
      EndsWith = (\<lambda>s p. starts_with (rev s) (rev p)),
      StrJoin = (\<lambda>xs sep. join sep xs)\<rparr>"

section \<open>Lemmas on error codes and the atomic state\<close>

lemma ec_bool_iff [simp]: "ec_bool ec \<longleftrightarrow> ec \<noteq> Success"
  by (cases ec) (simp_all add: ec_bool_def)

lemma ErrorCode_value_inj: "inj ErrorCode_value"
proof (rule injI)
  fix a b :: ErrorCode
  show "ErrorCode_value a = ErrorCode_value b \<Longrightarrow> a = b"
    by (cases a; cases b) simp_all
qed

lemma compare_exchange_strong_simps [simp]:
  "compare_exchange_strong s s d = (d, True)"
  "s \<noteq> e \<Longrightarrow> compare_exchange_strong s e d = (s, False)"
  by (simp_all add: compare_exchange_strong_def)

section \<open>Sorting: a permutation, sorted for every strict weak order\<close>

lemma mset_insert_by [simp]: "mset (insert_by lt x xs) = add_mset x (mset xs)"
  by (induction xs) auto

lemma mset_sort_by [simp]: "mset (sort_by lt xs) = mset xs"
  unfolding sort_by_def by (induction xs) simp_all

lemma set_sort_by [simp]: "set (sort_by lt xs) = set xs"
  by (metis mset_sort_by set_mset_mset)

lemma length_sort_by [simp]: "length (sort_by lt xs) = length xs"
  by (metis mset_sort_by size_mset)

lemma sort_by_empty_iff [simp]: "sort_by lt xs = [] \<longleftrightarrow> xs = []"
  by (metis length_0_conv length_sort_by)

lemma set_insert_by [simp]: "set (insert_by lt x xs) = insert x (set xs)"
  by (induction xs) auto

text \<open>What \<open>std::sort\<close> demands of an \<open>operator<\<close>; without it the call is undefined.\<close>

locale strict_weak_order =
  fixes lt :: "'a \<Rightarrow> 'a \<Rightarrow> bool"
  assumes lt_irrefl: "\<not> lt x x"
    and lt_trans: "lt x y \<Longrightarrow> lt y z \<Longrightarrow> lt x z"
    and lt_split: "lt x z \<Longrightarrow> lt x y \<or> lt y z"
begin

lemma lt_asym: "lt x y \<Longrightarrow> \<not> lt y x"
  using lt_irrefl lt_trans by blast

lemma not_lt_trans: "\<not> lt y x \<Longrightarrow> \<not> lt z y \<Longrightarrow> \<not> lt z x"
  using lt_split by blast

lemma sorted_insert_by:
  "sorted_wrt (\<lambda>x y. \<not> lt y x) ys \<Longrightarrow> sorted_wrt (\<lambda>x y. \<not> lt y x) (insert_by lt x ys)"
proof (induction ys)
  case Nil
  show ?case by simp
next
  case (Cons y ys)
  show ?case
  proof (cases "lt y x")
    case True
    then show ?thesis using Cons lt_asym by auto
  next
    case False
    with Cons.prems have "\<forall>z \<in> set ys. \<not> lt z x"
      using not_lt_trans by auto
    with False Cons.prems show ?thesis by simp
  qed
qed

lemma sorted_sort_by: "sorted_wrt (\<lambda>x y. \<not> lt y x) (sort_by lt xs)"
  unfolding sort_by_def by (induction xs) (simp_all add: sorted_insert_by)

lemma insert_by_front: "\<forall>y \<in> set ys. \<not> lt y x \<Longrightarrow> insert_by lt x ys = x # ys"
  by (cases ys) auto

lemma sort_by_sorted: "sorted_wrt (\<lambda>x y. \<not> lt y x) xs \<Longrightarrow> sort_by lt xs = xs"
  unfolding sort_by_def by (induction xs) (simp_all add: insert_by_front)

lemma sort_by_idem: "sort_by lt (sort_by lt xs) = sort_by lt xs"
  by (rule sort_by_sorted [OF sorted_sort_by])

end

section \<open>Decimal numbers read back\<close>

lemma of_char_digit [simp]: "d < 10 \<Longrightarrow> (of_char (digit_char d) :: nat) = 48 + d"
  by (simp add: digit_char_def)

lemma is_digit_char [simp]: "d < 10 \<Longrightarrow> is_digit (digit_char d)"
  by (simp add: is_digit_def)

lemma digit_value_char [simp]: "d < 10 \<Longrightarrow> digit_value (digit_char d) = d"
  by (simp add: digit_value_def)

lemma nat_digits_not_Nil [simp]: "nat_digits n \<noteq> []"
  by (subst nat_digits.simps) simp

lemma nat_digits_digits: "list_all is_digit (nat_digits n)"
proof (induction n rule: nat_digits.induct)
  case (1 n)
  show ?case
  proof (cases "n < 10")
    case True
    then show ?thesis by (subst nat_digits.simps) simp
  next
    case False
    with "1.IH" show ?thesis by (subst nat_digits.simps) simp
  qed
qed

lemma digits_value_snoc: "digits_value (s @ [c]) = 10 * digits_value s + digit_value c"
  by (simp add: digits_value_def)

lemma digits_value_nat_digits [simp]: "digits_value (nat_digits n) = n"
proof (induction n rule: nat_digits.induct)
  case (1 n)
  show ?case
  proof (cases "n < 10")
    case True
    then show ?thesis by (subst nat_digits.simps) (simp add: digits_value_def)
  next
    case False
    with "1.IH" show ?thesis by (subst nat_digits.simps) (simp add: digits_value_snoc)
  qed
qed

lemma nat_digits_inj: "nat_digits m = nat_digits n \<Longrightarrow> m = n"
  by (metis digits_value_nat_digits)

lemma is_digit_not_special:
  "is_digit c \<Longrightarrow> c \<noteq> CHR ''-'' \<and> c \<noteq> CHR ''+'' \<and> c \<noteq> CHR '':'' \<and> c \<noteq> CHR '','' \<and> \<not> is_space c"
  by (auto simp: is_digit_def is_space_def)

lemma parse_nat_digits [simp]: "parse_nat (nat_digits n) = Some n"
  by (simp add: parse_nat_def nat_digits_digits)

lemma nat_digits_cons: "\<exists>d r. nat_digits n = d # r \<and> is_digit d"
  using nat_digits_digits [of n] nat_digits_not_Nil [of n] by (cases "nat_digits n") auto

lemma parse_int_to_string [simp]: "parse_int (to_string i) = Some i"
proof (cases "i < 0")
  case True
  then show ?thesis by (simp add: parse_int_def to_string_def)
next
  case False
  obtain d r where dr: "nat_digits (nat i) = d # r" "is_digit d"
    using nat_digits_cons by blast
  then have "d \<noteq> CHR ''-''" using is_digit_not_special by blast
  moreover have "parse_nat (d # r) = Some (nat i)" using dr by (metis parse_nat_digits)
  ultimately show ?thesis using False dr by (simp add: parse_int_def to_string_def)
qed

lemma takeWhile_digits: "takeWhile is_digit (nat_digits n) = nat_digits n"
  using nat_digits_digits by (simp add: list_all_iff takeWhile_eq_all_conv)

lemma stoi_nat_digits: "n < 2 ^ 31 \<Longrightarrow> stoi (nat_digits n) = Inr (int n)"
proof -
  assume n: "n < 2 ^ 31"
  obtain d r where dr: "nat_digits n = d # r" "is_digit d"
    using nat_digits_cons by blast
  then have s: "d \<noteq> CHR ''-''" "d \<noteq> CHR ''+''" "\<not> is_space d"
    using is_digit_not_special by blast+
  have "dropWhile is_space (nat_digits n) = nat_digits n" using dr s by simp
  moreover have "takeWhile is_digit r = r"
    using takeWhile_digits [of n] dr by simp
  moreover have "digits_value (d # r) = n"
    using digits_value_nat_digits [of n] dr by simp
  ultimately show ?thesis using n dr s by (simp add: stoi_def Let_def del: takeWhile_eq_all_conv)
qed

section \<open>Splitting and joining\<close>

lemma split_on_not_Nil [simp]: "split_on c s \<noteq> []"
  by (cases "(c, s)" rule: split_on.cases) (auto split: list.splits)

lemma join_Cons: "xs \<noteq> [] \<Longrightarrow> join sep (x # xs) = x @ sep @ join sep xs"
  by (cases xs) simp_all

lemma join_split_on [simp]: "join [c] (split_on c s) = s"
proof (induction s)
  case Nil
  show ?case by simp
next
  case (Cons x xs)
  show ?case
  proof (cases "x = c")
    case True
    with Cons show ?thesis by (simp add: join_Cons)
  next
    case False
    obtain y ys where "split_on c xs = y # ys"
      using split_on_not_Nil by (metis neq_Nil_conv)
    with False Cons show ?thesis by (cases ys) simp_all
  qed
qed

lemma split_on_no_sep: "x \<in> set (split_on c s) \<Longrightarrow> c \<notin> set x"
proof (induction s arbitrary: x)
  case Nil
  then show ?case by simp
next
  case (Cons a s)
  show ?case
  proof (cases "a = c")
    case True
    with Cons show ?thesis by auto
  next
    case False
    obtain y ys where "split_on c s = y # ys"
      using split_on_not_Nil by (metis neq_Nil_conv)
    with False Cons show ?thesis by (cases "x = a # y") auto
  qed
qed

text \<open>A split is determined by its law: joining two separator-free, non-empty lists to the same
  string gives the same list.\<close>

lemma append_sep_cancel:
  assumes "c \<notin> set x" "c \<notin> set y" "x @ c # u = y @ c # v"
  shows "x = y \<and> u = v"
  using assms
proof (induction x arbitrary: y)
  case Nil
  then show ?case by (cases y) auto
next
  case (Cons a x)
  then show ?case by (cases y) auto
qed

lemma join_unique:
  assumes "xs \<noteq> []" "ys \<noteq> []" "\<forall>x \<in> set xs. c \<notin> set x" "\<forall>y \<in> set ys. c \<notin> set y"
    and "join [c] xs = join [c] ys"
  shows "xs = ys"
  using assms
proof (induction xs arbitrary: ys)
  case Nil
  then show ?case by simp
next
  case (Cons x xs)
  obtain y ys' where ys: "ys = y # ys'" using Cons.prems(2) by (cases ys) auto
  show ?case
  proof (cases "xs = [] \<or> ys' = []")
    case True
    have "c \<in> set (join [c] zs)" if "zs = z # z' # zs'" for zs z z' zs'
      using that by simp
    with True Cons.prems ys show ?thesis
      by (cases xs; cases ys') auto
  next
    case False
    then have "x @ c # join [c] xs = y @ c # join [c] ys'"
      using Cons.prems(5) ys by (simp add: join_Cons)
    moreover have "c \<notin> set x" "c \<notin> set y" using Cons.prems(3,4) ys by simp_all
    ultimately have "x = y \<and> join [c] xs = join [c] ys'"
      by (intro append_sep_cancel)
    then show ?thesis
      using Cons.IH [of ys'] Cons.prems(3,4) False ys by simp
  qed
qed

lemma absl_ref_ok [simp]: "absl_ok absl_ref"
  by (auto simp: absl_ok_def absl_ref_def dest: split_on_no_sep)

lemma absl_StartsWith: "absl_ok A \<Longrightarrow> StartsWith A s p = starts_with s p"
  by (simp add: absl_ok_def)

lemma absl_StripPrefix:
  "absl_ok A \<Longrightarrow> StripPrefix A s p = (if starts_with s p then drop (length p) s else s)"
  by (simp add: absl_ok_def)

lemma absl_SimpleAtoi:
  "absl_ok A \<Longrightarrow> - (2 ^ 31) \<le> i \<Longrightarrow> i < 2 ^ 31 \<Longrightarrow> SimpleAtoi A (to_string i) = Some i"
  by (simp add: absl_ok_def)

lemma absl_SimpleAtoiU: "absl_ok A \<Longrightarrow> n < 2 ^ 32 \<Longrightarrow> SimpleAtoiU A (nat_digits n) = Some n"
  by (simp add: absl_ok_def)

lemma absl_StrContains: "absl_ok A \<Longrightarrow> StrContains A s c \<longleftrightarrow> c \<in> set s"
  by (simp add: absl_ok_def)

lemma absl_EndsWith: "absl_ok A \<Longrightarrow> EndsWith A s p = starts_with (rev s) (rev p)"
  by (simp add: absl_ok_def)

lemma absl_StrJoin: "absl_ok A \<Longrightarrow> StrJoin A xs sep = join sep xs"
  by (simp add: absl_ok_def)

lemma absl_StrSplit: "absl_ok A \<Longrightarrow> StrSplit A s c = split_on c s"
proof (rule join_unique [where c = c])
  assume A: "absl_ok A"
  show "StrSplit A s c \<noteq> []" using A by (simp add: absl_ok_def)
  show "\<forall>x \<in> set (StrSplit A s c). c \<notin> set x" using A by (simp add: absl_ok_def)
  show "join [c] (StrSplit A s c) = join [c] (split_on c s)" using A by (simp add: absl_ok_def)
qed (auto dest: split_on_no_sep)

lemma split_on_join:
  "xs \<noteq> [] \<Longrightarrow> \<forall>x \<in> set xs. c \<notin> set x \<Longrightarrow> split_on c (join [c] xs) = xs"
  by (rule join_unique [where c = c]) (auto dest: split_on_no_sep)

lemma starts_with_append [simp]: "starts_with (p @ s) p"
  by (simp add: starts_with_def)

lemma starts_with_Cons [simp]:
  "starts_with s []"
  "starts_with (x # s) (y # p) \<longleftrightarrow> x = y \<and> starts_with s p"
  "\<not> starts_with [] (y # p)"
  by (auto simp: starts_with_def)

section \<open>Words\<close>

lemma unat_u32_less: "unat (w :: u32) < 2 ^ 32"
  by (rule order_less_le_trans [OF unsigned_less]) simp

lemma unat_u64_less: "unat (w :: u64) < 2 ^ 64"
  by (rule order_less_le_trans [OF unsigned_less]) simp

lemma unat_u32_inc: "unat w + 1 < 2 ^ 32 \<Longrightarrow> unat (w + 1 :: u32) = unat w + 1"
  by (simp add: unat_word_ariths)

lemma unat_u32_dec: "0 < w \<Longrightarrow> unat (w - 1 :: u32) = unat w - 1"
  by (simp add: unat_minus_one word_gt_0)

lemma unat_u32_of_nat: "n < 2 ^ 32 \<Longrightarrow> unat (of_nat n :: u32) = n"
  by (simp add: unat_of_nat take_bit_nat_eq_self)

end
