(* ===== verification/Regex.thy ===== *)
theory Regex
  imports Prelude
begin

text \<open>
  RE2 is not part of the repository: \<open>RE2::FullMatch\<close> is a parameter of the definitions that
  call it.  Its patterns, which are source code, are transcribed as terms of a small syntax of
  regular expressions with the usual languages.  The locale \<open>re2\<close> is the documented contract of
  \<open>FullMatch\<close>; a matcher by derivatives satisfies it, so the contract can be met.
\<close>

section \<open>Patterns and their languages\<close>

datatype rexp = Zero | Eps | Cls "char \<Rightarrow> bool" | Alt rexp rexp | Seq rexp rexp | Star rexp

inductive_set star :: "string set \<Rightarrow> string set" for L where
  star_Nil: "[] \<in> star L"
| star_step: "u \<in> L \<Longrightarrow> v \<in> star L \<Longrightarrow> u @ v \<in> star L"

primrec lang :: "rexp \<Rightarrow> string set" where
  "lang Zero = {}"
| "lang Eps = {[]}"
| "lang (Cls P) = {[c] | c. P c}"
| "lang (Alt r s) = lang r \<union> lang s"
| "lang (Seq r s) = {u @ v | u v. u \<in> lang r \<and> v \<in> lang s}"
| "lang (Star r) = star (lang r)"

text \<open>The repetition forms \<open>r{n}\<close>, \<open>r{m,n}\<close> and \<open>r+\<close>, a literal and a character range.\<close>

primrec rep_times :: "nat \<Rightarrow> rexp \<Rightarrow> rexp" where
  "rep_times 0 r = Eps"
| "rep_times (Suc n) r = Seq r (rep_times n r)"

primrec rep_upto :: "nat \<Rightarrow> rexp \<Rightarrow> rexp" where
  "rep_upto 0 r = Eps"
| "rep_upto (Suc n) r = Alt Eps (Seq r (rep_upto n r))"

definition Rep :: "nat \<Rightarrow> nat \<Rightarrow> rexp \<Rightarrow> rexp" where
  "Rep m n r = Seq (rep_times m r) (rep_upto (n - m) r)"

definition Plus :: "rexp \<Rightarrow> rexp" where
  "Plus r = Seq r (Star r)"

definition Lit :: "char \<Rightarrow> rexp" where
  "Lit a = Cls (\<lambda>c. c = a)"

definition in_range :: "char \<Rightarrow> char \<Rightarrow> char \<Rightarrow> bool" where
  "in_range lo hi c \<longleftrightarrow> (of_char lo :: nat) \<le> of_char c \<and> (of_char c :: nat) \<le> of_char hi"

definition Range :: "char \<Rightarrow> char \<Rightarrow> rexp" where
  "Range lo hi = Cls (in_range lo hi)"

section \<open>A matcher\<close>

primrec nullable :: "rexp \<Rightarrow> bool" where
  "nullable Zero = False"
| "nullable Eps = True"
| "nullable (Cls P) = False"
| "nullable (Alt r s) = (nullable r \<or> nullable s)"
| "nullable (Seq r s) = (nullable r \<and> nullable s)"
| "nullable (Star r) = True"

primrec deriv :: "char \<Rightarrow> rexp \<Rightarrow> rexp" where
  "deriv c Zero = Zero"
| "deriv c Eps = Zero"
| "deriv c (Cls P) = (if P c then Eps else Zero)"
| "deriv c (Alt r s) = Alt (deriv c r) (deriv c s)"
| "deriv c (Seq r s) =
     (if nullable r then Alt (Seq (deriv c r) s) (deriv c s) else Seq (deriv c r) s)"
| "deriv c (Star r) = Seq (deriv c r) (Star r)"

primrec deriv_match :: "string \<Rightarrow> rexp \<Rightarrow> bool" where
  "deriv_match [] r = nullable r"
| "deriv_match (c # s) r = deriv_match s (deriv c r)"

definition full_match :: "rexp \<Rightarrow> string \<Rightarrow> bool" where
  "full_match r s = deriv_match s r"

section \<open>The contract of FullMatch\<close>

locale re2 =
  fixes FullMatch :: "rexp \<Rightarrow> string \<Rightarrow> bool"
  assumes FullMatch_lang: "FullMatch r s \<longleftrightarrow> s \<in> lang r"
begin

lemma FullMatch_Alt: "FullMatch (Alt r s) w \<longleftrightarrow> FullMatch r w \<or> FullMatch s w"
  by (simp add: FullMatch_lang)

lemma FullMatch_Seq: "FullMatch (Seq r s) w \<longleftrightarrow> (\<exists>u v. w = u @ v \<and> FullMatch r u \<and> FullMatch s v)"
  by (auto simp: FullMatch_lang)

end

lemma nullable_iff: "nullable r \<longleftrightarrow> [] \<in> lang r"
  by (induction r) (auto intro: star_Nil)

lemma star_Cons: "c # w \<in> star L \<longleftrightarrow> (\<exists>u v. w = u @ v \<and> c # u \<in> L \<and> v \<in> star L)"
proof
  have "x \<in> star L \<Longrightarrow> x = c # w \<Longrightarrow> \<exists>u v. w = u @ v \<and> c # u \<in> L \<and> v \<in> star L" for x
  proof (induction arbitrary: w rule: star.induct)
    case star_Nil
    then show ?case by simp
  next
    case (star_step u v)
    then show ?case by (cases u) auto
  qed
  then show "c # w \<in> star L \<Longrightarrow> \<exists>u v. w = u @ v \<and> c # u \<in> L \<and> v \<in> star L" by blast
next
  show "\<exists>u v. w = u @ v \<and> c # u \<in> L \<and> v \<in> star L \<Longrightarrow> c # w \<in> star L"
    using star_step by (metis append_Cons)
qed

lemma deriv_iff: "w \<in> lang (deriv c r) \<longleftrightarrow> c # w \<in> lang r"
proof (induction r arbitrary: w)
  case (Seq r s)
  have "c # w \<in> lang (Seq r s) \<longleftrightarrow>
      ([] \<in> lang r \<and> c # w \<in> lang s) \<or> (\<exists>u v. w = u @ v \<and> c # u \<in> lang r \<and> v \<in> lang s)"
    by (auto simp: Cons_eq_append_conv)
  with Seq show ?case by (auto simp: nullable_iff)
next
  case (Star r)
  then show ?case by (auto simp: star_Cons)
qed auto

lemma full_match_lang: "full_match r s \<longleftrightarrow> s \<in> lang r"
  unfolding full_match_def by (induction s arbitrary: r) (simp_all add: nullable_iff deriv_iff)

interpretation deriv_re2: re2 full_match
  by unfold_locales (rule full_match_lang)

section \<open>Languages of the repetition forms over a character class\<close>

lemma Seq_Cls_Cons [simp]: "a # w \<in> lang (Seq (Cls P) r) \<longleftrightarrow> P a \<and> w \<in> lang r"
  by (auto simp: Cons_eq_append_conv) (metis append_Cons append_Nil)

lemma Seq_Cls_Nil [simp]: "[] \<notin> lang (Seq (Cls P) r)"
  by simp

lemma lang_times_Cls: "lang (rep_times n (Cls P)) = {s. length s = n \<and> list_all P s}"
proof (induction n)
  case 0
  show ?case by auto
next
  case (Suc n)
  show ?case
  proof (rule set_eqI)
    fix s
    show "s \<in> lang (rep_times (Suc n) (Cls P)) \<longleftrightarrow> s \<in> {s. length s = Suc n \<and> list_all P s}"
      using Suc by (cases s) (auto simp del: lang.simps(5))
  qed
qed

lemma lang_upto_Cls: "lang (rep_upto n (Cls P)) = {s. length s \<le> n \<and> list_all P s}"
proof (induction n)
  case 0
  show ?case by auto
next
  case (Suc n)
  show ?case
  proof (rule set_eqI)
    fix s
    show "s \<in> lang (rep_upto (Suc n) (Cls P)) \<longleftrightarrow> s \<in> {s. length s \<le> Suc n \<and> list_all P s}"
      using Suc by (cases s) (auto simp del: lang.simps(5))
  qed
qed

lemma lang_Rep_Cls:
  assumes "m \<le> n"
  shows "lang (Rep m n (Cls P)) = {s. m \<le> length s \<and> length s \<le> n \<and> list_all P s}"
proof (rule set_eqI)
  fix s
  have "s \<in> lang (Rep m n (Cls P)) \<longleftrightarrow>
      (\<exists>u v. s = u @ v \<and> length u = m \<and> list_all P u \<and> length v \<le> n - m \<and> list_all P v)"
    by (auto simp: Rep_def lang_times_Cls lang_upto_Cls)
  also have "\<dots> \<longleftrightarrow> m \<le> length s \<and> length s \<le> n \<and> list_all P s"
  proof
    assume "m \<le> length s \<and> length s \<le> n \<and> list_all P s"
    then have "s = take m s @ drop m s" "length (take m s) = m" "length (drop m s) \<le> n - m"
      "list_all P (take m s)" "list_all P (drop m s)"
      by (auto simp: list_all_iff dest: in_set_takeD in_set_dropD)
    then show "\<exists>u v. s = u @ v \<and> length u = m \<and> list_all P u \<and> length v \<le> n - m \<and> list_all P v"
      by blast
  qed (use assms in auto)
  finally show "s \<in> lang (Rep m n (Cls P)) \<longleftrightarrow>
      s \<in> {s. m \<le> length s \<and> length s \<le> n \<and> list_all P s}"
    by simp
qed

lemma star_Cls: "star {[c] | c. P c} = {s. list_all P s}"
proof (rule set_eqI)
  fix s
  show "s \<in> star {[c] | c. P c} \<longleftrightarrow> s \<in> {s. list_all P s}"
    by (induction s) (auto simp: star_Cons intro: star_Nil)
qed

lemma lang_Plus_Cls: "lang (Plus (Cls P)) = {s. s \<noteq> [] \<and> list_all P s}"
proof (rule set_eqI)
  fix s
  show "s \<in> lang (Plus (Cls P)) \<longleftrightarrow> s \<in> {s. s \<noteq> [] \<and> list_all P s}"
    by (cases s) (simp_all add: Plus_def star_Cls del: lang.simps(5))
qed

lemma lang_Lit [simp]: "lang (Lit a) = {[a]}"
  by (auto simp: Lit_def)

end
