(* ===== verification/MixAll.thy ===== *)
theory MixAll
  imports Regex
begin

unbundle bit_operations_syntax

text \<open>
  \<open>MixAll\<close> (base/MixAll.cpp): the client's constants, its hexadecimal codec, the body digests and
  the two patterns for topics and addresses.  The digest algorithms of zlib and OpenSSL are
  parameters.  \<open>MixAll::validate\<close> is in theory \<open>Message\<close>, after the message type.
\<close>

section \<open>Constants\<close>

abbreviation MASTER_BROKER_ID :: int where "MASTER_BROKER_ID \<equiv> 0"

abbreviation DEFAULT_RECEIVE_MESSAGE_BATCH_SIZE :: int where
  "DEFAULT_RECEIVE_MESSAGE_BATCH_SIZE \<equiv> 32"

abbreviation MAX_MESSAGE_BODY_SIZE :: u32 where "MAX_MESSAGE_BODY_SIZE \<equiv> 1024 * 1024 * 4"

abbreviation MAX_CACHED_MESSAGE_COUNT :: u32 where "MAX_CACHED_MESSAGE_COUNT \<equiv> 65535"

abbreviation DEFAULT_CACHED_MESSAGE_COUNT :: u32 where "DEFAULT_CACHED_MESSAGE_COUNT \<equiv> 1024"

abbreviation DEFAULT_CACHED_MESSAGE_MEMORY :: u64 where
  "DEFAULT_CACHED_MESSAGE_MEMORY \<equiv> 128 * 1024 * 1024"

abbreviation DEFAULT_CONSUME_THREAD_POOL_SIZE :: u32 where "DEFAULT_CONSUME_THREAD_POOL_SIZE \<equiv> 20"

abbreviation DEFAULT_CONSUME_MESSAGE_BATCH_SIZE :: u32 where "DEFAULT_CONSUME_MESSAGE_BATCH_SIZE \<equiv> 1"

abbreviation DEFAULT_MAX_DELIVERY_ATTEMPTS :: int where "DEFAULT_MAX_DELIVERY_ATTEMPTS \<equiv> 16"

text \<open>Durations are milliseconds.\<close>

abbreviation DEFAULT_INVISIBLE_TIME :: int where "DEFAULT_INVISIBLE_TIME \<equiv> 30 * 1000"

abbreviation PROCESS_QUEUE_EXPIRATION_THRESHOLD :: int where
  "PROCESS_QUEUE_EXPIRATION_THRESHOLD \<equiv> 120 * 1000"

abbreviation MAX_SEND_MESSAGE_ATTEMPT_TIMES :: int where "MAX_SEND_MESSAGE_ATTEMPT_TIMES \<equiv> 3"

abbreviation DEFAULT_LOAD_BALANCER_STRATEGY_NAME :: string where
  "DEFAULT_LOAD_BALANCER_STRATEGY_NAME \<equiv> ''AVG''"

abbreviation DEFAULT_COMPRESS_BODY_THRESHOLD :: u32 where
  "DEFAULT_COMPRESS_BODY_THRESHOLD \<equiv> 1024 * 1024 * 4"

section \<open>Patterns\<close>

definition topic_char :: "char \<Rightarrow> bool" where
  "topic_char c \<longleftrightarrow> in_range (CHR ''a'') (CHR ''z'') c \<or> in_range (CHR ''A'') (CHR ''Z'') c \<or>
     in_range (CHR ''0'') (CHR ''9'') c \<or> c = CHR ''-'' \<or> c = CHR ''_''"

definition TOPIC_REGEX :: rexp where
  "TOPIC_REGEX = Rep 3 64 (Cls topic_char)"

definition IP_REGEX :: rexp where
  "IP_REGEX = Seq (Plus (Cls is_digit)) (Seq (Lit (CHR ''.''))
     (Seq (Plus (Cls is_digit)) (Seq (Lit (CHR ''.''))
     (Seq (Plus (Cls is_digit)) (Seq (Lit (CHR ''.'')) (Plus (Cls is_digit)))))))"

definition MixAll_isIPv4 :: "(rexp \<Rightarrow> string \<Rightarrow> bool) \<Rightarrow> string \<Rightarrow> bool" where
  "MixAll_isIPv4 FullMatch host = FullMatch IP_REGEX host"

section \<open>Hexadecimal codec\<close>

definition hex_dict :: string where "hex_dict = ''0123456789ABCDEF''"

fun hex :: "bytes \<Rightarrow> string" where
  "hex [] = []"
| "hex (c # cs) =
     (hex_dict ! unat (drop_bit 4 (0xF0 AND c))) # (hex_dict ! unat (0x0F AND c)) # hex cs"

text \<open>The out parameter \<open>value\<close> is written exactly when the call returns true.\<close>

definition hexCharValue :: "char \<Rightarrow> u8 option" where
  "hexCharValue c =
     (if in_range (CHR ''0'') (CHR ''9'') c then Some (of_nat (of_char c) - 48)
      else if in_range (CHR ''a'') (CHR ''f'') c then Some (of_nat (of_char c) - 97 + 10)
      else if in_range (CHR ''A'') (CHR ''F'') c then Some (of_nat (of_char c) - 65 + 10)
      else None)"

text \<open>The loop appends to \<open>bin\<close> while it reads, so a failure leaves the prefix decoded so far.
  The length test before it excludes the one-character case.\<close>

fun hexToBinary_loop :: "string \<Rightarrow> bytes \<Rightarrow> bool \<times> bytes" where
  "hexToBinary_loop (c1 # c2 # cs) bin =
     (case hexCharValue c1 of
        None \<Rightarrow> (False, bin)
      | Some t1 \<Rightarrow>
          (case hexCharValue c2 of
             None \<Rightarrow> (False, bin)
           | Some t2 \<Rightarrow> hexToBinary_loop cs (bin @ [push_bit 4 t1 OR t2])))"
| "hexToBinary_loop _ bin = (True, bin)"

definition hexToBinary :: "string \<Rightarrow> bytes \<Rightarrow> bool \<times> bytes" where
  "hexToBinary s bin = (if odd (length s) then (False, bin) else hexToBinary_loop s bin)"

section \<open>Digests\<close>

text \<open>\<open>htonl\<close> puts the most significant byte first in memory.\<close>

definition network_bytes :: "u32 \<Rightarrow> bytes" where
  "network_bytes w = [ucast (drop_bit 24 w), ucast (drop_bit 16 w), ucast (drop_bit 8 w), ucast w]"

definition crc32 :: "(string \<Rightarrow> u32) \<Rightarrow> string \<Rightarrow> string \<Rightarrow> bool \<times> string" where
  "crc32 zlib_crc32 data digest = (True, hex (network_bytes (zlib_crc32 data)))"

text \<open>\<open>MD5_Final\<close> may fail; the digest is then left as it was.\<close>

definition md5 :: "(string \<Rightarrow> bytes option) \<Rightarrow> string \<Rightarrow> string \<Rightarrow> bool \<times> string" where
  "md5 MD5 data digest = (case MD5 data of None \<Rightarrow> (False, digest) | Some md \<Rightarrow> (True, hex md))"

definition sha1 :: "(string \<Rightarrow> bytes) \<Rightarrow> string \<Rightarrow> string \<Rightarrow> bool \<times> string" where
  "sha1 SHA1 data digest = (True, hex (SHA1 data))"

section \<open>Random numbers and times\<close>

text \<open>\<open>uniform\<close> is \<open>absl::Uniform\<close> on the static generator, \<open>date_time\<close> is \<open>strftime\<close> on the local time.  The milliseconds
  are printed without leading zeros.\<close>

definition MixAll_random :: "(u32 \<Rightarrow> u32 \<Rightarrow> u32) \<Rightarrow> u32 \<Rightarrow> u32 \<Rightarrow> u32" where
  "MixAll_random uniform left right = uniform left right"

definition MixAll_format :: "(nat \<Rightarrow> string) \<Rightarrow> nat \<Rightarrow> string" where
  "MixAll_format date_time millis = date_time (millis div 1000) @ ''.'' @ nat_digits (millis mod 1000)"

section \<open>Home directory\<close>

text \<open>\<open>getenv\<close> and \<open>getpwuid(getuid())\<close> are arguments.  The environment's value is appended to the
  caller's string, the password entry replaces it.\<close>

definition homeDirectory :: "(string \<Rightarrow> string option) \<Rightarrow> string option \<Rightarrow> string \<Rightarrow> bool \<times> string"
where
  "homeDirectory getenv pw_dir home_dir =
     (case getenv ''HOME'' of
        Some home \<Rightarrow> (True, home_dir @ home)
      | None \<Rightarrow>
          (case pw_dir of
             Some dir \<Rightarrow> (True, dir)
           | None \<Rightarrow> (False, home_dir)))"

section \<open>Lemmas: the codec\<close>

lemma format_unpadded: "MixAll_format date_time 5 = date_time 0 @ ''.5''"
proof -
  have "nat_digits 5 = ''5''" by code_simp
  then show ?thesis by (simp add: MixAll_format_def)
qed

lemma hexCharValue_dict: "n < 16 \<Longrightarrow> hexCharValue (hex_dict ! n) = Some (of_nat n)"
proof -
  assume "n < 16"
  then have "n \<in> {0, 1, 2, 3, 4, 5, 6, 7, 8, 9, 10, 11, 12, 13, 14, 15}"
    by (simp only: insert_iff empty_iff) presburger
  then show ?thesis
    by (elim insertE emptyE; hypsubst) (simp_all add: hexCharValue_def in_range_def hex_dict_def)
qed

lemma high_nibble: "drop_bit 4 (0xF0 AND c) = drop_bit 4 (c :: u8)"
proof (rule bit_word_eqI)
  fix n
  assume "n < LENGTH(8)"
  then have "n \<in> {0, 1, 2, 3, 4, 5, 6, 7}" by auto
  then show "bit (drop_bit 4 (0xF0 AND c)) n \<longleftrightarrow> bit (drop_bit 4 c) n"
    by (auto simp: bit_simps dest: bit_imp_le_length)
qed

lemma high_nibble_bound: "unat (drop_bit 4 (c :: u8)) < 16"
proof -
  have "unat (drop_bit 4 c) = unat c div 2 ^ 4"
    by (simp add: drop_bit_eq_div unat_div)
  moreover have "unat c < 256" using unsigned_less [of c] by simp
  ultimately show ?thesis by (simp add: less_mult_imp_div_less)
qed

lemma low_nibble_bound: "unat (0x0F AND (c :: u8)) < 16"
proof -
  have "0x0F AND c \<le> 0x0F" by (rule word_and_le2)
  then have "unat (0x0F AND c) \<le> unat (0x0F :: u8)" by (simp add: word_le_nat_alt)
  then show ?thesis by simp
qed

lemma nibbles_join: "push_bit 4 (drop_bit 4 c) OR (0x0F AND c) = (c :: u8)"
proof (rule bit_word_eqI)
  fix n
  assume "n < LENGTH(8)"
  then have "n \<in> {0, 1, 2, 3, 4, 5, 6, 7}" by auto
  then show "bit (push_bit 4 (drop_bit 4 c) OR (0x0F AND c)) n \<longleftrightarrow> bit c n"
    by (auto simp: bit_simps dest: bit_imp_le_length)
qed

lemma length_hex [simp]: "length (hex bs) = 2 * length bs"
  by (induction bs) simp_all

lemma hexToBinary_loop_hex: "hexToBinary_loop (hex bs) bin = (True, bin @ bs)"
proof (induction bs arbitrary: bin)
  case Nil
  show ?case by simp
next
  case (Cons c cs)
  have "hexCharValue (hex_dict ! unat (drop_bit 4 (0xF0 AND c))) = Some (drop_bit 4 c)"
    unfolding high_nibble using hexCharValue_dict [OF high_nibble_bound [of c]] by simp
  moreover have "hexCharValue (hex_dict ! unat (0x0F AND c)) = Some (0x0F AND c)"
    using hexCharValue_dict [OF low_nibble_bound [of c]] by simp
  ultimately show ?case
    by (simp only: hex.simps hexToBinary_loop.simps option.simps nibbles_join Cons.IH
        append_assoc append.simps)
qed

lemma hex_inj: "hex a = hex b \<Longrightarrow> a = b"
  by (metis hexToBinary_loop_hex append_Nil prod.inject)

text \<open>The canonical spelling of a hexadecimal digit.\<close>

definition hex_upper :: "char \<Rightarrow> char" where
  "hex_upper c = (if in_range (CHR ''a'') (CHR ''f'') c then char_of (of_char c - (32 :: nat)) else c)"

lemma hexCharValue_bound:
  assumes "hexCharValue c = Some v"
  shows "unat v < 16 \<and> hex_dict ! unat v = hex_upper c"
proof -
  define k :: nat where "k = of_char c"
  have c: "c = char_of k" and k: "of_char c = k" by (simp_all add: k_def)
  from assms have "48 \<le> k \<and> k \<le> 57 \<or> 97 \<le> k \<and> k \<le> 102 \<or> 65 \<le> k \<and> k \<le> 70"
    by (auto simp: hexCharValue_def in_range_def k split: if_splits)
  then have "k \<in> {48, 49, 50, 51, 52, 53, 54, 55, 56, 57} \<union> {97, 98, 99, 100, 101, 102} \<union>
      {65, 66, 67, 68, 69, 70}"
    by (simp only: insert_iff empty_iff Un_iff) presburger
  then show ?thesis
    using assms unfolding c
    by (elim UnE insertE emptyE; hypsubst)
      (auto simp: hexCharValue_def hex_upper_def in_range_def hex_dict_def char_of_def)
qed

lemma nibble_split:
  assumes "unat t1 < 16" "unat t2 < 16"
  shows "drop_bit 4 (push_bit 4 t1 OR t2) = (t1 :: u8)" and "0x0F AND (push_bit 4 t1 OR t2) = (t2 :: u8)"
proof -
  have b: "\<not> bit t n" if "unat t < 16" "4 \<le> n" for t :: u8 and n
  proof -
    have "unat t < 2 ^ n"
      using that power_increasing [of 4 n "2 :: nat"] by simp
    then have "take_bit n (unat t) = unat t" by (rule take_bit_nat_eq_self)
    then have "\<not> bit (unat t) n" by (metis bit_take_bit_iff less_irrefl)
    then show ?thesis by (simp add: bit_unsigned_iff)
  qed
  show "drop_bit 4 (push_bit 4 t1 OR t2) = t1"
  proof (rule bit_word_eqI)
    fix n
    assume "n < LENGTH(8)"
    then have "n \<in> {0, 1, 2, 3, 4, 5, 6, 7}" by auto
    then show "bit (drop_bit 4 (push_bit 4 t1 OR t2)) n \<longleftrightarrow> bit t1 n"
      using b [OF assms(1)] b [OF assms(2)] by (auto simp: bit_simps dest: bit_imp_le_length)
  qed
  show "0x0F AND (push_bit 4 t1 OR t2) = t2"
  proof (rule bit_word_eqI)
    fix n
    assume "n < LENGTH(8)"
    then have "n \<in> {0, 1, 2, 3, 4, 5, 6, 7}" by auto
    then show "bit (0x0F AND (push_bit 4 t1 OR t2)) n \<longleftrightarrow> bit t2 n"
      using b [OF assms(1)] b [OF assms(2)] by (auto simp: bit_simps dest: bit_imp_le_length)
  qed
qed

lemma hex_hexToBinary_loop:
  assumes "even (length s)" "hexToBinary_loop s bin = (True, out)"
  shows "\<exists>bs. out = bin @ bs \<and> hex bs = map hex_upper s"
  using assms
proof (induction s bin rule: hexToBinary_loop.induct)
  case (1 c1 c2 cs bin)
  then obtain t1 t2 where t: "hexCharValue c1 = Some t1" "hexCharValue c2 = Some t2"
    by (auto split: option.splits)
  with 1 obtain bs where "out = bin @ (push_bit 4 t1 OR t2) # bs" "hex bs = map hex_upper cs"
    by fastforce
  moreover have "hex ((push_bit 4 t1 OR t2) # bs) = hex_upper c1 # hex_upper c2 # hex bs"
    using t [THEN hexCharValue_bound] by (simp only: hex.simps high_nibble nibble_split)
  ultimately show ?case by (intro exI [of _ "(push_bit 4 t1 OR t2) # bs"]) simp
qed auto

lemma hexCharValue_upper: "hexCharValue (hex_upper c) = hexCharValue c"
proof (cases "hexCharValue c")
  case None
  then have "hex_upper c = c" by (simp add: hexCharValue_def hex_upper_def split: if_splits)
  then show ?thesis by simp
next
  case (Some v)
  from hexCharValue_bound [OF this] hexCharValue_dict [of "unat v"] Some show ?thesis by simp
qed

lemma hexToBinary_loop_upper: "hexToBinary_loop (map hex_upper s) bin = hexToBinary_loop s bin"
  by (induction s bin rule: hexToBinary_loop.induct)
    (simp_all add: hexCharValue_upper split: option.split)

section \<open>Properties: the codec\<close>

text \<open>Decoding what \<open>hex\<close> printed gives the bytes back, appended to what the caller's buffer
  already held; the decoder accepts every output of the encoder.\<close>

theorem hex_roundtrip: "hexToBinary (hex bs) bin = (True, bin @ bs)"
  by (simp add: hexToBinary_def hexToBinary_loop_hex)

text \<open>C28: \<open>hexToBinary\<close> is the exact inverse of \<open>hex\<close> up to the case of the digits: it accepts
  a string with result \<open>bs\<close> if and only if the string in upper case is what \<open>hex\<close> prints for
  \<open>bs\<close>.  In particular every string of odd length or with another character is refused.\<close>

theorem hexToBinary_exact: "hexToBinary s [] = (True, bs) \<longleftrightarrow> hex bs = map hex_upper s"
proof
  assume "hexToBinary s [] = (True, bs)"
  then show "hex bs = map hex_upper s"
    using hex_hexToBinary_loop [of s "[]" bs] by (auto simp: hexToBinary_def split: if_splits)
next
  assume h: "hex bs = map hex_upper s"
  then have "length s = 2 * length bs" by (metis length_hex length_map)
  moreover have "hexToBinary_loop s [] = (True, bs)"
    using hexToBinary_loop_hex [of bs "[]"] unfolding h by (simp add: hexToBinary_loop_upper)
  ultimately show "hexToBinary s [] = (True, bs)" by (simp add: hexToBinary_def)
qed

end
