(* ===== verification/RateLimiter.thy ===== *)
theory RateLimiter
  imports Prelude
begin

text \<open>
  The rate limiter (base/include/RateLimiter.h, base/RateLimiter.cpp): a permit budget per second
  spread over \<open>PARTITION\<close> time slots, refilled slot by slot by the observer's tick thread, with the
  unused quota of the past half cycle open for reuse.  The template argument \<open>PARTITION\<close> is the
  argument \<open>P\<close>, a reading of the steady clock in milliseconds is an argument \<open>ms\<close>, and permits are
  32-bit words as in the source.
\<close>

section \<open>State and operations\<close>

record rate_limiter =
  rl_partition :: "u32 list"
  rl_permits :: "u32 list"

definition RateLimiter_new :: "nat \<Rightarrow> u32 \<Rightarrow> rate_limiter" where
  "RateLimiter_new P permit =
     (let avg = permit div of_nat P;
          base = replicate P avg;
          r = unat (permit mod of_nat P)
      in \<lparr>rl_partition =
            (if r \<noteq> 0
             then let step = P div r
                  in foldl (\<lambda>part i. part[i * step := part ! (i * step) + 1]) base [0..<r]
             else base),
          rl_permits = replicate P 0\<rparr>)"

definition slot :: "nat \<Rightarrow> nat \<Rightarrow> nat" where
  "slot P ms = ms div (1000 div P) mod P"

definition back_index :: "nat \<Rightarrow> nat \<Rightarrow> nat \<Rightarrow> nat" where
  "back_index P idx j = (if idx < j then idx + P - j else idx - j)"

definition available :: "nat \<Rightarrow> nat \<Rightarrow> rate_limiter \<Rightarrow> u32" where
  "available P ms rl =
     (let idx = slot P ms
      in foldl (\<lambda>acc j. let p = rl_permits rl ! back_index P idx j in if p > 0 then acc + p else acc)
           0 [0..<P div 2 + 1])"

text \<open>The inner \<open>while\<close> of \<open>acquire(permit)\<close>; its \<open>break\<close> leaves only this loop.\<close>

function drain :: "u32 \<Rightarrow> u32 \<Rightarrow> u32 \<Rightarrow> u32 \<times> u32" where
  "drain permit p acquired =
     (if p > 0
      then (if acquired + 1 \<ge> permit then (p - 1, acquired + 1)
            else drain permit (p - 1) (acquired + 1))
      else (p, acquired))"
  by auto
termination
  by (relation "measure (\<lambda>(_, p, _). unat p)") (auto simp: unat_minus_one word_gt_0 unat_gt_0)

declare drain.simps [simp del]

fun reuse :: "u32 \<Rightarrow> nat \<Rightarrow> nat \<Rightarrow> nat list \<Rightarrow> u32 list \<Rightarrow> u32 \<Rightarrow> u32 list \<times> u32" where
  "reuse permit P idx [] ps acquired = (ps, acquired)"
| "reuse permit P idx (j # js) ps acquired =
     (let index = back_index P idx j;
          (p, acquired') = drain permit (ps ! index) acquired
      in reuse permit P idx js (ps[index := p]) acquired')"

definition acquire_n :: "nat \<Rightarrow> u32 \<Rightarrow> nat \<Rightarrow> rate_limiter \<Rightarrow> rate_limiter \<times> u32" where
  "acquire_n P permit ms rl =
     (let idx = slot P ms; ps = rl_permits rl
      in if ps ! idx \<ge> permit
         then (rl\<lparr>rl_permits := ps[idx := ps ! idx - permit]\<rparr>, permit)
         else
           let acquired = (if ps ! idx > 0 then 0 + ps ! idx else 0);
               ps1 = (if ps ! idx > 0 then ps[idx := 0] else ps);
               (ps2, acquired') = reuse permit P idx [1..<P div 2 + 1] ps1 acquired
           in (rl\<lparr>rl_permits := ps2\<rparr>, acquired'))"

text \<open>\<open>acquire()\<close> takes a permit at once when the current slot or the past half cycle has one;
  otherwise (\<open>None\<close>) the thread waits on the condition variable.\<close>

fun first_nonempty :: "nat \<Rightarrow> nat \<Rightarrow> nat list \<Rightarrow> u32 list \<Rightarrow> nat option" where
  "first_nonempty P idx [] ps = None"
| "first_nonempty P idx (j # js) ps =
     (if ps ! back_index P idx j > 0 then Some (back_index P idx j) else first_nonempty P idx js ps)"

definition acquire :: "nat \<Rightarrow> nat \<Rightarrow> rate_limiter \<Rightarrow> rate_limiter option" where
  "acquire P ms rl =
     (let idx = slot P ms; ps = rl_permits rl
      in if ps ! idx > 0 then Some (rl\<lparr>rl_permits := ps[idx := ps ! idx - 1]\<rparr>)
         else
           case first_nonempty P idx [1..<P div 2 + 1] ps of
             Some i \<Rightarrow> Some (rl\<lparr>rl_permits := ps[i := ps ! i - 1]\<rparr>)
           | None \<Rightarrow> None)"

text \<open>The wait returns when its predicate holds at a clock reading \<open>ms\<close>; the slot is then read
  again, at \<open>ms'\<close>, and its counter decremented without a test.\<close>

definition acquire_wake :: "nat \<Rightarrow> nat \<Rightarrow> nat \<Rightarrow> rate_limiter \<Rightarrow> rate_limiter option" where
  "acquire_wake P ms ms' rl =
     (if rl_permits rl ! slot P ms > 0
      then let idx = slot P ms' in Some (rl\<lparr>rl_permits := (rl_permits rl)[idx := rl_permits rl ! idx - 1]\<rparr>)
      else None)"

definition tick :: "nat \<Rightarrow> nat \<Rightarrow> rate_limiter \<Rightarrow> rate_limiter" where
  "tick P ms rl =
     (let idx = slot P ms in rl\<lparr>rl_permits := (rl_permits rl)[idx := rl_partition rl ! idx]\<rparr>)"

section \<open>The observer\<close>

text \<open>\<open>ob_members\<close> holds weak pointers: \<open>lock\<close> tells which of them still refer to a live object, and
  \<open>do_tick\<close> is the object's \<open>tick()\<close>.\<close>

record observer =
  ob_members :: "nat list"
  ob_stopped :: bool

definition observer_subscribe :: "nat \<Rightarrow> observer \<Rightarrow> observer" where
  "observer_subscribe t ob = ob\<lparr>ob_members := ob_members ob @ [t]\<rparr>"

definition observer_stop :: "observer \<Rightarrow> observer" where
  "observer_stop ob = ob\<lparr>ob_stopped := True\<rparr>"

fun tick_members :: "(nat \<Rightarrow> bool) \<Rightarrow> ('a \<Rightarrow> 'a) \<Rightarrow> nat list \<Rightarrow> (nat \<Rightarrow> 'a) \<Rightarrow> nat list \<times> (nat \<Rightarrow> 'a)"
where
  "tick_members lock do_tick [] heap = ([], heap)"
| "tick_members lock do_tick (t # ts) heap =
     (if \<not> lock t then tick_members lock do_tick ts heap
      else let (ts', heap') = tick_members lock do_tick ts (heap(t := do_tick (heap t)))
           in (t # ts', heap'))"

definition observer_round ::
  "(nat \<Rightarrow> bool) \<Rightarrow> ('a \<Rightarrow> 'a) \<Rightarrow> observer \<Rightarrow> (nat \<Rightarrow> 'a) \<Rightarrow> observer \<times> (nat \<Rightarrow> 'a)" where
  "observer_round lock do_tick ob heap =
     (if ob_stopped ob then (ob, heap)
      else let (ts, heap') = tick_members lock do_tick (ob_members ob) heap
           in (ob\<lparr>ob_members := ts\<rparr>, heap'))"

section \<open>Totals\<close>

definition total :: "u32 list \<Rightarrow> nat" where "total ps = sum_list (map unat ps)"

lemma total_update: "i < length ps \<Longrightarrow> total (ps[i := v]) + unat (ps ! i) = total ps + unat v"
  by (induction ps arbitrary: i) (auto simp: total_def split: nat.split)

lemma nth_le_total: "i < length ps \<Longrightarrow> unat (ps ! i) \<le> total ps"
  by (induction ps arbitrary: i) (auto simp: total_def nth_Cons split: nat.split intro: trans_le_add2)

lemma total_replicate [simp]: "total (replicate n v) = n * unat v"
  by (induction n) (simp_all add: total_def)

lemma back_index_less: "idx < P \<Longrightarrow> j \<le> P div 2 \<Longrightarrow> back_index P idx j < P"
  by (auto simp: back_index_def)

lemma slot_less: "0 < P \<Longrightarrow> slot P ms < P"
  by (simp add: slot_def)

section \<open>The partition of the budget\<close>

lemma spread_fold:
  assumes "0 < step" "m * step \<le> P" "unat avg + 1 < 2 ^ 32"
  shows "let part = foldl (\<lambda>part i. part[i * step := part ! (i * step) + 1]) (replicate P avg) [0..<m]
    in length part = P \<and> total part = P * unat avg + m \<and>
       (\<forall>k < P. unat (part ! k) \<in> {unat avg, unat avg + 1}) \<and>
       (\<forall>k < P. m * step \<le> k \<longrightarrow> part ! k = avg)"
  using assms(2)
proof (induction m)
  case 0
  then show ?case by simp
next
  case (Suc m)
  define part where
    "part = foldl (\<lambda>part i. part[i * step := part ! (i * step) + 1]) (replicate P avg) [0..<m]"
  have lt: "m * step < P" using Suc.prems assms(1) by simp
  have IH: "length part = P" "total part = P * unat avg + m"
      "\<forall>k < P. unat (part ! k) \<in> {unat avg, unat avg + 1}"
      "\<forall>k < P. m * step \<le> k \<longrightarrow> part ! k = avg"
    using Suc.IH Suc.prems unfolding part_def Let_def by auto
  have at: "part ! (m * step) = avg" using IH(4) lt by simp
  have inc: "unat (avg + 1) = unat avg + 1"
    using assms(3) by (simp add: unat_word_ariths)
  have "total (part[m * step := avg + 1]) = P * unat avg + Suc m"
    using total_update [of "m * step" part "avg + 1"] lt IH(1,2) at inc by simp
  then show ?case
    using IH lt at inc assms(1) by (auto simp: Let_def part_def [symmetric] nth_list_update)
qed

lemma RateLimiter_new_partition:
  assumes "0 < P" "P \<le> 1000"
  shows "let part = rl_partition (RateLimiter_new P permit) in
    length part = P \<and> total part = unat permit \<and>
    (\<forall>k < P. unat (part ! k) \<in> {unat permit div P, unat permit div P + 1})"
proof -
  have P: "unat (of_nat P :: u32) = P"
    using assms by (simp add: unat_u32_of_nat)
  define avg where "avg = permit div of_nat P"
  define r where "r = unat (permit mod of_nat P)"
  have avg: "unat avg = unat permit div P" and r: "r = unat permit mod P"
    by (simp_all add: avg_def r_def unat_div unat_mod P)
  have sum: "P * unat avg + r = unat permit" by (simp add: avg r)
  show ?thesis
  proof (cases "r = 0")
    case True
    then show ?thesis
      using sum avg by (simp add: RateLimiter_new_def Let_def flip: avg_def r_def)
  next
    case False
    have "r < P" using assms(1) by (simp add: r)
    moreover have "unat avg + 1 < 2 ^ 32"
    proof -
      have "1 < P" using False \<open>r < P\<close> by linarith
      then have "2 * unat avg \<le> P * unat avg" by simp
      then have "2 * unat avg < 2 ^ 32" using sum unat_u32_less [of permit] by linarith
      then show ?thesis by simp
    qed
    ultimately show ?thesis
      using spread_fold [of "P div r" r P avg] False sum avg
      by (simp add: RateLimiter_new_def Let_def div_greater_zero_iff times_div_less_eq_dividend
          flip: avg_def r_def)
  qed
qed

section \<open>Draining past slots\<close>

lemma drain_zero [simp]: "drain permit 0 a = (0, a)"
  by (simp add: drain.simps)

lemma drain_spec:
  assumes "drain permit p a = (p', a')" "unat p + unat a < 2 ^ 32"
  shows "unat p' + unat a' = unat p + unat a" "p' \<le> p"
    and "a < permit \<Longrightarrow> a' \<le> permit \<and> (a' < permit \<longrightarrow> p' = 0)"
    and "permit \<le> a \<Longrightarrow> unat a' \<le> unat a + 1 \<and> a \<le> a'"
proof -
  have "unat p' + unat a' = unat p + unat a \<and> p' \<le> p \<and>
    (a < permit \<longrightarrow> a' \<le> permit \<and> (a' < permit \<longrightarrow> p' = 0)) \<and>
    (permit \<le> a \<longrightarrow> unat a' \<le> unat a + 1 \<and> a \<le> a')"
    using assms
  proof (induction permit p a arbitrary: p' a' rule: drain.induct)
    case (1 permit p a)
    show ?case
    proof (cases "p > 0")
      case True
      have dec: "unat (p - 1) = unat p - 1" and "0 < unat p"
        using True by (simp_all add: unat_u32_dec unat_gt_0 word_gt_0)
      moreover have inc: "unat (a + 1) = unat a + 1"
        using 1(3) \<open>0 < unat p\<close> by (intro unat_u32_inc) linarith
      ultimately show ?thesis
        using 1 True
        by (auto simp: drain.simps [of permit p a] word_less_nat_alt word_le_nat_alt
            split: if_splits)
    next
      case False
      then show ?thesis
        using 1(2) by (auto simp: word_gt_0)
    qed
  qed
  then show "unat p' + unat a' = unat p + unat a" "p' \<le> p"
    and "a < permit \<Longrightarrow> a' \<le> permit \<and> (a' < permit \<longrightarrow> p' = 0)"
    and "permit \<le> a \<Longrightarrow> unat a' \<le> unat a + 1 \<and> a \<le> a'"
    by auto
qed

definition pointwise_le :: "u32 list \<Rightarrow> u32 list \<Rightarrow> bool" where
  "pointwise_le ps qs \<longleftrightarrow> length ps = length qs \<and> (\<forall>i < length qs. ps ! i \<le> qs ! i)"

lemma pointwise_le_refl [simp]: "pointwise_le ps ps"
  by (simp add: pointwise_le_def)

lemma pointwise_le_trans: "pointwise_le ps qs \<Longrightarrow> pointwise_le qs rs \<Longrightarrow> pointwise_le ps rs"
  by (fastforce simp: pointwise_le_def)

lemma pointwise_le_update: "v \<le> ps ! i \<Longrightarrow> pointwise_le (ps[i := v]) ps"
  by (cases "i < length ps") (auto simp: pointwise_le_def nth_list_update)

lemma pointwise_le_update_right:
  "pointwise_le ps qs \<Longrightarrow> v \<le> qs ! i \<Longrightarrow> pointwise_le (ps[i := v]) qs"
  by (cases "i < length ps") (auto simp: pointwise_le_def nth_list_update)

lemma pointwise_le_total: "pointwise_le ps qs \<Longrightarrow> total ps \<le> total qs"
proof -
  assume "pointwise_le ps qs"
  then have "list_all2 (\<le>) ps qs" by (simp add: pointwise_le_def list_all2_conv_all_nth)
  then show ?thesis
    by (induction rule: list_all2_induct) (simp_all add: total_def word_le_nat_alt)
qed

lemma reuse_spec:
  assumes "reuse permit P idx js ps a = (ps', a')"
    and "\<forall>j \<in> set js. back_index P idx j < length ps" "total ps + unat a < 2 ^ 32"
  shows "pointwise_le ps' ps \<and> total ps' + unat a' = total ps + unat a \<and> a \<le> a' \<and>
    (if a < permit then unat a' \<le> unat permit + (length js - 1) else unat a' \<le> unat a + length js) \<and>
    (a' < permit \<longrightarrow> (\<forall>j \<in> set js. ps' ! back_index P idx j = 0))"
  using assms
proof (induction js arbitrary: ps a)
  case (Cons j js)
  define i where "i = back_index P idx j"
  obtain p a1 where d: "drain permit (ps ! i) a = (p, a1)" by fastforce
  have i: "i < length ps" using Cons.prems(2) by (simp add: i_def)
  have fit: "unat (ps ! i) + unat a < 2 ^ 32"
    using nth_le_total [OF i] Cons.prems(3) by linarith
  note D = drain_spec [OF d fit]
  have tot: "total (ps[i := p]) + unat a1 = total ps + unat a"
    using total_update [OF i, of p] D(1) by linarith
  have rec: "reuse permit P idx js (ps[i := p]) a1 = (ps', a')"
    using Cons.prems(1) d by (simp add: Let_def flip: i_def)
  have IH: "pointwise_le ps' (ps[i := p]) \<and> total ps' + unat a' = total (ps[i := p]) + unat a1 \<and>
    a1 \<le> a' \<and> (if a1 < permit then unat a' \<le> unat permit + (length js - 1)
               else unat a' \<le> unat a1 + length js) \<and>
    (a' < permit \<longrightarrow> (\<forall>j \<in> set js. ps' ! back_index P idx j = 0))"
    by (rule Cons.IH [OF rec]) (use Cons.prems(2,3) tot in simp_all)
  have le: "pointwise_le ps' ps"
    using IH pointwise_le_trans pointwise_le_update [OF D(2)] by blast
  have mono: "a \<le> a1" using D(1,2) by (simp add: word_le_nat_alt)
  have zero: "ps' ! i = 0" if "a' < permit"
  proof -
    have "a1 < permit" using IH that by (meson le_less_trans)
    then have "p = 0" using D(3) mono by (meson le_less_trans)
    then show ?thesis using IH i by (auto simp: pointwise_le_def)
  qed
  have bound: "if a < permit then unat a' \<le> unat permit + length js else unat a' \<le> unat a + Suc (length js)"
    using IH D(3,4) by (auto simp: word_less_nat_alt word_le_nat_alt not_less split: if_splits)
  have "a \<le> a'" using IH mono by (meson order_trans)
  then show ?case using IH le tot bound zero by (simp add: i_def split: if_splits)
qed (simp add: word_less_nat_alt)

lemma acquire_n_spec:
  assumes "0 < P" "length (rl_permits rl) = P" "total (rl_permits rl) < 2 ^ 32"
    and "acquire_n P permit ms rl = (rl', got)"
  shows "rl_partition rl' = rl_partition rl" "pointwise_le (rl_permits rl') (rl_permits rl)"
    and "total (rl_permits rl') + unat got = total (rl_permits rl)"
    and "unat got \<le> unat permit + (P div 2 - 1)"
    and "got < permit \<Longrightarrow> j \<le> P div 2 \<Longrightarrow> rl_permits rl' ! back_index P (slot P ms) j = 0"
proof -
  define idx where "idx = slot P ms"
  define ps where "ps = rl_permits rl"
  have idx: "idx < length ps" using assms(1,2) slot_less by (simp add: idx_def ps_def)
  have "rl_partition rl' = rl_partition rl \<and> pointwise_le (rl_permits rl') ps \<and>
    total (rl_permits rl') + unat got = total ps \<and> unat got \<le> unat permit + (P div 2 - 1) \<and>
    (got < permit \<longrightarrow> (\<forall>j \<le> P div 2. rl_permits rl' ! back_index P idx j = 0))"
  proof (cases "ps ! idx \<ge> permit")
    case True
    then have "rl' = rl\<lparr>rl_permits := ps[idx := ps ! idx - permit]\<rparr>" "got = permit"
      using assms(4) by (auto simp: acquire_n_def Let_def ps_def idx_def)
    moreover have "unat (ps ! idx - permit) = unat (ps ! idx) - unat permit"
      using True by (simp add: unat_sub)
    ultimately show ?thesis
      using True total_update [OF idx, of "ps ! idx - permit"]
      by (simp add: word_le_nat_alt pointwise_le_update)
  next
    case False
    obtain ps2 where r: "reuse permit P idx [1..<P div 2 + 1] (ps[idx := 0]) (ps ! idx) = (ps2, got)"
      and rl': "rl' = rl\<lparr>rl_permits := ps2\<rparr>"
      using assms(4) False list_update_id [of ps idx]
      by (cases "0 < ps ! idx")
        (auto simp: acquire_n_def Let_def word_gt_0 simp del: upt_Suc list_update_id
          simp flip: ps_def idx_def split: prod.splits)
    have t0: "total (ps[idx := 0]) + unat (ps ! idx) = total ps"
      using total_update [OF idx, of 0] by simp
    have "\<forall>j \<in> set [1..<P div 2 + 1]. back_index P idx j < length (ps[idx := 0])"
      using back_index_less [of idx P] idx assms(2) by (auto simp: ps_def simp del: upt_Suc)
    note R = reuse_spec [OF r this]
    have S: "pointwise_le ps2 (ps[idx := 0])"
      "total ps2 + unat got = total ps" "unat got \<le> unat permit + (P div 2 - 1)"
      "got < permit \<Longrightarrow> \<forall>j \<in> set [1..<P div 2 + 1]. ps2 ! back_index P idx j = 0"
      using R t0 assms(3) False by (simp_all add: not_le del: upt_Suc flip: ps_def)
    have "ps2 ! back_index P idx 0 = 0"
      using S(1) idx by (auto simp: pointwise_le_def back_index_def)
    then have "ps2 ! back_index P idx j = 0" if "got < permit" "j \<le> P div 2" for j
      using S(4) [OF that(1)] that(2) by (cases "j = 0") (auto simp del: upt_Suc)
    moreover have "pointwise_le ps2 ps"
      by (rule pointwise_le_trans [OF S(1) pointwise_le_update]) simp
    ultimately show ?thesis using S(2,3) rl' by simp
  qed
  then show "rl_partition rl' = rl_partition rl" "pointwise_le (rl_permits rl') (rl_permits rl)"
    and "total (rl_permits rl') + unat got = total (rl_permits rl)"
    and "unat got \<le> unat permit + (P div 2 - 1)"
    and "got < permit \<Longrightarrow> j \<le> P div 2 \<Longrightarrow> rl_permits rl' ! back_index P (slot P ms) j = 0"
    by (simp_all add: ps_def idx_def)
qed

section \<open>Histories of a limiter\<close>

text \<open>A history is any interleaving of the locked sections: a call of \<open>acquire(permit)\<close>, the
  attempt and the wake-up of \<open>acquire()\<close>, and a tick.\<close>

datatype rl_op = AcquireN u32 nat | Acquire nat | Wake nat nat | Tick nat

fun rl_step :: "nat \<Rightarrow> rl_op \<Rightarrow> rate_limiter \<Rightarrow> rate_limiter \<times> nat" where
  "rl_step P (AcquireN permit ms) rl = (case acquire_n P permit ms rl of (rl', got) \<Rightarrow> (rl', unat got))"
| "rl_step P (Acquire ms) rl = (case acquire P ms rl of None \<Rightarrow> (rl, 0) | Some rl' \<Rightarrow> (rl', 1))"
| "rl_step P (Wake ms ms') rl = (case acquire_wake P ms ms' rl of None \<Rightarrow> (rl, 0) | Some rl' \<Rightarrow> (rl', 1))"
| "rl_step P (Tick ms) rl = (tick P ms rl, 0)"

fun rl_run :: "nat \<Rightarrow> rl_op list \<Rightarrow> rate_limiter \<Rightarrow> rate_limiter \<times> nat" where
  "rl_run P [] rl = (rl, 0)"
| "rl_run P (op # ops) rl =
     (let (rl1, got) = rl_step P op rl; (rl2, got') = rl_run P ops rl1 in (rl2, got + got'))"

fun refill :: "nat \<Rightarrow> rate_limiter \<Rightarrow> rl_op \<Rightarrow> nat" where
  "refill P rl (Tick ms) = unat (rl_partition rl ! slot P ms)"
| "refill P rl _ = 0"

text \<open>The slot does not change between the waiter's predicate and its decrement.\<close>

fun steady :: "nat \<Rightarrow> rl_op \<Rightarrow> bool" where
  "steady P (Wake ms ms') = (slot P ms = slot P ms')"
| "steady P _ = True"

definition rl_ok :: "nat \<Rightarrow> rate_limiter \<Rightarrow> bool" where
  "rl_ok P rl \<longleftrightarrow> 0 < P \<and> length (rl_partition rl) = P \<and>
     pointwise_le (rl_permits rl) (rl_partition rl) \<and> total (rl_partition rl) < 2 ^ 32"

lemma first_nonempty_Some:
  "first_nonempty P idx js ps = Some i \<Longrightarrow> 0 < ps ! i \<and> (\<exists>j \<in> set js. i = back_index P idx j)"
  by (induction js) (auto split: if_splits)

lemma first_nonempty_None:
  "first_nonempty P idx js ps = None \<longleftrightarrow> (\<forall>j \<in> set js. ps ! back_index P idx j = 0)"
  by (induction js) (auto simp: word_gt_0)

lemma rl_ok_take:
  assumes "rl_ok P rl" "i < P" "0 < rl_permits rl ! i"
  shows "rl_ok P (rl\<lparr>rl_permits := (rl_permits rl)[i := rl_permits rl ! i - 1]\<rparr>)"
    and "total ((rl_permits rl)[i := rl_permits rl ! i - 1]) + 1 = total (rl_permits rl)"
proof -
  have u: "unat (rl_permits rl ! i - 1) + 1 = unat (rl_permits rl ! i)"
    using assms(3) by (simp add: unat_u32_dec word_less_nat_alt)
  have len: "i < length (rl_permits rl)" using assms by (simp add: rl_ok_def pointwise_le_def)
  show "total ((rl_permits rl)[i := rl_permits rl ! i - 1]) + 1 = total (rl_permits rl)"
    using total_update [OF len, of "rl_permits rl ! i - 1"] u by linarith
  have "rl_permits rl ! i - 1 \<le> rl_permits rl ! i" using u by (simp add: word_le_nat_alt)
  then show "rl_ok P (rl\<lparr>rl_permits := (rl_permits rl)[i := rl_permits rl ! i - 1]\<rparr>)"
    using assms(1) pointwise_le_trans [OF pointwise_le_update] by (simp add: rl_ok_def)
qed

lemma rl_ok_total: "rl_ok P rl \<Longrightarrow> total (rl_permits rl) < 2 ^ 32 \<and> length (rl_permits rl) = P"
  using pointwise_le_total by (fastforce simp: rl_ok_def pointwise_le_def)

lemma acquire_Some:
  assumes "0 < P" "acquire P ms rl = Some rl'"
  shows "\<exists>i < P. 0 < rl_permits rl ! i \<and> rl' = rl\<lparr>rl_permits := (rl_permits rl)[i := rl_permits rl ! i - 1]\<rparr>"
proof (cases "0 < rl_permits rl ! slot P ms")
  case True
  then show ?thesis using assms slot_less [OF assms(1)] by (auto simp: acquire_def Let_def)
next
  case False
  then obtain i where i: "first_nonempty P (slot P ms) [1..<P div 2 + 1] (rl_permits rl) = Some i"
      and rl': "rl' = rl\<lparr>rl_permits := (rl_permits rl)[i := rl_permits rl ! i - 1]\<rparr>"
    using assms(2) by (auto simp: acquire_def Let_def simp del: upt_Suc split: option.splits)
  have "i < P"
    using first_nonempty_Some [OF i] back_index_less [OF slot_less [OF assms(1), of ms]]
    by (auto simp del: upt_Suc)
  then show ?thesis using first_nonempty_Some [OF i] rl' by blast
qed

lemma rl_step_ok:
  assumes "rl_ok P rl" "steady P op" "rl_step P op rl = (rl', got)"
  shows "rl_ok P rl' \<and> rl_partition rl' = rl_partition rl \<and>
    got + total (rl_permits rl') \<le> total (rl_permits rl) + refill P rl op"
proof (cases op)
  case (AcquireN permit ms)
  then obtain g where "acquire_n P permit ms rl = (rl', g)" "got = unat g"
    using assms(3) by (auto split: prod.splits)
  then show ?thesis
    using acquire_n_spec [of P rl permit ms rl' g] assms(1) rl_ok_total [OF assms(1)] AcquireN
    by (auto simp: rl_ok_def intro: pointwise_le_trans)
next
  case (Acquire ms)
  have "0 < P" using assms(1) by (simp add: rl_ok_def)
  with Acquire show ?thesis
    using assms acquire_Some [of P ms rl] rl_ok_take [OF assms(1)] by (fastforce split: option.splits)
next
  case (Wake ms ms')
  then show ?thesis
    using assms rl_ok_take [OF assms(1), of "slot P ms"] slot_less [of P ms]
    by (auto simp: acquire_wake_def Let_def rl_ok_def split: if_splits)
next
  case (Tick ms)
  define i where "i = slot P ms"
  have "i < length (rl_permits rl)"
    using rl_ok_total [OF assms(1)] assms(1) slot_less by (simp add: i_def rl_ok_def)
  then show ?thesis
    using Tick assms total_update [of i "rl_permits rl" "rl_partition rl ! i"]
    by (auto simp: tick_def Let_def rl_ok_def pointwise_le_update_right simp flip: i_def)
qed

lemma rl_run_ok:
  "rl_ok P rl \<Longrightarrow> list_all (steady P) ops \<Longrightarrow> rl_run P ops rl = (rl', got) \<Longrightarrow>
     rl_ok P rl' \<and> rl_partition rl' = rl_partition rl \<and>
     got + total (rl_permits rl') \<le> total (rl_permits rl) + sum_list (map (refill P rl) ops)"
proof (induction ops arbitrary: rl got)
  case (Cons op ops)
  obtain rl1 g1 where s: "rl_step P op rl = (rl1, g1)" by fastforce
  obtain g2 where r: "rl_run P ops rl1 = (rl', g2)" and got: "got = g1 + g2"
    using Cons.prems(3) s by (auto simp: Let_def split: prod.splits)
  have 1: "rl_ok P rl1 \<and> rl_partition rl1 = rl_partition rl \<and>
      g1 + total (rl_permits rl1) \<le> total (rl_permits rl) + refill P rl op"
    using rl_step_ok [OF Cons.prems(1) _ s] Cons.prems(2) by simp
  moreover have "refill P rl1 = refill P rl"
    using 1 by (intro ext) (metis refill.simps rl_op.exhaust)
  ultimately show ?case using Cons.IH [OF _ _ r] Cons.prems(2) got by fastforce
qed simp

lemma RateLimiter_new_ok: "0 < P \<Longrightarrow> P \<le> 1000 \<Longrightarrow> rl_ok P (RateLimiter_new P permit)"
  using RateLimiter_new_partition [of P permit] unat_u32_less [of permit]
  by (auto simp: rl_ok_def pointwise_le_def Let_def) (simp_all add: RateLimiter_new_def Let_def)

lemma RateLimiter_new_empty: "total (rl_permits (RateLimiter_new P permit)) = 0"
  by (simp add: RateLimiter_new_def Let_def)

lemma tick_members_spec:
  "distinct ts \<Longrightarrow> tick_members lock do_tick ts heap = (ts', heap') \<Longrightarrow>
     ts' = filter lock ts \<and>
     (\<forall>t. heap' t = (if t \<in> set ts \<and> lock t then do_tick (heap t) else heap t))"
  by (induction ts arbitrary: heap ts' heap') (fastforce simp: Let_def split: prod.splits if_splits)+

section \<open>Properties\<close>



text \<open>\<open>acquire(permit)\<close> takes from the limiter exactly what it reports; it reports less than
  requested only when it leaves the current slot and the past half cycle empty; and what it
  reports exceeds the request by at most \<open>PARTITION / 2 - 1\<close>.\<close>

theorem acquire_n_exact:
  assumes "0 < P" "length (rl_permits rl) = P" "total (rl_permits rl) < 2 ^ 32"
    and "acquire_n P permit ms rl = (rl', got)"
  shows "total (rl_permits rl') + unat got = total (rl_permits rl) \<and>
    (got < permit \<longrightarrow> (\<forall>j \<le> P div 2. rl_permits rl' ! back_index P (slot P ms) j = 0)) \<and>
    unat got \<le> unat permit + (P div 2 - 1)"
  using acquire_n_spec [OF assms] by blast

theorem acquire_n_exact_witness:
  "snd (acquire_n 10 3 0 \<lparr>rl_partition = replicate 10 5, rl_permits = 0 # replicate 9 5\<rparr>) = 7 \<and>
   unat (7 :: u32) \<le> unat (3 :: u32) + (10 div 2 - 1)"
proof -
  have "acquire_n 10 3 0 \<lparr>rl_partition = replicate 10 5, rl_permits = 0 # replicate 9 5\<rparr> =
    (\<lparr>rl_partition = replicate 10 5, rl_permits = [0, 5, 5, 5, 5, 4, 4, 4, 4, 2]\<rparr>, 7)"
    by code_simp
  from acquire_n_exact [OF _ _ _ this] this show ?thesis by (simp add: total_def)
qed

text \<open>The bound of the previous property is reached: a limiter of ten slots asked for three
  permits hands out seven, because the \<open>break\<close> leaves only the inner loop and every further
  non-empty slot gives one more.  And when the slot changes between the wake-up test of
  \<open>acquire()\<close> and its decrement, an empty slot's counter wraps around to $2^{32} - 1$.\<close>

theorem limiter_overdraws:
  "(\<exists>rl. rl_ok 10 rl \<and> snd (acquire_n 10 3 0 rl) = 7) \<and>
   (\<exists>rl rl'. rl_ok 10 rl \<and> acquire_wake 10 99 100 rl = Some rl' \<and> rl_permits rl' ! 1 = 2 ^ 32 - 1)"
proof
  have "rl_ok 10 \<lparr>rl_partition = replicate 10 5, rl_permits = 0 # replicate 9 5\<rparr> \<and>
    snd (acquire_n 10 3 0 \<lparr>rl_partition = replicate 10 5, rl_permits = 0 # replicate 9 5\<rparr>) = 7"
    by code_simp
  then show "\<exists>rl. rl_ok 10 rl \<and> snd (acquire_n 10 3 0 rl) = 7" by blast
  have "rl_ok 10 \<lparr>rl_partition = replicate 10 5, rl_permits = 1 # replicate 9 0\<rparr> \<and>
    acquire_wake 10 99 100 \<lparr>rl_partition = replicate 10 5, rl_permits = 1 # replicate 9 0\<rparr> =
      Some \<lparr>rl_partition = replicate 10 5, rl_permits = 1 # (- 1) # replicate 8 0\<rparr>"
    by code_simp
  moreover have "(- 1 :: u32) = 2 ^ 32 - 1" by simp
  ultimately show "\<exists>rl rl'. rl_ok 10 rl \<and> acquire_wake 10 99 100 rl = Some rl' \<and>
      rl_permits rl' ! 1 = 2 ^ 32 - 1"
    by fastforce
qed

end
