(* ===== verification/Histogram.thy ===== *)
theory Histogram
  imports Prelude
begin

text \<open>
  The latency histogram (base/include/Histogram.h): one 32-bit counter per grade, read and reset by
  the statistics task.  \<open>None\<close> is an access outside the vector or a failed \<open>assert\<close>.
\<close>

record histogram =
  h_title :: string
  h_data :: "u32 list"
  h_capacity :: int
  h_labels :: "string list"

definition Histogram_new :: "string \<Rightarrow> int \<Rightarrow> histogram" where
  "Histogram_new title capacity =
     \<lparr>h_title = title, h_data = replicate (nat capacity) 0, h_capacity = capacity, h_labels = []\<rparr>"

definition bump :: "int \<Rightarrow> histogram \<Rightarrow> histogram option" where
  "bump i h =
     (if 0 \<le> i \<and> nat i < length (h_data h)
      then Some (h\<lparr>h_data := (h_data h)[nat i := h_data h ! nat i + 1]\<rparr>)
      else None)"

definition countIn :: "int \<Rightarrow> histogram \<Rightarrow> histogram option" where
  "countIn grade h =
     (if grade < 0 then Some h
      else if grade \<ge> h_capacity h then bump (h_capacity h - 1) h
      else bump grade h)"

fun report_cells :: "string list \<Rightarrow> u32 list \<Rightarrow> string" where
  "report_cells (l # l' # ls) (v # vs) = l @ to_string (sint v) @ '', '' @ report_cells (l' # ls) vs"
| "report_cells [l] (v # vs) = l @ to_string (sint v)"
| "report_cells _ _ = ''''"

definition reportAndReset :: "histogram \<Rightarrow> (histogram \<times> string) option" where
  "reportAndReset h =
     (if int (length (h_labels h)) = h_capacity h
      then let values = h_data h
           in Some (h\<lparr>h_data := map (\<lambda>v. v - v) values\<rparr>,
                    h_title h @ '':'' @ report_cells (h_labels h) values)
      else None)"

section \<open>What the counters mean\<close>

fun count_all :: "int list \<Rightarrow> histogram \<Rightarrow> histogram option" where
  "count_all [] h = Some h"
| "count_all (g # gs) h = Option.bind (countIn g h) (count_all gs)"

text \<open>The bucket a grade falls into: none for a negative one, the last for one out of range.\<close>

definition bucket :: "int \<Rightarrow> int \<Rightarrow> nat option" where
  "bucket capacity g = (if g < 0 then None else Some (nat (min g (capacity - 1))))"

definition histogram_ok :: "histogram \<Rightarrow> bool" where
  "histogram_ok h \<longleftrightarrow> 0 < h_capacity h \<and> length (h_data h) = nat (h_capacity h)"

lemma Histogram_new_ok: "0 < capacity \<Longrightarrow> histogram_ok (Histogram_new title capacity)"
  by (simp add: histogram_ok_def Histogram_new_def)

lemma countIn_ok:
  assumes "histogram_ok h"
  shows "\<exists>h'. countIn g h = Some h' \<and> histogram_ok h' \<and> h_capacity h' = h_capacity h \<and>
    h_labels h' = h_labels h \<and> (\<forall>i < length (h_data h).
      h_data h' ! i = h_data h ! i + (if bucket (h_capacity h) g = Some i then 1 else 0))"
  using assms
  by (auto simp: countIn_def bump_def histogram_ok_def bucket_def nth_list_update min_def)

lemma count_all_ok:
  assumes "histogram_ok h"
  shows "\<exists>h'. count_all gs h = Some h' \<and> histogram_ok h' \<and> h_capacity h' = h_capacity h \<and>
    h_labels h' = h_labels h \<and> (\<forall>i < length (h_data h).
      h_data h' ! i = h_data h ! i +
        of_nat (length (filter (\<lambda>g. bucket (h_capacity h) g = Some i) gs)))"
  using assms
proof (induction gs arbitrary: h)
  case (Cons g gs)
  then obtain h1 where h1: "countIn g h = Some h1" "histogram_ok h1" "h_capacity h1 = h_capacity h"
      "h_labels h1 = h_labels h"
      "\<forall>i < length (h_data h). h_data h1 ! i = h_data h ! i +
         (if bucket (h_capacity h) g = Some i then 1 else 0)"
    using countIn_ok [of h g] by blast
  moreover from h1 Cons.prems have "length (h_data h1) = length (h_data h)"
    by (simp add: histogram_ok_def)
  ultimately show ?case using Cons.IH [of h1] by (auto simp: algebra_simps)
qed simp

text \<open>Counting any sequence of grades into a fresh histogram never leaves the vector, and
  each counter then holds, modulo $2^{32}$, the number of grades that belong to it: negative
  grades are dropped and grades beyond the last bucket are counted there.\<close>

theorem histogram_counts:
  assumes "0 < capacity"
  shows "\<exists>h. count_all gs (Histogram_new title capacity) = Some h \<and>
    (\<forall>i < nat capacity. h_data h ! i =
       of_nat (length (filter (\<lambda>g. bucket capacity g = Some i) gs)))"
  using count_all_ok [OF Histogram_new_ok [OF assms], of gs title]
  by (auto simp: Histogram_new_def)

theorem histogram_counts_witness:
  "\<exists>h. count_all [- 1, 0, 7, 2, 2] (Histogram_new ''t'' 3) = Some h \<and> h_data h ! 2 = 3"
  using histogram_counts [of 3 "[- 1, 0, 7, 2, 2]" "''t''"] by (auto simp: bucket_def)

end
