(* ===== verification/UtilAll.thy ===== *)
theory UtilAll
  imports MixAll
begin

text \<open>
  \<open>UtilAll\<close> (base/UtilAll.cpp): the cached MAC address and the zlib wrappers, and the generator of
  message identifiers (base/UniqueIdGenerator.cpp).  zlib's \<open>deflate\<close> and \<open>inflate\<close>, the list of
  network interfaces, the process id and the clock readings are parameters.
\<close>

section \<open>MAC address\<close>

text \<open>An interface of \<open>getifaddrs\<close>: whether it is of the link-layer family, and its first six
  address bytes.  The function's static variables \<open>cache\<close> and \<open>mac_cached\<close> are an option.\<close>

type_synonym interface = "bool \<times> bytes"

fun first_mac :: "interface list \<Rightarrow> bytes option" where
  "first_mac [] = None"
| "first_mac ((link, ptr) # rest) =
     (if link \<and> \<not> list_all (\<lambda>b. b = 0) (take 6 ptr) then Some (take 6 ptr) else first_mac rest)"

definition macAddress ::
  "interface list option \<Rightarrow> bytes option \<Rightarrow> bytes \<Rightarrow> bool \<times> bytes \<times> bytes option" where
  "macAddress ifaddrs cache mac =
     (case cache of
        Some c \<Rightarrow> (True, c, cache)
      | None \<Rightarrow>
          (case ifaddrs of
             None \<Rightarrow> (False, mac, None)
           | Some nodes \<Rightarrow>
               (case first_mac nodes of
                  None \<Rightarrow> (True, mac, None)
                | Some c \<Rightarrow> (True, c, Some c))))"

section \<open>Compression\<close>

datatype zstatus = Z_OK | Z_STREAM_END | Z_STREAM_ERROR | Z_DATA_ERROR | Z_BUF_ERROR
  | Z_MEM_ERROR | Z_NEED_DICT

text \<open>One call of \<open>deflate\<close> with \<open>Z_FINISH\<close> on the whole input: its status and what it wrote.\<close>

definition compress :: "(string \<Rightarrow> zstatus \<times> string) \<Rightarrow> string \<Rightarrow> string \<Rightarrow> bool \<times> string" where
  "compress deflate src dst =
     (case deflate src of
        (status, out) \<Rightarrow> if status \<noteq> Z_STREAM_END then (False, dst) else (True, dst @ out))"

text \<open>One call of \<open>inflate\<close> on an emptied buffer: its status, the bytes it put into the buffer and
  the stream after it.  The \<open>while (true)\<close> loop may run forever for a stream that never ends.\<close>

partial_function (option) uncompress_loop ::
  "('z \<Rightarrow> zstatus \<times> string \<times> 'z) \<Rightarrow> 'z \<Rightarrow> string \<Rightarrow> (bool \<times> string) option" where
  "uncompress_loop inflate z dst =
     (case inflate z of
        (status, out, z') \<Rightarrow>
          if status = Z_STREAM_ERROR then Some (False, dst)
          else if status = Z_STREAM_END then Some (True, dst @ out)
          else if status = Z_OK then uncompress_loop inflate z' (dst @ out)
          else Some (False, dst @ out))"

declare uncompress_loop.simps [code]

definition uncompress ::
  "(string \<Rightarrow> 'z) \<Rightarrow> ('z \<Rightarrow> zstatus \<times> string \<times> 'z) \<Rightarrow> string \<Rightarrow> string \<Rightarrow> (bool \<times> string) option"
where
  "uncompress inflateInit inflate src dst = uncompress_loop inflate (inflateInit src) dst"

text \<open>What a run of \<open>inflate\<close> calls produces: the calls that return \<open>Z_OK\<close>, then the one that
  does not.\<close>

inductive inflates :: "('z \<Rightarrow> zstatus \<times> string \<times> 'z) \<Rightarrow> 'z \<Rightarrow> string \<Rightarrow> zstatus \<Rightarrow> bool"
  for inflate where
  last: "inflate z = (status, out, z') \<Longrightarrow> status \<noteq> Z_OK \<Longrightarrow>
     inflates inflate z (if status = Z_STREAM_ERROR then '''' else out) status"
| more: "inflate z = (Z_OK, out, z') \<Longrightarrow> inflates inflate z' rest status \<Longrightarrow>
     inflates inflate z (out @ rest) status"

lemma uncompress_inflates:
  "inflates inflate z out status \<Longrightarrow>
     uncompress_loop inflate z dst = Some (status = Z_STREAM_END, dst @ out)"
proof (induction arbitrary: dst rule: inflates.induct)
  case (last z status out z')
  then show ?case by (subst uncompress_loop.simps) (cases status, auto)
next
  case (more z out z' rest status)
  then show ?case by (subst uncompress_loop.simps) simp
qed

lemma inflates_ends:
  assumes "\<And>z out z'. inflate z = (Z_OK, out, z') \<Longrightarrow> (m z' :: nat) < m z"
  shows "\<exists>out status. inflates inflate z out status"
proof (induction "m z" arbitrary: z rule: less_induct)
  case less
  obtain status out z' where i: "inflate z = (status, out, z')" by (metis prod_cases3)
  show ?case
  proof (cases "status = Z_OK")
    case True
    with i less assms show ?thesis by (meson inflates.more)
  next
    case False
    with i show ?thesis by (meson inflates.last)
  qed
qed

section \<open>Message identifiers\<close>

record id_generator =
  id_prefix :: bytes
  id_seconds :: u32
  id_sequence :: u32

abbreviation VERSION :: u8 where "VERSION \<equiv> 1"

text \<open>\<open>memcpy\<close> over the front of a block.\<close>

definition memcpy_front :: "bytes \<Rightarrow> bytes \<Rightarrow> bytes" where
  "memcpy_front dst src = src @ drop (length src) dst"

definition UniqueIdGenerator_new :: "bool \<Rightarrow> bytes \<Rightarrow> u32 \<Rightarrow> u32 \<Rightarrow> id_generator" where
  "UniqueIdGenerator_new mac_ok mac pid delta =
     (let prefix0 = replicate 8 0;
          prefix1 = (if mac_ok then memcpy_front prefix0 mac else prefix0);
          prefix2 = take 6 prefix1 @ drop 2 (network_bytes pid)
      in \<lparr>id_prefix = prefix2, id_seconds = delta, id_sequence = 0\<rparr>)"

text \<open>The slot is copied as it lies in memory, so its bytes follow the host's byte order.\<close>

definition host_bytes :: "bool \<Rightarrow> u32 \<Rightarrow> bytes" where
  "host_bytes big_endian w = (if big_endian then network_bytes w else rev (network_bytes w))"

definition next_slot :: "u32 \<Rightarrow> id_generator \<Rightarrow> id_generator" where
  "next_slot delta g =
     (if id_seconds g \<noteq> delta then g\<lparr>id_seconds := delta, id_sequence := 0\<rparr>
      else g\<lparr>id_sequence := id_sequence g + 1\<rparr>)"

definition id_string :: "bool \<Rightarrow> id_generator \<Rightarrow> string" where
  "id_string big_endian g =
     hex (VERSION # id_prefix g @ host_bytes big_endian (id_seconds g) @ host_bytes big_endian (id_sequence g))"

definition UniqueId_next :: "bool \<Rightarrow> u32 \<Rightarrow> id_generator \<Rightarrow> id_generator \<times> string" where
  "UniqueId_next big_endian delta g =
     (let g' = next_slot delta g in (g', id_string big_endian g'))"

fun next_ids :: "bool \<Rightarrow> u32 list \<Rightarrow> id_generator \<Rightarrow> string list" where
  "next_ids big_endian [] g = []"
| "next_ids big_endian (d # ds) g =
     (let (g', s) = UniqueId_next big_endian d g in s # next_ids big_endian ds g')"

lemma network_bytes_inj: "network_bytes a = network_bytes b \<Longrightarrow> a = b"
proof (rule bit_word_eqI)
  fix n
  assume eq: "network_bytes a = network_bytes b" and n: "n < LENGTH(32)"
  have byte: "bit a (k + i) \<longleftrightarrow> bit b (k + i)"
    if "(ucast (drop_bit k a) :: u8) = ucast (drop_bit k b)" "i < 8" for k i
  proof -
    have "bit (ucast (drop_bit k a) :: u8) i = bit (ucast (drop_bit k b) :: u8) i" using that by simp
    then show ?thesis using that(2) by (simp add: bit_simps)
  qed
  have "(ucast (drop_bit (8 * (n div 8)) a) :: u8) = ucast (drop_bit (8 * (n div 8)) b)"
  proof -
    have "n div 8 < 4" using n by simp
    then have "n div 8 = 0 \<or> n div 8 = 1 \<or> n div 8 = 2 \<or> n div 8 = 3" by linarith
    then show ?thesis using eq by (auto simp: network_bytes_def)
  qed
  from byte [OF this, of "n mod 8"] show "bit a n \<longleftrightarrow> bit b n" by simp
qed

lemma length_network_bytes [simp]: "length (network_bytes w) = 4"
  by (simp add: network_bytes_def)

lemma host_bytes_inj: "host_bytes e a = host_bytes e b \<longleftrightarrow> a = b"
  using network_bytes_inj by (auto simp: host_bytes_def)

lemma length_host_bytes [simp]: "length (host_bytes e w) = 4"
  by (simp add: host_bytes_def)

lemma id_string_inj:
  assumes "id_string e g = id_string e g'" "id_prefix g = id_prefix g'"
  shows "id_seconds g = id_seconds g' \<and> id_sequence g = id_sequence g'"
proof -
  have "host_bytes e (id_seconds g) @ host_bytes e (id_sequence g) =
      host_bytes e (id_seconds g') @ host_bytes e (id_sequence g')"
    using hex_inj assms by (fastforce simp: id_string_def)
  then show ?thesis by (simp add: host_bytes_inj)
qed

text \<open>The generator's state after each call, and the \<open>i\<close>-th slot in closed form when the clock
  does not go back.\<close>

fun generators :: "u32 list \<Rightarrow> id_generator \<Rightarrow> id_generator list" where
  "generators [] g = []"
| "generators (d # ds) g = next_slot d g # generators ds (next_slot d g)"

lemma next_ids_generators: "next_ids e ds g = map (id_string e) (generators ds g)"
  by (induction ds arbitrary: g) (simp_all add: UniqueId_next_def Let_def)

lemma length_generators [simp]: "length (generators ds g) = length ds"
  by (induction ds arbitrary: g) simp_all

lemma generators_nth:
  assumes "sorted (id_seconds g # ds)" "i < length ds"
  shows "id_prefix (generators ds g ! i) = id_prefix g \<and>
    id_seconds (generators ds g ! i) = ds ! i \<and>
    id_sequence (generators ds g ! i) = of_nat (count_list (take i ds) (ds ! i)) +
      (if ds ! i = id_seconds g then id_sequence g + 1 else 0)"
  using assms
proof (induction ds arbitrary: g i)
  case (Cons d ds)
  show ?case
  proof (cases i)
    case (Suc j)
    with Cons.prems have j: "j < length ds" and le: "id_seconds g \<le> d" "d \<le> ds ! j" by auto
    have "sorted (id_seconds (next_slot d g) # ds)" using Cons.prems by (simp add: next_slot_def)
    from Cons.IH [OF this j] Suc le show ?thesis by (auto simp: next_slot_def)
  qed (auto simp: next_slot_def)
qed simp

lemma count_take_less: "i < j \<Longrightarrow> j < length ds \<Longrightarrow> ds ! i = ds ! j \<Longrightarrow>
  count_list (take i ds) (ds ! i) < count_list (take j ds) (ds ! i) \<and>
  count_list (take j ds) (ds ! i) < count_list ds (ds ! i)"
proof -
  assume ij: "i < j" "j < length ds" "ds ! i = ds ! j"
  have mono: "count_list (take k ds) x < count_list (take m ds) x"
    if "k < m" "m \<le> length ds" "ds ! k = x" for k m x
  proof -
    have "take m ds = take k ds @ ds ! k # drop (Suc k) (take m ds)"
      using that id_take_nth_drop [of k "take m ds"] by (simp add: min_def)
    then show ?thesis using that(3) by (metis count_list.simps(2) count_list_append less_add_same_cancel1 zero_less_Suc add_gr_0 Suc_eq_plus1)
  qed
  from mono [of i j] mono [of j "length ds"] ij show ?thesis by simp
qed

lemma generators_distinct:
  assumes "sorted (id_seconds g # ds)" "\<And>d. count_list ds d \<le> 2 ^ 32"
    and "i < j" "j < length ds"
  shows "id_string e (generators ds g ! i) \<noteq> id_string e (generators ds g ! j)"
proof
  assume eq: "id_string e (generators ds g ! i) = id_string e (generators ds g ! j)"
  have i: "i < length ds" using assms by simp
  note Gi = generators_nth [OF assms(1) i] and Gj = generators_nth [OF assms(1,4)]
  have I: "id_seconds (generators ds g ! i) = id_seconds (generators ds g ! j) \<and>
      id_sequence (generators ds g ! i) = id_sequence (generators ds g ! j)"
    by (rule id_string_inj [OF eq]) (use Gi Gj in simp)
  then have d: "ds ! i = ds ! j" using Gi Gj by argo
  have "(of_nat (count_list (take i ds) (ds ! i)) :: u32) = of_nat (count_list (take j ds) (ds ! i))"
    using I Gi Gj unfolding d by (metis add_right_cancel)
  moreover note count_take_less [OF assms(3,4) d]
  ultimately show False
    using assms(2) [of "ds ! i"]
    by (metis (no_types, lifting) less_le_trans less_not_refl less_trans unat_u32_of_nat)
qed

section \<open>Properties\<close>

text \<open>C14: Message identifiers are unique: as long as the clock does not go back and no second sees
  more than $2^{32}$ calls, all identifiers one generator hands out are different.\<close>

theorem unique_ids:
  assumes "sorted (id_seconds g # ds)" "\<And>d. count_list ds d \<le> 2 ^ 32"
  shows "distinct (next_ids big_endian ds g)"
  unfolding next_ids_generators distinct_conv_nth
  using generators_distinct [OF assms]
  by (auto simp: neq_iff)

theorem unique_ids_witness:
  "distinct (next_ids False [5, 5, 6, 9, 9] (UniqueIdGenerator_new True [1, 2, 3, 4, 5, 6] 4711 5))"
proof (rule unique_ids)
  show "sorted (id_seconds (UniqueIdGenerator_new True [1, 2, 3, 4, 5, 6] 4711 5) # [5, 5, 6, 9, 9])"
    by (simp add: UniqueIdGenerator_new_def Let_def)
  show "count_list [5, 5, 6, 9, 9] d \<le> 2 ^ 32" for d :: u32
    by simp
qed

text \<open>C25: \<open>uncompress\<close> ends on every stream on which \<open>inflate\<close> makes progress when it returns
  \<open>Z_OK\<close>; it appends to \<open>dst\<close> exactly what the calls of \<open>inflate\<close> produced, and returns true
  if and only if the last of them reached the end of the stream.\<close>

theorem uncompress_total:
  assumes "\<And>z out z'. inflate z = (Z_OK, out, z') \<Longrightarrow> (m z' :: nat) < m z"
  shows "\<exists>out status. inflates inflate (inflateInit src) out status \<and>
    uncompress inflateInit inflate src dst = Some (status = Z_STREAM_END, dst @ out)"
proof -
  from inflates_ends [of inflate m] assms obtain out status
    where "inflates inflate (inflateInit src) out status" by blast
  with uncompress_inflates [OF this, of dst] show ?thesis unfolding uncompress_def by auto
qed

text \<open>A stored (uncompressed) stream read three bytes at a time.\<close>

definition stored_inflate :: "string \<Rightarrow> zstatus \<times> string \<times> string" where
  "stored_inflate z = (if length z \<le> 3 then (Z_STREAM_END, z, []) else (Z_OK, take 3 z, drop 3 z))"

theorem uncompress_total_witness:
  "\<exists>out status. inflates stored_inflate ''abcdefgh'' out status \<and>
    uncompress id stored_inflate ''abcdefgh'' ''x'' = Some (status = Z_STREAM_END, ''x'' @ out)"
proof -
  have "stored_inflate z = (Z_OK, out, z') \<Longrightarrow> length z' < length z" for z out z'
    by (auto simp: stored_inflate_def split: if_splits)
  from uncompress_total [of stored_inflate length id "''abcdefgh''" "''x''", OF this]
  show ?thesis by simp
qed

end
