(* ===== verification/RouteData.thy ===== *)
theory RouteData
  imports MixAll
begin

text \<open>
  Route data: message queues (api/rocketmq/MQMessageQueue.h), service addresses, topics, brokers,
  partitions and the immutable \<open>TopicRouteData\<close> (client/include).  A \<open>Broker\<close> is built only while a
  route response is read, always with a service address, so the shared pointer to it is the
  address itself.  \<open>std::sort\<close> with an \<open>operator<\<close> is \<open>sort_by\<close>; each \<open>operator<\<close> is shown to be a strict
  weak order, which \<open>std::sort\<close> requires.
\<close>

section \<open>Message queues\<close>

record MQMessageQueue =
  mq_topic :: string
  mq_broker_name :: string
  mq_queue_id :: int
  mq_service_address :: string

definition MQMessageQueue_new :: "string \<Rightarrow> string \<Rightarrow> int \<Rightarrow> MQMessageQueue" where
  "MQMessageQueue_new topic broker_name queue_id =
     \<lparr>mq_topic = topic, mq_broker_name = broker_name, mq_queue_id = queue_id, mq_service_address = ''''\<rparr>"

text \<open>The default constructor.\<close>

definition empty_mq :: MQMessageQueue where "empty_mq = MQMessageQueue_new '''' '''' 0"

definition mq_eq :: "MQMessageQueue \<Rightarrow> MQMessageQueue \<Rightarrow> bool" where
  "mq_eq a b \<longleftrightarrow> mq_topic a = mq_topic b \<and> mq_broker_name a = mq_broker_name b \<and>
     mq_queue_id a = mq_queue_id b"

definition mq_less :: "MQMessageQueue \<Rightarrow> MQMessageQueue \<Rightarrow> bool" where
  "mq_less a b =
     (if mq_topic a \<noteq> mq_topic b then mq_topic a < mq_topic b
      else if mq_broker_name a \<noteq> mq_broker_name b then mq_broker_name a < mq_broker_name b
      else mq_queue_id a < mq_queue_id b)"

definition mq_bool :: "MQMessageQueue \<Rightarrow> bool" where
  "mq_bool mq \<longleftrightarrow> mq_topic mq \<noteq> '''' \<and> mq_broker_name mq \<noteq> '''' \<and> mq_queue_id mq \<ge> 0"

definition compareTo :: "MQMessageQueue \<Rightarrow> MQMessageQueue \<Rightarrow> int" where
  "compareTo a b = (if mq_less a b then - 1 else if mq_less b a then 1 else 0)"

definition simpleName :: "MQMessageQueue \<Rightarrow> string" where
  "simpleName mq = mq_topic mq @ ''_'' @ mq_broker_name mq @ ''_'' @ to_string (mq_queue_id mq)"

definition mq_toString :: "MQMessageQueue \<Rightarrow> string" where
  "mq_toString mq = ''MessageQueue [topic='' @ mq_topic mq @ '', brokerName='' @ mq_broker_name mq @
     '', queueId='' @ to_string (mq_queue_id mq) @ '']''"

text \<open>What \<open>operator==\<close> and the hash look at: the key of the tables indexed by message queue.\<close>

type_synonym mq_id = "string \<times> string \<times> int"

definition mq_key :: "MQMessageQueue \<Rightarrow> mq_id" where
  "mq_key mq = (mq_topic mq, mq_broker_name mq, mq_queue_id mq)"

section \<open>Service addresses\<close>

datatype AddressScheme = IPv4 | IPv6 | DOMAIN_NAME

record Address =
  a_host :: string
  a_port :: int

definition addr_less :: "Address \<Rightarrow> Address \<Rightarrow> bool" where
  "addr_less a b =
     (if a_host a < a_host b then True
      else if a_host a > a_host b then False
      else if a_port a < a_port b then True
      else if a_port a > a_port b then False
      else False)"

record ServiceAddress =
  sa_scheme :: AddressScheme
  sa_addresses :: "Address list"

definition ServiceAddress_new :: "AddressScheme \<Rightarrow> Address list \<Rightarrow> ServiceAddress" where
  "ServiceAddress_new scheme addresses =
     \<lparr>sa_scheme = scheme, sa_addresses = sort_by addr_less addresses\<rparr>"

definition sa_bool :: "ServiceAddress \<Rightarrow> bool" where
  "sa_bool sa \<longleftrightarrow> sa_addresses sa \<noteq> []"

fun scheme_prefix :: "AddressScheme \<Rightarrow> string" where
  "scheme_prefix IPv4 = ''ipv4:''"
| "scheme_prefix IPv6 = ''ipv6:''"
| "scheme_prefix DOMAIN_NAME = ''dns:''"

definition host_port :: "Address \<Rightarrow> string" where
  "host_port a = a_host a @ '':'' @ to_string (a_port a)"

text \<open>The loop of \<open>address()\<close> puts a comma before every item but the first.\<close>

fun append_items :: "bool \<Rightarrow> Address list \<Rightarrow> string \<Rightarrow> string" where
  "append_items first [] result = result"
| "append_items first (item # items) result =
     append_items False items ((if \<not> first then result @ '','' else result) @ host_port item)"

definition sa_address :: "ServiceAddress \<Rightarrow> string" where
  "sa_address sa = append_items True (sa_addresses sa) (scheme_prefix (sa_scheme sa))"

section \<open>Topics, brokers, partitions\<close>

record Topic =
  t_resource_namespace :: string
  t_name :: string

definition topic_less :: "Topic \<Rightarrow> Topic \<Rightarrow> bool" where
  "topic_less a b =
     (if t_resource_namespace a < t_resource_namespace b then True
      else if t_resource_namespace a > t_resource_namespace b then False
      else if t_name a < t_name b then True
      else if t_name a > t_name b then False
      else False)"

record Broker =
  b_name :: string
  b_id :: int
  b_service_address :: ServiceAddress

definition broker_eq :: "Broker \<Rightarrow> Broker \<Rightarrow> bool" where
  "broker_eq a b \<longleftrightarrow> b_name a = b_name b"

definition broker_less :: "Broker \<Rightarrow> Broker \<Rightarrow> bool" where
  "broker_less a b \<longleftrightarrow> b_name a < b_name b"

definition broker_serviceAddress :: "Broker \<Rightarrow> string" where
  "broker_serviceAddress b = sa_address (b_service_address b)"

datatype Permission = NONE | READ | WRITE | READ_WRITE

record Partition =
  p_topic :: Topic
  p_broker :: Broker
  p_id :: int
  p_permission :: Permission

definition asMessageQueue :: "Partition \<Rightarrow> MQMessageQueue" where
  "asMessageQueue p =
     (MQMessageQueue_new (t_name (p_topic p)) (b_name (p_broker p)) (p_id p))
       \<lparr>mq_service_address := broker_serviceAddress (p_broker p)\<rparr>"

definition partition_eq :: "Partition \<Rightarrow> Partition \<Rightarrow> bool" where
  "partition_eq a b \<longleftrightarrow> p_topic a = p_topic b \<and> p_id a = p_id b \<and>
     broker_eq (p_broker a) (p_broker b) \<and> p_permission a = p_permission b"

definition partition_less :: "Partition \<Rightarrow> Partition \<Rightarrow> bool" where
  "partition_less a b =
     (if topic_less (p_topic a) (p_topic b) then True
      else if topic_less (p_topic b) (p_topic a) then False
      else if broker_less (p_broker a) (p_broker b) then True
      else if broker_less (p_broker b) (p_broker a) then False
      else p_id a < p_id b)"

record TopicRouteData =
  rd_partitions :: "Partition list"
  rd_debug_string :: string

definition TopicRouteData_new :: "Partition list \<Rightarrow> string \<Rightarrow> TopicRouteData" where
  "TopicRouteData_new partitions debug =
     \<lparr>rd_partitions = sort_by partition_less partitions, rd_debug_string = debug\<rparr>"

definition route_eq :: "TopicRouteData \<Rightarrow> TopicRouteData \<Rightarrow> bool" where
  "route_eq a b \<longleftrightarrow> list_all2 partition_eq (rd_partitions a) (rd_partitions b)"

section \<open>The orders are strict weak orders\<close>

lemma mq_less_key: "mq_less a b \<longleftrightarrow>
    (mq_topic a < mq_topic b \<or> mq_topic a = mq_topic b \<and> (mq_broker_name a < mq_broker_name b \<or>
     mq_broker_name a = mq_broker_name b \<and> mq_queue_id a < mq_queue_id b))"
  by (auto simp: mq_less_def)

lemma addr_less_key: "addr_less a b \<longleftrightarrow> a_host a < a_host b \<or> a_host a = a_host b \<and> a_port a < a_port b"
  by (auto simp: addr_less_def)

lemma topic_less_key: "topic_less a b \<longleftrightarrow> t_resource_namespace a < t_resource_namespace b \<or>
    t_resource_namespace a = t_resource_namespace b \<and> t_name a < t_name b"
  by (auto simp: topic_less_def)

lemma topic_eq_iff: "(a :: Topic) = b \<longleftrightarrow>
    t_resource_namespace a = t_resource_namespace b \<and> t_name a = t_name b"
  by auto

lemma partition_less_key: "partition_less a b \<longleftrightarrow> topic_less (p_topic a) (p_topic b) \<or>
    p_topic a = p_topic b \<and> (b_name (p_broker a) < b_name (p_broker b) \<or>
     b_name (p_broker a) = b_name (p_broker b) \<and> p_id a < p_id b)"
  by (auto simp: partition_less_def broker_less_def topic_less_key)

interpretation mq_order: strict_weak_order mq_less
  by unfold_locales (auto simp: mq_less_key)

interpretation addr_order: strict_weak_order addr_less
  by unfold_locales (auto simp: addr_less_key)

interpretation topic_order: strict_weak_order topic_less
  by unfold_locales (auto simp: topic_less_key)

interpretation partition_order: strict_weak_order partition_less
  by unfold_locales (auto simp: partition_less_key topic_less_key topic_eq_iff)

lemma mq_eq_key: "mq_eq a b \<longleftrightarrow> mq_key a = mq_key b"
  by (auto simp: mq_eq_def mq_key_def)

lemma compareTo_eq: "compareTo a b = 0 \<longleftrightarrow> mq_eq a b"
  by (auto simp: compareTo_def mq_less_key mq_eq_def)

section \<open>Printing addresses\<close>

lemma append_items_join:
  "append_items False items result = result @ concat (map (\<lambda>a. '','' @ host_port a) items)"
  by (induction items arbitrary: result) simp_all

lemma join_comma: "join '','' (x # xs) = x @ concat (map (\<lambda>a. '','' @ a) xs)"
  by (induction xs arbitrary: x) simp_all

lemma sa_address_join:
  "sa_address sa = scheme_prefix (sa_scheme sa) @ join '','' (map host_port (sa_addresses sa))"
proof (cases "sa_addresses sa")
  case (Cons item items)
  then show ?thesis
    by (simp add: sa_address_def append_items_join join_comma comp_def del: join.simps)
qed (simp add: sa_address_def)

lemma asMessageQueue_simps [simp]:
  "mq_topic (asMessageQueue p) = t_name (p_topic p)"
  "mq_broker_name (asMessageQueue p) = b_name (p_broker p)"
  "mq_queue_id (asMessageQueue p) = p_id p"
  "mq_service_address (asMessageQueue p) = broker_serviceAddress (p_broker p)"
  by (simp_all add: asMessageQueue_def MQMessageQueue_new_def)

lemma sa_address_not_Nil [simp]: "sa_address sa \<noteq> ''''"
  by (cases "sa_scheme sa") (simp_all add: sa_address_join)

text \<open>Two routes compare equal when they differ only in the addresses of their brokers, since a
  broker is compared by its name.\<close>

lemma route_eq_ignores_addresses:
  "route_eq r (r\<lparr>rd_partitions := map (\<lambda>p. p\<lparr>p_broker := (p_broker p)\<lparr>b_service_address := sa\<rparr>\<rparr>)
     (rd_partitions r)\<rparr>)"
  by (simp add: route_eq_def list_all2_conv_all_nth partition_eq_def broker_eq_def)

end
