(* ===== verification/Message.thy ===== *)
theory Message
  imports RouteData
begin

text \<open>
  Messages (base/include/Protocol.h, base/include/MessageImpl.h, base/MQMessage.cpp,
  base/MQMessageExt.cpp, base/MessageAccessor.cpp) and \<open>MixAll::validate\<close>.  An \<open>absl::Time\<close> or
  \<open>absl::Duration\<close> is a number of nanoseconds.  \<open>MQMessageExt\<close> adds no state to \<open>MQMessage\<close>.  The
  members \<open>digest\<close> and \<open>body_encoding\<close> of \<open>SystemAttribute\<close> are neither read nor written anywhere and
  are left out; \<open>message_type\<close> has no initialiser, so a constructed message holds an arbitrary value,
  the argument \<open>junk\<close> of the constructor (\<open>None\<close> is a value that is no enumerator).
\<close>

section \<open>Data\<close>

datatype MessageType = NORMAL | FIFO | DELAY | TRANSACTION

record SystemAttribute =
  sys_tag :: string
  sys_keys :: "string list"
  sys_message_id :: string
  sys_message_type :: "MessageType option"
  sys_born_timestamp :: int
  sys_born_host :: string
  sys_store_timestamp :: int
  sys_store_host :: string
  sys_delivery_timestamp :: int
  sys_decode_timestamp :: int
  sys_delay_level :: int
  sys_receipt_handle :: string
  sys_partition_id :: int
  sys_partition_offset :: int
  sys_invisible_period :: int
  sys_attempt_times :: int
  sys_trace_context :: string
  sys_target_endpoint :: string
  sys_message_group :: string

record MQMessage =
  m_topic :: string
  m_user_attribute_map :: "string \<rightharpoonup> string"
  m_sys :: SystemAttribute
  m_body :: string
  m_message_queue :: MQMessageQueue

definition SystemAttribute_new :: "MessageType option \<Rightarrow> int \<Rightarrow> SystemAttribute" where
  "SystemAttribute_new junk now =
     \<lparr>sys_tag = '''', sys_keys = [], sys_message_id = '''', sys_message_type = junk,
      sys_born_timestamp = now, sys_born_host = '''', sys_store_timestamp = 0, sys_store_host = '''',
      sys_delivery_timestamp = 0, sys_decode_timestamp = now, sys_delay_level = 0,
      sys_receipt_handle = '''', sys_partition_id = 0, sys_partition_offset = 0,
      sys_invisible_period = 0, sys_attempt_times = 0, sys_trace_context = '''',
      sys_target_endpoint = '''', sys_message_group = ''''\<rparr>"

section \<open>Construction and copying\<close>

definition MQMessage_new ::
  "MessageType option \<Rightarrow> int \<Rightarrow> string \<Rightarrow> string \<Rightarrow> string \<Rightarrow> string \<Rightarrow> string \<Rightarrow> string \<Rightarrow> MQMessage" where
  "MQMessage_new junk now hostname unique_id topic tags keys body =
     \<lparr>m_topic = topic, m_user_attribute_map = Map.empty,
      m_sys = (SystemAttribute_new junk now)
        \<lparr>sys_tag := tags, sys_keys := (if keys \<noteq> '''' then [keys] else []),
         sys_born_host := hostname, sys_born_timestamp := now, sys_message_id := unique_id\<rparr>,
      m_body = body, m_message_queue = empty_mq\<rparr>"

text \<open>The copy constructor and \<open>operator=\<close> copy only \<open>*impl_\<close>.\<close>

definition MQMessage_copy :: "MQMessage \<Rightarrow> MQMessage" where
  "MQMessage_copy other = other\<lparr>m_message_queue := empty_mq\<rparr>"

definition MQMessage_assign :: "MQMessage \<Rightarrow> MQMessage \<Rightarrow> MQMessage" where
  "MQMessage_assign this other = other\<lparr>m_message_queue := m_message_queue this\<rparr>"

section \<open>Accessors\<close>

definition setProperty :: "string \<Rightarrow> string \<Rightarrow> MQMessage \<Rightarrow> MQMessage" where
  "setProperty name v m = m\<lparr>m_user_attribute_map := (m_user_attribute_map m)(name \<mapsto> v)\<rparr>"

definition getProperty :: "MQMessage \<Rightarrow> string \<Rightarrow> string" where
  "getProperty m name = (case m_user_attribute_map m name of None \<Rightarrow> '''' | Some v \<Rightarrow> v)"

definition setTags :: "string \<Rightarrow> MQMessage \<Rightarrow> MQMessage" where
  "setTags tags m = m\<lparr>m_sys := (m_sys m)\<lparr>sys_tag := tags\<rparr>\<rparr>"

definition setKey :: "string \<Rightarrow> MQMessage \<Rightarrow> MQMessage" where
  "setKey key m = m\<lparr>m_sys := (m_sys m)\<lparr>sys_keys := sys_keys (m_sys m) @ [key]\<rparr>\<rparr>"

definition setKeys :: "string list \<Rightarrow> MQMessage \<Rightarrow> MQMessage" where
  "setKeys keys m = m\<lparr>m_sys := (m_sys m)\<lparr>sys_keys := keys\<rparr>\<rparr>"

definition setDelayTimeLevel :: "int \<Rightarrow> MQMessage \<Rightarrow> MQMessage" where
  "setDelayTimeLevel level m = m\<lparr>m_sys := (m_sys m)\<lparr>sys_delay_level := level\<rparr>\<rparr>"

definition setTraceContext :: "string \<Rightarrow> MQMessage \<Rightarrow> MQMessage" where
  "setTraceContext ctx m = m\<lparr>m_sys := (m_sys m)\<lparr>sys_trace_context := ctx\<rparr>\<rparr>"

definition setBody :: "string \<Rightarrow> MQMessage \<Rightarrow> MQMessage" where
  "setBody body m = m\<lparr>m_body := body\<rparr>"

text \<open>The length is returned as \<open>uint32_t\<close>.\<close>

definition bodyLength :: "MQMessage \<Rightarrow> u32" where
  "bodyLength m = of_nat (length (m_body m))"

text \<open>\<open>std::map::insert\<close> keeps an entry that is already there.\<close>

definition setProperties :: "(string \<rightharpoonup> string) \<Rightarrow> MQMessage \<Rightarrow> MQMessage" where
  "setProperties properties m =
     m\<lparr>m_user_attribute_map := properties ++ m_user_attribute_map m\<rparr>"

definition setMessageType :: "MessageType \<Rightarrow> MQMessage \<Rightarrow> MQMessage" where
  "setMessageType t m = m\<lparr>m_sys := (m_sys m)\<lparr>sys_message_type := Some t\<rparr>\<rparr>"

definition bindMessageGroup :: "string \<Rightarrow> MQMessage \<Rightarrow> MQMessage" where
  "bindMessageGroup grp m =
     setMessageType FIFO
       (m\<lparr>m_sys := (m_sys m)\<lparr>sys_message_group := sys_message_group (m_sys m) @ grp\<rparr>\<rparr>)"

definition bindMessageQueue :: "MQMessageQueue \<Rightarrow> MQMessage \<Rightarrow> MQMessage" where
  "bindMessageQueue mq m = m\<lparr>m_message_queue := mq\<rparr>"

definition setMessageId :: "string \<Rightarrow> MQMessage \<Rightarrow> MQMessage" where
  "setMessageId i m = m\<lparr>m_sys := (m_sys m)\<lparr>sys_message_id := i\<rparr>\<rparr>"

definition setBornTimestamp :: "int \<Rightarrow> MQMessage \<Rightarrow> MQMessage" where
  "setBornTimestamp t m = m\<lparr>m_sys := (m_sys m)\<lparr>sys_born_timestamp := t\<rparr>\<rparr>"

definition setStoreTimestamp :: "int \<Rightarrow> MQMessage \<Rightarrow> MQMessage" where
  "setStoreTimestamp t m = m\<lparr>m_sys := (m_sys m)\<lparr>sys_store_timestamp := t\<rparr>\<rparr>"

definition setQueueId :: "int \<Rightarrow> MQMessage \<Rightarrow> MQMessage" where
  "setQueueId i m = m\<lparr>m_sys := (m_sys m)\<lparr>sys_partition_id := i\<rparr>\<rparr>"

definition setQueueOffset :: "int \<Rightarrow> MQMessage \<Rightarrow> MQMessage" where
  "setQueueOffset i m = m\<lparr>m_sys := (m_sys m)\<lparr>sys_partition_offset := i\<rparr>\<rparr>"

definition setBornHost :: "string \<Rightarrow> MQMessage \<Rightarrow> MQMessage" where
  "setBornHost h m = m\<lparr>m_sys := (m_sys m)\<lparr>sys_born_host := h\<rparr>\<rparr>"

definition setStoreHost :: "string \<Rightarrow> MQMessage \<Rightarrow> MQMessage" where
  "setStoreHost h m = m\<lparr>m_sys := (m_sys m)\<lparr>sys_store_host := h\<rparr>\<rparr>"

definition setDeliveryTimestamp :: "int \<Rightarrow> MQMessage \<Rightarrow> MQMessage" where
  "setDeliveryTimestamp t m = m\<lparr>m_sys := (m_sys m)\<lparr>sys_delivery_timestamp := t\<rparr>\<rparr>"

definition setDeliveryAttempt :: "int \<Rightarrow> MQMessage \<Rightarrow> MQMessage" where
  "setDeliveryAttempt n m = m\<lparr>m_sys := (m_sys m)\<lparr>sys_attempt_times := n\<rparr>\<rparr>"

definition setDecodedTimestamp :: "int \<Rightarrow> MQMessage \<Rightarrow> MQMessage" where
  "setDecodedTimestamp t m = m\<lparr>m_sys := (m_sys m)\<lparr>sys_decode_timestamp := t\<rparr>\<rparr>"

definition setInvisiblePeriod :: "int \<Rightarrow> MQMessage \<Rightarrow> MQMessage" where
  "setInvisiblePeriod d m = m\<lparr>m_sys := (m_sys m)\<lparr>sys_invisible_period := d\<rparr>\<rparr>"

definition setReceiptHandle :: "string \<Rightarrow> MQMessage \<Rightarrow> MQMessage" where
  "setReceiptHandle h m = m\<lparr>m_sys := (m_sys m)\<lparr>sys_receipt_handle := h\<rparr>\<rparr>"

definition setTargetEndpoint :: "string \<Rightarrow> MQMessage \<Rightarrow> MQMessage" where
  "setTargetEndpoint e m = m\<lparr>m_sys := (m_sys m)\<lparr>sys_target_endpoint := e\<rparr>\<rparr>"

definition getStoreTimestamp :: "MQMessage \<Rightarrow> int" where
  "getStoreTimestamp m = sys_store_timestamp (m_sys m) div 1000000"

definition getBornTimestamp :: "MQMessage \<Rightarrow> int" where
  "getBornTimestamp m = sys_born_timestamp (m_sys m) div 1000000"

definition msg_ext_eq :: "MQMessage \<Rightarrow> MQMessage \<Rightarrow> bool" where
  "msg_ext_eq a b \<longleftrightarrow> sys_message_id (m_sys a) = sys_message_id (m_sys b)"

section \<open>Validation\<close>

text \<open>\<open>RE2::FullMatch\<close> and \<open>absl::StartsWith\<close> are parameters.\<close>

definition validate :: "(rexp \<Rightarrow> string \<Rightarrow> bool) \<Rightarrow> absl_strings \<Rightarrow> MQMessage \<Rightarrow> bool" where
  "validate FullMatch absl m =
     (if m_topic m = '''' then False
      else
        let topic = m_topic m
        in if StartsWith absl topic ''CID'' \<or> StartsWith absl topic ''GID'' then False
           else if \<not> FullMatch TOPIC_REGEX topic then False
           else
             let body_length = bodyLength m
             in if body_length = 0 \<or> body_length > MAX_MESSAGE_BODY_SIZE then False
                else True)"

lemmas message_ops [code_map] =
  setProperty_def setTags_def setKey_def setKeys_def setDelayTimeLevel_def setTraceContext_def
  setBody_def setProperties_def setMessageType_def bindMessageGroup_def bindMessageQueue_def
  setMessageId_def setBornTimestamp_def setStoreTimestamp_def setQueueId_def setQueueOffset_def
  setBornHost_def setStoreHost_def setDeliveryTimestamp_def setDeliveryAttempt_def
  setDecodedTimestamp_def setInvisiblePeriod_def setReceiptHandle_def setTargetEndpoint_def

lemma TOPIC_REGEX_lang:
  "s \<in> lang TOPIC_REGEX \<longleftrightarrow> 3 \<le> length s \<and> length s \<le> 64 \<and> list_all topic_char s"
  by (auto simp: TOPIC_REGEX_def lang_Rep_Cls list_all_iff)

text \<open>C29: \<open>validate\<close> accepts exactly the messages whose topic has 3 to 64 letters, digits, hyphens
  and underscores and neither of the reserved prefixes, and whose body length, read as a 32-bit
  number, is between 1 and 4 MiB.\<close>

theorem validate_iff:
  assumes "re2 FullMatch" "absl_ok absl"
  shows "validate FullMatch absl m \<longleftrightarrow>
    3 \<le> length (m_topic m) \<and> length (m_topic m) \<le> 64 \<and> list_all topic_char (m_topic m) \<and>
    take 3 (m_topic m) \<notin> {''CID'', ''GID''} \<and>
    length (m_body m) mod 2 ^ 32 \<in> {1..4 * 1024 * 1024}"
proof -
  have re: "FullMatch TOPIC_REGEX t \<longleftrightarrow> t \<in> lang TOPIC_REGEX" for t
    using re2.FullMatch_lang [OF assms(1)] .
  have body: "bodyLength m = 0 \<longleftrightarrow> length (m_body m) mod 2 ^ 32 = 0"
    "4194304 < bodyLength m \<longleftrightarrow> 4194304 < length (m_body m) mod 2 ^ 32"
    by (simp_all add: bodyLength_def word_less_nat_alt unat_of_nat
        unsigned_of_nat take_bit_eq_mod word_of_nat_eq_0_iff dvd_eq_mod_eq_0)
  show ?thesis
    by (auto simp: validate_def Let_def re TOPIC_REGEX_lang body absl_StartsWith [OF assms(2)]
        starts_with_def numeral_3_eq_3)
qed

theorem validate_iff_witness:
  "validate full_match absl_ref
     (MQMessage_new None 0 ''host'' ''id'' ''Order-Topic_1'' ''TagA'' '''' ''hello'')"
  by (subst validate_iff [OF deriv_re2.re2_axioms absl_ref_ok])
    (simp add: MQMessage_new_def topic_char_def in_range_def)

end
