(* ===== verification/Wire.thy ===== *)
theory Wire
  imports Message UtilAll Histogram
begin

text \<open>
  The wire format (proto/apache/rocketmq/v1/definition.proto) and the two functions that translate
  between it and messages: \<open>ProducerImpl::wrapSendMessageRequest\<close> and
  \<open>ClientManagerImpl::wrapMessage\<close>.  A protobuf enumeration is open, so a field of such a type is an
  option with \<open>None\<close> for a number that is no enumerator; a message field is an option where the code
  asks \<open>has_...\<close>.
\<close>

section \<open>Protocol messages\<close>

record PbTimestamp =
  ts_seconds :: int
  ts_nanos :: int

datatype DigestType = CRC32 | MD5 | SHA1

record PbDigest =
  d_type :: "DigestType option"
  d_checksum :: string

datatype Encoding = IDENTITY | GZIP

datatype TimedDelivery = DeliveryTimestamp PbTimestamp | DelayLevel int

record PbSystemAttribute =
  pb_tag :: string
  pb_keys :: "string list"
  pb_message_id :: string
  pb_body_digest :: PbDigest
  pb_body_encoding :: "Encoding option"
  pb_message_type :: "MessageType option"
  pb_born_timestamp :: "PbTimestamp option"
  pb_born_host :: string
  pb_store_timestamp :: "PbTimestamp option"
  pb_store_host :: string
  pb_timed_delivery :: "TimedDelivery option"
  pb_receipt_handle :: string
  pb_partition_id :: int
  pb_partition_offset :: int
  pb_invisible_period :: "PbTimestamp option"
  pb_delivery_attempt :: int
  pb_producer_group :: Topic
  pb_message_group :: string
  pb_trace_context :: string

record PbMessage =
  pm_topic :: Topic
  pm_user_attribute :: "string \<rightharpoonup> string"
  pm_sys :: PbSystemAttribute
  pm_body :: string

text \<open>The default value of every field.\<close>

definition empty_sys :: PbSystemAttribute where
  "empty_sys =
     \<lparr>pb_tag = '''', pb_keys = [], pb_message_id = '''',
      pb_body_digest = \<lparr>d_type = Some CRC32, d_checksum = ''''\<rparr>, pb_body_encoding = Some IDENTITY,
      pb_message_type = Some NORMAL, pb_born_timestamp = None, pb_born_host = '''',
      pb_store_timestamp = None, pb_store_host = '''', pb_timed_delivery = None,
      pb_receipt_handle = '''', pb_partition_id = 0, pb_partition_offset = 0,
      pb_invisible_period = None, pb_delivery_attempt = 0,
      pb_producer_group = \<lparr>t_resource_namespace = '''', t_name = ''''\<rparr>, pb_message_group = '''',
      pb_trace_context = ''''\<rparr>"

text \<open>Assignment of a wider integer to an \<open>int32\<close> field.\<close>

definition to_int32 :: "int \<Rightarrow> int" where
  "to_int32 i = sint (word_of_int i :: u32)"

text \<open>C++ division truncates towards zero.\<close>

definition cdiv :: "int \<Rightarrow> int \<Rightarrow> int" where
  "cdiv a b = sgn a * sgn b * (\<bar>a\<bar> div \<bar>b\<bar>)"

section \<open>Sending\<close>

text \<open>The producer's settings the translation reads.  \<open>deflate\<close> is zlib's.\<close>

record send_env =
  se_resource_namespace :: string
  se_group_name :: string
  se_compress_body_threshold :: u32
  se_deflate :: "string \<Rightarrow> zstatus \<times> string"
  se_hostname :: string

definition wrap_send_system ::
  "send_env \<Rightarrow> int \<Rightarrow> MQMessage \<Rightarrow> MQMessageQueue \<Rightarrow> PbSystemAttribute" where
  "wrap_send_system env now message mq =
     (let s0 = empty_sys;
          tag = sys_tag (m_sys message);
          s1 = (if tag \<noteq> '''' then s0\<lparr>pb_tag := tag\<rparr> else s0);
          keys = sys_keys (m_sys message);
          s2 = (if keys \<noteq> [] then s1\<lparr>pb_keys := pb_keys s1 @ keys\<rparr> else s1);
          ctx = sys_trace_context (m_sys message);
          s3 = (if ctx \<noteq> '''' then s2\<lparr>pb_trace_context := ctx\<rparr> else s2);
          delivery = sys_delivery_timestamp (m_sys message);
          s4 = (if delivery \<noteq> 0
                then s3\<lparr>pb_delivery_attempt := to_int32 (cdiv delivery 1000000)\<rparr> else s3);
          level = sys_delay_level (m_sys message);
          s5 = (if level \<noteq> 0 then s4\<lparr>pb_timed_delivery := Some (DelayLevel level)\<rparr> else s4);
          seconds = cdiv now 1000000000;
          s6 = s5\<lparr>pb_born_timestamp :=
                 Some \<lparr>ts_seconds = seconds, ts_nanos = to_int32 (now - seconds * 1000000000)\<rparr>\<rparr>;
          s7 = s6\<lparr>pb_born_host := se_hostname env,
                  pb_producer_group := \<lparr>t_resource_namespace = se_resource_namespace env,
                                        t_name = se_group_name env\<rparr>\<rparr>;
          s8 = (case sys_message_type (m_sys message) of
                  Some t \<Rightarrow> s7\<lparr>pb_message_type := Some t\<rparr> | None \<Rightarrow> s7);
          s9 = (if bodyLength message \<ge> se_compress_body_threshold env
                then s8\<lparr>pb_body_encoding := Some GZIP\<rparr>
                else s8\<lparr>pb_body_encoding := Some IDENTITY\<rparr>)
      in s9\<lparr>pb_message_group := sys_message_group (m_sys message),
            pb_message_id := sys_message_id (m_sys message),
            pb_partition_id := mq_queue_id mq\<rparr>)"

definition wrapSendMessageRequest ::
  "send_env \<Rightarrow> int \<Rightarrow> MQMessage \<Rightarrow> MQMessageQueue \<Rightarrow> PbMessage" where
  "wrapSendMessageRequest env now message mq =
     \<lparr>pm_topic = \<lparr>t_resource_namespace = se_resource_namespace env, t_name = m_topic message\<rparr>,
      pm_user_attribute = m_user_attribute_map message,
      pm_sys = wrap_send_system env now message mq,
      pm_body =
        (if bodyLength message \<ge> se_compress_body_threshold env
         then snd (compress (se_deflate env) (m_body message) '''')
         else m_body message)\<rparr>"

section \<open>Receiving\<close>

text \<open>The digest functions of zlib and OpenSSL and zlib's \<open>inflate\<close>.\<close>

record 'z codec =
  c_crc32 :: "string \<Rightarrow> u32"
  c_md5 :: "string \<Rightarrow> bytes option"
  c_sha1 :: "string \<Rightarrow> bytes"
  c_inflateInit :: "string \<Rightarrow> 'z"
  c_inflate :: "'z \<Rightarrow> zstatus \<times> string \<times> 'z"

definition body_digest_match :: "'z codec \<Rightarrow> PbDigest \<Rightarrow> string \<Rightarrow> bool" where
  "body_digest_match c digest body =
     (if body = '''' then True
      else case d_type digest of
        Some CRC32 \<Rightarrow>
          (let (success, checksum) = crc32 (c_crc32 c) body ''''
           in if success then d_checksum digest = checksum else False)
      | Some MD5 \<Rightarrow>
          (let (success, checksum) = md5 (c_md5 c) body ''''
           in if success then d_checksum digest = checksum else True)
      | Some SHA1 \<Rightarrow>
          (let (success, checksum) = sha1 (c_sha1 c) body ''''
           in if success then checksum = d_checksum digest else False)
      | None \<Rightarrow> True)"

text \<open>\<open>absl::TimeFromTimeval\<close> and the conversion of a duration field.\<close>

definition time_from_timeval :: "int \<Rightarrow> int \<Rightarrow> int" where
  "time_from_timeval sec usec = sec * 1000000000 + usec * 1000"

definition decode_type :: "MessageType option \<Rightarrow> MessageType" where
  "decode_type t = (case t of None \<Rightarrow> NORMAL | Some t' \<Rightarrow> t')"

definition decode_timestamps :: "PbSystemAttribute \<Rightarrow> MQMessage \<Rightarrow> MQMessage" where
  "decode_timestamps s m =
     (let m1 = (case pb_born_timestamp s of
                  None \<Rightarrow> m
                | Some t \<Rightarrow> setBornTimestamp (time_from_timeval (ts_seconds t) (cdiv (ts_nanos t) 1000)) m);
          m2 = setBornHost (pb_born_host s) m1;
          m3 = (case pb_store_timestamp s of
                  None \<Rightarrow> m2
                | Some t \<Rightarrow> setStoreTimestamp (time_from_timeval (ts_seconds t) (cdiv (ts_nanos t) 1000)) m2);
          m4 = setStoreHost (pb_store_host s) m3
      in case pb_timed_delivery s of
           Some (DelayLevel l) \<Rightarrow> setDelayTimeLevel l m4
         | Some (DeliveryTimestamp t) \<Rightarrow>
             setDeliveryTimestamp (time_from_timeval (ts_seconds t) (ts_nanos t)) m4
         | None \<Rightarrow> m4)"

definition decode_rest :: "int \<Rightarrow> PbSystemAttribute \<Rightarrow> MQMessage \<Rightarrow> MQMessage" where
  "decode_rest now s m =
     (let m1 = setQueueOffset (pb_partition_offset s) (setQueueId (pb_partition_id s) m);
          m2 = (case pb_invisible_period s of
                  None \<Rightarrow> m1
                | Some d \<Rightarrow> setInvisiblePeriod (ts_seconds d * 1000000000 + ts_nanos d) m1)
      in setDecodedTimestamp now
           (setTraceContext (pb_trace_context s) (setDeliveryAttempt (pb_delivery_attempt s) m2)))"

definition count_latency :: "int \<Rightarrow> MQMessage \<Rightarrow> histogram \<Rightarrow> histogram option" where
  "count_latency now m h =
     (let elapsed = to_int32 (now div 1000000 - getStoreTimestamp m)
      in if elapsed \<ge> 0 then countIn (elapsed div 20) h else Some h)"

definition decode_body :: "'z codec \<Rightarrow> PbMessage \<Rightarrow> MQMessage \<Rightarrow> MQMessage option" where
  "decode_body c item m =
     (case pb_body_encoding (pm_sys item) of
        Some GZIP \<Rightarrow>
          map_option (\<lambda>(_, uncompressed). setBody uncompressed m)
            (uncompress (c_inflateInit c) (c_inflate c) (pm_body item) '''')
      | Some IDENTITY \<Rightarrow> Some (setBody (pm_body item) m)
      | None \<Rightarrow> Some m)"

text \<open>\<open>None\<close> is a call that does not return: the assertion on the namespace fails or \<open>uncompress\<close>
  does not end.  A message that is refused keeps the attributes set before the digest test.\<close>

definition wrapMessage ::
  "'z codec \<Rightarrow> string \<Rightarrow> int \<Rightarrow> PbMessage \<Rightarrow> MQMessage \<Rightarrow> histogram \<Rightarrow>
   (bool \<times> MQMessage \<times> histogram) option" where
  "wrapMessage c resource_namespace now item m h =
     (if t_resource_namespace (pm_topic item) \<noteq> resource_namespace then None
      else
        let s = pm_sys item;
            m1 = m\<lparr>m_topic := t_name (pm_topic item)\<rparr>;
            m2 = setReceiptHandle (pb_receipt_handle s) m1;
            m3 = setKeys (pb_keys s) (setTags (pb_tag s) m2);
            m4 = setMessageId (pb_message_id s) m3
        in if \<not> body_digest_match c (pb_body_digest s) (pm_body item) then Some (False, m4, h)
           else
             Option.bind (decode_body c item m4)
               (\<lambda>m5.
                  let m6 = setMessageType (decode_type (pb_message_type s)) m5;
                      m7 = decode_rest now s (decode_timestamps s m6);
                      m8 = setProperties (pm_user_attribute item) m7
                  in map_option (\<lambda>h'. (True, m8, h')) (count_latency now m8 h)))"

section \<open>Lemmas\<close>

lemma wrap_send_system_simps:
  "pb_tag (wrap_send_system env now m mq) = sys_tag (m_sys m)"
  "pb_keys (wrap_send_system env now m mq) = sys_keys (m_sys m)"
  "pb_message_id (wrap_send_system env now m mq) = sys_message_id (m_sys m)"
  "pb_trace_context (wrap_send_system env now m mq) = sys_trace_context (m_sys m)"
  "pb_message_group (wrap_send_system env now m mq) = sys_message_group (m_sys m)"
  "pb_partition_id (wrap_send_system env now m mq) = mq_queue_id mq"
  "pb_born_host (wrap_send_system env now m mq) = se_hostname env"
  "pb_timed_delivery (wrap_send_system env now m mq) =
     (if sys_delay_level (m_sys m) = 0 then None else Some (DelayLevel (sys_delay_level (m_sys m))))"
  "pb_message_type (wrap_send_system env now m mq) = Some (decode_type (sys_message_type (m_sys m)))"
  "pb_body_encoding (wrap_send_system env now m mq) =
     Some (if bodyLength m \<ge> se_compress_body_threshold env then GZIP else IDENTITY)"
  "pb_delivery_attempt (wrap_send_system env now m mq) =
     (if sys_delivery_timestamp (m_sys m) = 0 then 0
      else to_int32 (cdiv (sys_delivery_timestamp (m_sys m)) 1000000))"
  by (simp_all add: wrap_send_system_def Let_def empty_sys_def decode_type_def split: option.split)

lemma decode_timestamps_simps [simp]:
  "m_topic (decode_timestamps s m) = m_topic m" "m_body (decode_timestamps s m) = m_body m"
  "m_user_attribute_map (decode_timestamps s m) = m_user_attribute_map m"
  "sys_tag (m_sys (decode_timestamps s m)) = sys_tag (m_sys m)"
  "sys_keys (m_sys (decode_timestamps s m)) = sys_keys (m_sys m)"
  "sys_message_id (m_sys (decode_timestamps s m)) = sys_message_id (m_sys m)"
  "sys_message_type (m_sys (decode_timestamps s m)) = sys_message_type (m_sys m)"
  "sys_receipt_handle (m_sys (decode_timestamps s m)) = sys_receipt_handle (m_sys m)"
  "sys_message_group (m_sys (decode_timestamps s m)) = sys_message_group (m_sys m)"
  "sys_delay_level (m_sys (decode_timestamps s m)) =
     (case pb_timed_delivery s of Some (DelayLevel l) \<Rightarrow> l | _ \<Rightarrow> sys_delay_level (m_sys m))"
  "sys_delivery_timestamp (m_sys (decode_timestamps s m)) =
     (case pb_timed_delivery s of
        Some (DeliveryTimestamp t) \<Rightarrow> time_from_timeval (ts_seconds t) (ts_nanos t)
      | _ \<Rightarrow> sys_delivery_timestamp (m_sys m))"
  by (simp_all add: decode_timestamps_def Let_def message_ops split: option.split TimedDelivery.split)

lemma decode_rest_simps [simp]:
  "m_topic (decode_rest now s m) = m_topic m" "m_body (decode_rest now s m) = m_body m"
  "m_user_attribute_map (decode_rest now s m) = m_user_attribute_map m"
  "sys_tag (m_sys (decode_rest now s m)) = sys_tag (m_sys m)"
  "sys_keys (m_sys (decode_rest now s m)) = sys_keys (m_sys m)"
  "sys_message_id (m_sys (decode_rest now s m)) = sys_message_id (m_sys m)"
  "sys_message_type (m_sys (decode_rest now s m)) = sys_message_type (m_sys m)"
  "sys_receipt_handle (m_sys (decode_rest now s m)) = sys_receipt_handle (m_sys m)"
  "sys_message_group (m_sys (decode_rest now s m)) = sys_message_group (m_sys m)"
  "sys_delay_level (m_sys (decode_rest now s m)) = sys_delay_level (m_sys m)"
  "sys_delivery_timestamp (m_sys (decode_rest now s m)) = sys_delivery_timestamp (m_sys m)"
  "sys_partition_id (m_sys (decode_rest now s m)) = pb_partition_id s"
  "sys_partition_offset (m_sys (decode_rest now s m)) = pb_partition_offset s"
  "sys_attempt_times (m_sys (decode_rest now s m)) = pb_delivery_attempt s"
  "sys_trace_context (m_sys (decode_rest now s m)) = pb_trace_context s"
  by (simp_all add: decode_rest_def Let_def message_ops split: option.split)

lemma count_latency_ok: "histogram_ok h \<Longrightarrow> \<exists>h'. count_latency now m h = Some h'"
  using countIn_ok [of h] by (auto simp: count_latency_def Let_def)

text \<open>zlib: \<open>deflate\<close> with \<open>Z_FINISH\<close> on a buffer of \<open>deflateBound\<close> bytes ends the stream, and a run of
  \<open>inflate\<close> calls on its output gives the input back.\<close>

definition zlib_ok :: "(string \<Rightarrow> zstatus \<times> string) \<Rightarrow> 'z codec \<Rightarrow> bool" where
  "zlib_ok deflate c \<longleftrightarrow> (\<forall>src. \<exists>z. deflate src = (Z_STREAM_END, z) \<and>
     inflates (c_inflate c) (c_inflateInit c z) src Z_STREAM_END)"

lemma uncompress_compress:
  assumes "zlib_ok deflate c"
  shows "uncompress (c_inflateInit c) (c_inflate c) (snd (compress deflate src '''')) '''' = Some (True, src)"
proof -
  obtain z where z: "deflate src = (Z_STREAM_END, z)"
      "inflates (c_inflate c) (c_inflateInit c z) src Z_STREAM_END"
    using assms by (auto simp: zlib_ok_def)
  then show ?thesis using uncompress_inflates [OF z(2), of "''''"] by (simp add: compress_def uncompress_def)
qed

text \<open>What a broker adds to a stored message before it delivers it.\<close>

definition stored :: "PbDigest \<Rightarrow> string \<Rightarrow> PbTimestamp option \<Rightarrow> string \<Rightarrow> int \<Rightarrow> PbMessage \<Rightarrow> PbMessage" where
  "stored digest receipt store_time store_host off item =
     item\<lparr>pm_sys := (pm_sys item)\<lparr>pb_body_digest := digest, pb_receipt_handle := receipt,
       pb_store_timestamp := store_time, pb_store_host := store_host, pb_partition_offset := off\<rparr>\<rparr>"

lemma wrapMessage_of_send:
  assumes "zlib_ok (se_deflate env) c" "histogram_ok h"
    and "body_digest_match c digest (pm_body (wrapSendMessageRequest env now m mq))"
  shows "\<exists>m' h'. wrapMessage c (se_resource_namespace env) now'
      (stored digest receipt st sh off (wrapSendMessageRequest env now m mq)) m0 h = Some (True, m', h') \<and>
    m_topic m' = m_topic m \<and> m_body m' = m_body m \<and>
    m_user_attribute_map m' = m_user_attribute_map m ++ m_user_attribute_map m0 \<and>
    sys_tag (m_sys m') = sys_tag (m_sys m) \<and> sys_keys (m_sys m') = sys_keys (m_sys m) \<and>
    sys_message_id (m_sys m') = sys_message_id (m_sys m) \<and>
    sys_trace_context (m_sys m') = sys_trace_context (m_sys m) \<and>
    sys_message_type (m_sys m') = Some (decode_type (sys_message_type (m_sys m))) \<and>
    sys_partition_id (m_sys m') = mq_queue_id mq \<and>
    sys_receipt_handle (m_sys m') = receipt \<and> sys_partition_offset (m_sys m') = off \<and>
    sys_delay_level (m_sys m') = (if sys_delay_level (m_sys m) = 0 then sys_delay_level (m_sys m0)
      else sys_delay_level (m_sys m)) \<and>
    sys_message_group (m_sys m') = sys_message_group (m_sys m0) \<and>
    sys_delivery_timestamp (m_sys m') = sys_delivery_timestamp (m_sys m0) \<and>
    sys_attempt_times (m_sys m') = (if sys_delivery_timestamp (m_sys m) = 0 then 0
      else to_int32 (cdiv (sys_delivery_timestamp (m_sys m)) 1000000))"
proof -
  define item where "item = stored digest receipt st sh off (wrapSendMessageRequest env now m mq)"
  have decode: "decode_body c item m4 = Some (setBody (m_body m) m4)" for m4
    using uncompress_compress [OF assms(1), of "m_body m"]
    by (simp add: decode_body_def item_def stored_def wrapSendMessageRequest_def wrap_send_system_simps)
  have ns: "t_resource_namespace (pm_topic item) = se_resource_namespace env"
    by (simp add: item_def stored_def wrapSendMessageRequest_def)
  have digest: "body_digest_match c (pb_body_digest (pm_sys item)) (pm_body item)"
    using assms(3) by (simp add: item_def stored_def)
  have sys: "pm_sys item = (wrap_send_system env now m mq)\<lparr>pb_body_digest := digest,
      pb_receipt_handle := receipt, pb_store_timestamp := st, pb_store_host := sh, pb_partition_offset := off\<rparr>"
    and top: "t_name (pm_topic item) = m_topic m" "pm_user_attribute item = m_user_attribute_map m"
    by (simp_all add: item_def stored_def wrapSendMessageRequest_def)
  define m8 where "m8 = setProperties (pm_user_attribute item) (decode_rest now' (pm_sys item)
      (decode_timestamps (pm_sys item) (setMessageType (decode_type (pb_message_type (pm_sys item)))
      (setBody (m_body m) (setMessageId (pb_message_id (pm_sys item)) (setKeys (pb_keys (pm_sys item))
      (setTags (pb_tag (pm_sys item)) (setReceiptHandle (pb_receipt_handle (pm_sys item))
      (m0\<lparr>m_topic := t_name (pm_topic item)\<rparr>)))))))))"
  obtain h' where h': "count_latency now' m8 h = Some h'"
    using count_latency_ok [OF assms(2)] by blast
  have "wrapMessage c (se_resource_namespace env) now' item m0 h = Some (True, m8, h')"
    using ns digest h' by (simp add: wrapMessage_def Let_def decode flip: m8_def)
  then show ?thesis
    unfolding item_def [symmetric]
    by (simp add: m8_def sys top message_ops wrap_send_system_simps decode_type_def)
qed

lemma wrapMessage_group:
  "wrapMessage c ns now item m0 h = Some (ok, m', h') \<Longrightarrow>
     sys_message_group (m_sys m') = sys_message_group (m_sys m0)"
  by (auto simp: wrapMessage_def Let_def decode_body_def message_ops bind_eq_Some_conv
      split: if_splits option.splits Encoding.splits)

lemma wrapMessage_accepts:
  "wrapMessage c ns now item m0 h = Some (ok, m', h') \<Longrightarrow>
     ok = body_digest_match c (pb_body_digest (pm_sys item)) (pm_body item)"
  by (auto simp: wrapMessage_def Let_def bind_eq_Some_conv split: if_splits)

section \<open>Properties\<close>


text \<open>A codec that stores bodies as they are, with constant digests.\<close>

definition plain_codec :: "string codec" where
  "plain_codec = \<lparr>c_crc32 = (\<lambda>_. 0), c_md5 = (\<lambda>_. None), c_sha1 = (\<lambda>_. []), c_inflateInit = id,
     c_inflate = (\<lambda>z. (Z_STREAM_END, z, []))\<rparr>"

lemma plain_codec_ok: "zlib_ok (\<lambda>src. (Z_STREAM_END, src)) plain_codec"
  unfolding zlib_ok_def plain_codec_def
  using inflates.last [of "\<lambda>z. (Z_STREAM_END, z, [])"] by fastforce


text \<open>Two attributes do not survive the wire.  The delivery time of a message is never sent
  as such: \<open>wrapSendMessageRequest\<close> writes its milliseconds, cut to 32 bits, into the delivery
  attempt counter.  And \<open>wrapMessage\<close> never sets the message group, so a received message of a group
  carries the empty group of the fresh message it is decoded into.\<close>

theorem wire_losses:
  "pb_timed_delivery (pm_sys (wrapSendMessageRequest env now m mq)) \<noteq> Some (DeliveryTimestamp t) \<and>
   pb_delivery_attempt (pm_sys (wrapSendMessageRequest env now m mq)) =
     (if sys_delivery_timestamp (m_sys m) = 0 then 0
      else to_int32 (cdiv (sys_delivery_timestamp (m_sys m)) 1000000)) \<and>
   (case wrapMessage c ns now' item (MQMessage_new junk now' host uid '''' '''' '''' '''') h of
      Some (_, m', _) \<Rightarrow> sys_message_group (m_sys m') = '''' | None \<Rightarrow> True)"
proof (intro conjI)
  show "case wrapMessage c ns now' item (MQMessage_new junk now' host uid '''' '''' '''' '''') h of
      Some (_, m', _) \<Rightarrow> sys_message_group (m_sys m') = '''' | None \<Rightarrow> True"
    using wrapMessage_group [of c ns now' item "MQMessage_new junk now' host uid '''' '''' '''' ''''" h]
    by (auto simp: MQMessage_new_def SystemAttribute_new_def split: option.splits)
qed (simp_all add: wrapSendMessageRequest_def wrap_send_system_simps)

end
