(* ===== verification/PublishInfo.thy ===== *)
theory PublishInfo
  imports Wire
begin

text \<open>
  Where a producer sends: \<open>TopicPublishInfo\<close> (client/TopicPublishInfo.cpp), the writable partitions of
  a topic and the round-robin choice among them.  The thread-local counter \<open>send_which_queue_\<close> is a
  32-bit word passed and returned explicitly.  \<open>None\<close> is a failed \<open>assert\<close>.
\<close>

section \<open>State and operations\<close>

record publish_info =
  pi_topic :: string
  pi_partition_list :: "Partition list"
  pi_route :: TopicRouteData

fun writable_partitions :: "string \<Rightarrow> Partition list \<Rightarrow> Partition list option" where
  "writable_partitions topic [] = Some []"
| "writable_partitions topic (p # ps) =
     (if t_name (p_topic p) \<noteq> topic then None
      else if READ = p_permission p \<or> NONE = p_permission p then writable_partitions topic ps
      else if MASTER_BROKER_ID \<noteq> b_id (p_broker p) then writable_partitions topic ps
      else map_option ((#) p) (writable_partitions topic ps))"

definition updatePublishInfo :: "publish_info \<Rightarrow> publish_info option" where
  "updatePublishInfo pi =
     (case writable_partitions (pi_topic pi) (rd_partitions (pi_route pi)) of
        None \<Rightarrow> None
      | Some writable \<Rightarrow>
          if writable = [] then Some pi else Some (pi\<lparr>pi_partition_list := writable\<rparr>))"

definition TopicPublishInfo_new :: "string \<Rightarrow> TopicRouteData \<Rightarrow> publish_info option" where
  "TopicPublishInfo_new topic route =
     updatePublishInfo \<lparr>pi_topic = topic, pi_partition_list = [], pi_route = route\<rparr>"

definition set_topicRouteData :: "TopicRouteData \<Rightarrow> publish_info \<Rightarrow> publish_info option" where
  "set_topicRouteData route pi = updatePublishInfo (pi\<lparr>pi_route := route\<rparr>)"

definition queue_at :: "Partition list \<Rightarrow> u32 \<Rightarrow> MQMessageQueue" where
  "queue_at ps index = asMessageQueue (ps ! (unat index mod length ps))"

text \<open>The out parameter \<open>message_queue\<close> is passed and returned.\<close>

definition selectOneMessageQueue ::
  "u32 \<Rightarrow> publish_info \<Rightarrow> MQMessageQueue \<Rightarrow> u32 \<times> bool \<times> MQMessageQueue" where
  "selectOneMessageQueue which pi mq =
     (let index = which + 1; ps = pi_partition_list pi
      in if ps = [] then (index, False, mq) else (index, True, queue_at ps index))"

fun select_active :: "string set \<Rightarrow> Partition list \<Rightarrow> nat \<Rightarrow> u32 \<Rightarrow> MQMessageQueue \<Rightarrow> bool \<times> MQMessageQueue"
where
  "select_active isolated ps 0 index mq = (False, mq)"
| "select_active isolated ps (Suc n) index mq =
     (let mq' = queue_at ps index
      in if mq_service_address mq' \<notin> isolated then (True, mq')
         else select_active isolated ps n (index + 1) mq')"

definition selectOneActiveMessageQueue ::
  "string set \<Rightarrow> u32 \<Rightarrow> publish_info \<Rightarrow> MQMessageQueue \<Rightarrow> u32 \<times> bool \<times> MQMessageQueue" where
  "selectOneActiveMessageQueue isolated which pi mq =
     (let index = which + 1; ps = pi_partition_list pi
      in if ps = [] then (index, False, mq)
         else (index, select_active isolated ps (length ps) index mq))"

text \<open>The first component tells that the loop returned because \<open>cnt\<close> candidates were found.\<close>

fun take_loop ::
  "string set \<Rightarrow> Partition list \<Rightarrow> u32 \<Rightarrow> nat \<Rightarrow> u32 \<Rightarrow> MQMessageQueue list \<Rightarrow> bool \<times> MQMessageQueue list"
where
  "take_loop isolated ps cnt 0 index candidates = (False, candidates)"
| "take_loop isolated ps cnt (Suc n) index candidates =
     (let mq = queue_at ps index
      in if mq_service_address mq \<notin> isolated
         then
           let candidates' =
             (if list_ex (\<lambda>item. mq_broker_name item = mq_broker_name mq) candidates
              then candidates else candidates @ [mq])
           in if length candidates' \<ge> unat cnt then (True, candidates')
              else take_loop isolated ps cnt n (index + 1) candidates'
         else take_loop isolated ps cnt n (index + 1) candidates)"

definition takeMessageQueues ::
  "string set \<Rightarrow> u32 \<Rightarrow> u32 \<Rightarrow> publish_info \<Rightarrow> MQMessageQueue list \<Rightarrow> u32 \<times> bool \<times> MQMessageQueue list"
where
  "takeMessageQueues isolated cnt which pi candidates =
     (let index = which + 1; ps = pi_partition_list pi
      in if ps = [] then (index, False, candidates)
         else case take_loop isolated ps cnt (length ps) index candidates of
           (full, candidates') \<Rightarrow> (index, full \<or> candidates' \<noteq> [], candidates'))"

definition getMessageQueueList :: "publish_info \<Rightarrow> MQMessageQueue list" where
  "getMessageQueueList pi =
     sort_by mq_less
       (filter (\<lambda>mq. mq_service_address mq \<noteq> '''')
         (map asMessageQueue
           (filter (\<lambda>p. \<not> (READ = p_permission p \<or> NONE = p_permission p)) (pi_partition_list pi))))"

section \<open>Reference definitions\<close>

text \<open>The partitions in the order in which the loops visit them, and the first queue of each
  broker.\<close>

definition visited :: "Partition list \<Rightarrow> nat \<Rightarrow> u32 \<Rightarrow> MQMessageQueue list" where
  "visited ps n index = map (\<lambda>i. queue_at ps (index + of_nat i)) [0..<n]"

fun first_per_broker :: "string set \<Rightarrow> MQMessageQueue list \<Rightarrow> MQMessageQueue list" where
  "first_per_broker seen [] = []"
| "first_per_broker seen (q # qs) =
     (if mq_broker_name q \<in> seen then first_per_broker seen qs
      else q # first_per_broker (insert (mq_broker_name q) seen) qs)"

lemma visited_Suc: "visited ps (Suc n) index = queue_at ps index # visited ps n (index + 1)"
  unfolding visited_def
  by (subst upt_conv_Cons)
    (auto simp: map_Suc_upt [symmetric] comp_def algebra_simps simp del: upt_Suc)

lemma visited_0 [simp]: "visited ps 0 index = []"
  by (simp add: visited_def)

lemma take_loop_reference:
  assumes "length cands < unat cnt"
  shows "snd (take_loop isolated ps cnt n index cands) =
    take (unat cnt) (cands @ first_per_broker (mq_broker_name ` set cands)
      (filter (\<lambda>q. mq_service_address q \<notin> isolated) (visited ps n index)))"
  using assms
proof (induction n arbitrary: index cands)
  case (Suc n)
  let ?q = "queue_at ps index"
  have mem: "list_ex (\<lambda>item. mq_broker_name item = mq_broker_name ?q) cands \<longleftrightarrow>
      mq_broker_name ?q \<in> mq_broker_name ` set cands"
    by (simp add: list_ex_iff image_iff eq_commute [of "mq_broker_name ?q"])
  have prem: "\<not> unat cnt \<le> length cands" using Suc.prems by simp
  show ?case
  proof (cases "mq_service_address ?q \<in> isolated")
    case True
    then show ?thesis
      using Suc.IH [OF Suc.prems, of "index + 1"] by (simp only: take_loop.simps Let_def visited_Suc) simp
  next
    case active: False
    show ?thesis
    proof (cases "mq_broker_name ?q \<in> mq_broker_name ` set cands")
      case True
      then show ?thesis
        using Suc.IH [OF Suc.prems, of "index + 1"] active prem
        by (simp only: take_loop.simps Let_def visited_Suc mem) simp
    next
      case new: False
      show ?thesis
      proof (cases "unat cnt \<le> length (cands @ [?q])")
        case True
        with prem have "unat cnt = Suc (length cands)" by simp
        then show ?thesis
          using active new by (simp only: take_loop.simps Let_def visited_Suc mem) simp
      next
        case False
        then have "length (cands @ [?q]) < unat cnt" by simp
        from Suc.IH [OF this, of "index + 1"] False active new show ?thesis
          by (simp only: take_loop.simps Let_def visited_Suc mem) simp
      qed
    qed
  qed
qed simp

lemma rotate_map_nth:
  "ps \<noteq> [] \<Longrightarrow> map (\<lambda>i. ps ! ((k + i) mod length ps)) [0..<length ps] = rotate k ps"
  by (rule nth_equalityI) (simp_all add: nth_rotate)

lemma visited_rotate:
  assumes "ps \<noteq> []" "unat index + length ps \<le> 2 ^ 32"
  shows "visited ps (length ps) index = map asMessageQueue (rotate (unat index) ps)"
proof -
  have "unat (index + of_nat i) = unat index + i" if "i < length ps" for i
    using that assms(2) by (subst unat_word_ariths) (simp add: unat_u32_of_nat)
  then have "visited ps (length ps) index =
      map asMessageQueue (map (\<lambda>i. ps ! ((unat index + i) mod length ps)) [0..<length ps])"
    by (auto simp: visited_def queue_at_def)
  then show ?thesis by (simp only: rotate_map_nth [OF assms(1)])
qed

lemma take_loop_full:
  "fst (take_loop isolated ps cnt n index cands) \<Longrightarrow> snd (take_loop isolated ps cnt n index cands) \<noteq> []"
proof (induction n arbitrary: index cands)
  case (Suc n)
  then show ?case by (cases "cands = []") (simp_all add: Let_def split: if_splits)
qed simp

lemma take_loop_safe:
  assumes "take_loop isolated ps cnt n index cands = (full, qs)" "ps \<noteq> []"
    and "distinct (map mq_broker_name cands)" "length cands < max 1 (unat cnt)"
    and "set cands \<subseteq> {q \<in> asMessageQueue ` set ps. mq_service_address q \<notin> isolated}"
  shows "distinct (map mq_broker_name qs) \<and> length qs \<le> max 1 (unat cnt) \<and>
    set qs \<subseteq> {q \<in> asMessageQueue ` set ps. mq_service_address q \<notin> isolated}"
  using assms
proof (induction n arbitrary: index cands)
  case (Suc n)
  let ?q = "queue_at ps index"
  define c where "c = (if list_ex (\<lambda>item. mq_broker_name item = mq_broker_name ?q) cands
    then cands else cands @ [?q])"
  have q: "?q \<in> asMessageQueue ` set ps" using Suc.prems(2) by (simp add: queue_at_def)
  show ?case
  proof (cases "mq_service_address ?q \<in> isolated")
    case True
    then show ?thesis using Suc.IH [of "index + 1" cands] Suc.prems by simp
  next
    case False
    have d: "distinct (map mq_broker_name c)"
      using Suc.prems(3) by (auto simp: c_def list_ex_iff)
    have s: "set c \<subseteq> {q \<in> asMessageQueue ` set ps. mq_service_address q \<notin> isolated}"
      using Suc.prems(5) q False by (auto simp: c_def)
    have l: "length c \<le> max 1 (unat cnt)" using Suc.prems(4) by (auto simp: c_def)
    show ?thesis
    proof (cases "length c \<ge> unat cnt")
      case True
      then have "qs = c" using Suc.prems(1) False by (simp add: Let_def flip: c_def)
      with d s l show ?thesis by simp
    next
      case less: False
      then show ?thesis
        using Suc.IH [of "index + 1" c] Suc.prems(1,2) False d s by (simp add: Let_def flip: c_def)
    qed
  qed
qed auto

lemma first_per_broker_distinct:
  "distinct (map mq_broker_name (first_per_broker seen qs)) \<and>
   set (map mq_broker_name (first_per_broker seen qs)) = mq_broker_name ` set qs - seen \<and>
   set (first_per_broker seen qs) \<subseteq> set qs"
  by (induction qs arbitrary: seen) auto

lemma writable_partitions_filter:
  "list_all (\<lambda>p. t_name (p_topic p) = topic) ps \<Longrightarrow>
   writable_partitions topic ps =
     Some (filter (\<lambda>p. p_permission p \<in> {WRITE, READ_WRITE} \<and> b_id (p_broker p) = MASTER_BROKER_ID) ps)"
proof (induction ps)
  case (Cons p ps)
  then show ?case by (cases "p_permission p") auto
qed simp

section \<open>Properties\<close>


definition sample_partition :: "string \<Rightarrow> int \<Rightarrow> Partition" where
  "sample_partition broker i =
     \<lparr>p_topic = \<lparr>t_resource_namespace = '''', t_name = ''T''\<rparr>,
      p_broker = \<lparr>b_name = broker, b_id = 0, b_service_address = ServiceAddress_new IPv4 [\<lparr>a_host = broker, a_port = 80\<rparr>]\<rparr>,
      p_id = i, p_permission = READ_WRITE\<rparr>"

definition sample_info :: publish_info where
  "sample_info = \<lparr>pi_topic = ''T'',
     pi_partition_list = [sample_partition ''a'' 0, sample_partition ''a'' 1, sample_partition ''b'' 0],
     pi_route = TopicRouteData_new [] ''''\<rparr>"

lemma sample_simps [simp]:
  "broker_serviceAddress (p_broker (sample_partition b i)) = ''ipv4:'' @ b @ '':80''"
  "b_name (p_broker (sample_partition b i)) = b"
  "t_name (p_topic (sample_partition b i)) = ''T''"
  by (simp_all add: sample_partition_def broker_serviceAddress_def sa_address_join ServiceAddress_new_def
      sort_by_def host_port_def to_string_def nat_digits.simps digit_char_def char_of_def bit_0)

lemma sample_queue_at:
  "queue_at [x, y, z] (- 1) = asMessageQueue x" "queue_at [x, y, z] 0 = asMessageQueue x"
  "queue_at [x, y, z] 1 = asMessageQueue y"
  by (simp_all add: queue_at_def unsigned_minus_1_eq_mask mask_eq_exp_minus_1 flip: numeral_3_eq_3)


text \<open>C24: Candidates are never on isolated addresses and never two of one broker, whatever the
  counter's value, and there are at most \<open>count\<close> of them (one when \<open>count\<close> is zero).\<close>

theorem takeMessageQueues_safe:
  "case takeMessageQueues isolated cnt which pi [] of (_, ret, qs) \<Rightarrow>
     distinct (map mq_broker_name qs) \<and> length qs \<le> max 1 (unat cnt) \<and>
     set qs \<inter> {q. mq_service_address q \<in> isolated} = {} \<and>
     set qs \<subseteq> asMessageQueue ` set (pi_partition_list pi) \<and> (ret \<longleftrightarrow> qs \<noteq> [])"
proof (cases "pi_partition_list pi = []")
  case False
  obtain full qs where t: "take_loop isolated (pi_partition_list pi) cnt (length (pi_partition_list pi))
      (which + 1) [] = (full, qs)" by (rule prod.exhaust)
  have "distinct (map mq_broker_name qs) \<and> length qs \<le> max 1 (unat cnt) \<and>
      set qs \<subseteq> {q \<in> asMessageQueue ` set (pi_partition_list pi). mq_service_address q \<notin> isolated}"
    by (rule take_loop_safe [OF t False]) simp_all
  moreover have "full \<Longrightarrow> qs \<noteq> []"
    using take_loop_full [of isolated "pi_partition_list pi" cnt "length (pi_partition_list pi)" "which + 1" "[]"] t
    by simp
  ultimately show ?thesis using False t by (auto simp: takeMessageQueues_def Let_def)
qed (simp add: takeMessageQueues_def Let_def)

text \<open>A wrapping counter breaks the round robin: with three partitions, the first at an
  isolated address and the counter about to wrap, the active third partition is never
  visited and no queue is found.\<close>

theorem wrap_skips_partition:
  "snd (takeMessageQueues {''ipv4:a:80''} 1 (- 2) sample_info []) = (False, []) \<and>
   mq_service_address (asMessageQueue (sample_partition ''b'' 0)) \<notin> {''ipv4:a:80''}"
  by (simp add: takeMessageQueues_def Let_def sample_info_def sample_queue_at)

text \<open>\<open>updatePublishInfo\<close> keeps exactly the writable partitions on master brokers of the new
  route, in route order, and leaves the previous list when there is none.\<close>

theorem updatePublishInfo_writable:
  assumes "list_all (\<lambda>p. t_name (p_topic p) = pi_topic pi) (rd_partitions route)"
  shows "set_topicRouteData route pi =
    (let writable = filter (\<lambda>p. p_permission p \<in> {WRITE, READ_WRITE} \<and> b_id (p_broker p) = MASTER_BROKER_ID)
           (rd_partitions route)
     in Some (pi\<lparr>pi_route := route,
          pi_partition_list := (if writable = [] then pi_partition_list pi else writable)\<rparr>))"
  using writable_partitions_filter [OF assms]
  by (simp add: set_topicRouteData_def updatePublishInfo_def Let_def)

theorem updatePublishInfo_writable_witness:
  "set_topicRouteData (TopicRouteData_new [sample_partition ''c'' 0, (sample_partition ''d'' 0)\<lparr>p_permission := READ\<rparr>] '''')
     sample_info =
   Some (sample_info\<lparr>pi_route := TopicRouteData_new [sample_partition ''c'' 0,
       (sample_partition ''d'' 0)\<lparr>p_permission := READ\<rparr>] '''', pi_partition_list := [sample_partition ''c'' 0]\<rparr>)"
  by (subst updatePublishInfo_writable) (simp_all add: sample_info_def sample_partition_def
      TopicRouteData_new_def sort_by_def partition_less_key topic_less_key)

end
