(* ===== verification/Routes.thy ===== *)
theory Routes
  imports PublishInfo
begin

text \<open>
  What name servers and brokers answer about routes: the response branch of
  \<open>ClientManagerImpl::resolveRoute\<close> (client/ClientManagerImpl.cpp) and the constructor of
  \<open>TopicAssignment\<close> (client/TopicAssignmentInfo.cpp).  The DNS table \<open>lookupIP\<close> is an argument; it is
  modelled in theory \<open>Naming\<close>.  Status codes are mapped to error codes by switches that share one
  contract, the locale \<open>status_mapping\<close>.
\<close>

section \<open>Protocol messages\<close>

record PbEndpoints =
  ep_scheme :: "AddressScheme option"
  ep_addresses :: "Address list"

record PbBroker =
  pbb_name :: string
  pbb_id :: int
  pbb_endpoints :: PbEndpoints

record PbPartition =
  pbp_topic :: Topic
  pbp_id :: int
  pbp_permission :: "Permission option"
  pbp_broker :: "PbBroker option"

text \<open>Reading an absent message field gives its default instance.\<close>

definition pb_broker_of :: "PbPartition \<Rightarrow> PbBroker" where
  "pb_broker_of p =
     (case pbp_broker p of
        Some b \<Rightarrow> b
      | None \<Rightarrow> \<lparr>pbb_name = '''', pbb_id = 0, pbb_endpoints = \<lparr>ep_scheme = Some IPv4, ep_addresses = []\<rparr>\<rparr>)"

section \<open>Status codes\<close>

locale status_mapping =
  fixes map_code :: "RpcCode \<Rightarrow> ErrorCode"
  assumes map_OK: "map_code OK = Success"
    and map_error: "code \<noteq> OK \<Longrightarrow> map_code code \<noteq> Success"
begin

lemma map_code_Success: "map_code code = Success \<longleftrightarrow> code = OK"
  using map_OK map_error by blast

lemma map_code_ec: "ec_bool (map_code code) \<longleftrightarrow> code \<noteq> OK"
  using map_code_Success by simp

text \<open>The completion of a call reports success exactly when the transport succeeded and the server
  answered \<open>OK\<close>.\<close>

lemma completion_Success:
  "(if \<not> ok then RequestTimeout else map_code code) = Success \<longleftrightarrow> ok \<and> code = OK"
  using map_code_Success by simp

end

text \<open>The switch of \<open>resolveRoute\<close>.\<close>

definition route_code :: "RpcCode \<Rightarrow> ErrorCode" where
  "route_code c =
     (case c of
        OK \<Rightarrow> Success
      | UNAUTHENTICATED \<Rightarrow> Unauthorized
      | PERMISSION_DENIED \<Rightarrow> Forbidden
      | INVALID_ARGUMENT \<Rightarrow> BadRequest
      | NOT_FOUND \<Rightarrow> NotFound
      | INTERNAL \<Rightarrow> InternalServerError
      | _ \<Rightarrow> NotImplemented)"

text \<open>The switch of \<open>queryAssignment\<close>.\<close>

definition assignment_code :: "RpcCode \<Rightarrow> ErrorCode" where
  "assignment_code c =
     (case c of
        OK \<Rightarrow> Success
      | UNAUTHENTICATED \<Rightarrow> Unauthorized
      | PERMISSION_DENIED \<Rightarrow> Forbidden
      | INVALID_ARGUMENT \<Rightarrow> BadRequest
      | INTERNAL \<Rightarrow> InternalServerError
      | _ \<Rightarrow> NotImplemented)"

interpretation route_status: status_mapping route_code
  by unfold_locales (auto simp: route_code_def split: RpcCode.splits)

interpretation assignment_status: status_mapping assignment_code
  by unfold_locales (auto simp: assignment_code_def split: RpcCode.splits)

section \<open>Routes\<close>

text \<open>\<open>domains\<close> is a hash set, here a list without repetition; \<open>port\<close> has no initial value.\<close>

fun resolve_domains ::
  "(string \<Rightarrow> string option) \<Rightarrow> Address list \<Rightarrow> bool \<times> string list \<times> int option \<Rightarrow> bool \<times> string list \<times> int option"
where
  "resolve_domains lookupIP [] acc = acc"
| "resolve_domains lookupIP (a # as) (prefer_domain, domains, port) =
     (case lookupIP (a_host a) of
        None \<Rightarrow> resolve_domains lookupIP as (False, domains, port)
      | Some d \<Rightarrow> resolve_domains lookupIP as (prefer_domain, List.insert d domains, Some (a_port a)))"

definition route_scheme :: "AddressScheme option \<Rightarrow> AddressScheme" where
  "route_scheme s = (case s of Some s' \<Rightarrow> s' | None \<Rightarrow> IPv4)"

definition route_permission :: "Permission option \<Rightarrow> Permission" where
  "route_permission p =
     (case p of
        Some READ \<Rightarrow> READ
      | Some WRITE \<Rightarrow> WRITE
      | Some READ_WRITE \<Rightarrow> READ_WRITE
      | _ \<Rightarrow> READ_WRITE)"

definition route_service_address :: "(string \<Rightarrow> string option) \<Rightarrow> PbEndpoints \<Rightarrow> ServiceAddress" where
  "route_service_address lookupIP ep =
     (case resolve_domains lookupIP (ep_addresses ep) (True, [], None) of
        (prefer_domain, domains, port) \<Rightarrow>
          if prefer_domain \<and> length domains = 1
          then ServiceAddress_new DOMAIN_NAME [\<lparr>a_host = hd domains, a_port = the port\<rparr>]
          else ServiceAddress_new (route_scheme (ep_scheme ep)) (ep_addresses ep))"

definition route_partition :: "(string \<Rightarrow> string option) \<Rightarrow> PbPartition \<Rightarrow> Partition" where
  "route_partition lookupIP p =
     \<lparr>p_topic = pbp_topic p,
      p_broker = \<lparr>b_name = pbb_name (pb_broker_of p), b_id = pbb_id (pb_broker_of p),
                  b_service_address = route_service_address lookupIP (pbb_endpoints (pb_broker_of p))\<rparr>,
      p_id = pbp_id p, p_permission = route_permission (pbp_permission p)\<rparr>"

text \<open>The completion handler: \<open>ok\<close> is the transport's status, and the callback's arguments are the
  result.\<close>

definition resolveRoute_completion ::
  "(string \<Rightarrow> string option) \<Rightarrow> bool \<Rightarrow> RpcCode \<Rightarrow> PbPartition list \<Rightarrow> string \<Rightarrow> ErrorCode \<times> TopicRouteData option"
where
  "resolveRoute_completion lookupIP ok code partitions debug =
     (if \<not> ok then (RequestTimeout, None)
      else if code = OK
      then (Success, Some (TopicRouteData_new (map (route_partition lookupIP) partitions) debug))
      else (route_code code, None))"

section \<open>Assignments\<close>

text \<open>An \<open>Assignment\<close> holds just a message queue and is compared by it.  \<open>scheme\<close> is the local
  variable without initial value; its first value is the argument \<open>junk\<close>.\<close>

fun assign_address ::
  "(string \<Rightarrow> string option) \<Rightarrow> AddressScheme option \<Rightarrow> Address list \<Rightarrow> string \<Rightarrow> AddressScheme \<Rightarrow> string" where
  "assign_address lookupIP ep_s [] service_address scheme = service_address"
| "assign_address lookupIP ep_s (a # as) service_address scheme =
     (let (service_address', scheme') =
        (if service_address = ''''
         then
           (case ep_s of
              Some IPv4 \<Rightarrow>
                (case lookupIP (a_host a) of
                   Some d \<Rightarrow> (''dns:'' @ d @ '':'' @ to_string (a_port a), DOMAIN_NAME)
                 | None \<Rightarrow> (''ipv4:'', IPv4))
            | Some IPv6 \<Rightarrow> (''ipv6:'', IPv6)
            | Some DOMAIN_NAME \<Rightarrow> (''dns:'' @ a_host a @ '':'' @ to_string (a_port a), DOMAIN_NAME)
            | None \<Rightarrow> (service_address, scheme))
         else (service_address @ '','', scheme))
      in if scheme' = DOMAIN_NAME then service_address'
         else assign_address lookupIP ep_s as
                (service_address' @ a_host a @ '':'' @ to_string (a_port a)) scheme')"

fun assignment_queues ::
  "(string \<Rightarrow> string option) \<Rightarrow> AddressScheme \<Rightarrow> PbPartition list \<Rightarrow> MQMessageQueue list option" where
  "assignment_queues lookupIP junk [] = Some []"
| "assignment_queues lookupIP junk (p # ps) =
     (if pbp_permission p \<noteq> Some READ \<and> pbp_permission p \<noteq> Some READ_WRITE
      then assignment_queues lookupIP junk ps
      else
        case pbp_broker p of
          None \<Rightarrow> None
        | Some b \<Rightarrow>
            if ep_addresses (pbb_endpoints b) = [] then assignment_queues lookupIP junk ps
            else map_option ((#)
              ((MQMessageQueue_new (t_name (pbp_topic p)) (pbb_name b) (pbp_id p))
                 \<lparr>mq_service_address := assign_address lookupIP (ep_scheme (pbb_endpoints b))
                    (ep_addresses (pbb_endpoints b)) '''' junk\<rparr>))
              (assignment_queues lookupIP junk ps))"

text \<open>\<open>None\<close> is the failed assertion \<open>partition.has_broker()\<close>.\<close>

definition TopicAssignment_of_response ::
  "(string \<Rightarrow> string option) \<Rightarrow> AddressScheme \<Rightarrow> RpcCode \<Rightarrow> PbPartition list \<Rightarrow> MQMessageQueue list option" where
  "TopicAssignment_of_response lookupIP junk code partitions =
     (if code \<noteq> OK then Some []
      else map_option (sort_by mq_less) (assignment_queues lookupIP junk partitions))"

definition TopicAssignment_of_list :: "MQMessageQueue list \<Rightarrow> MQMessageQueue list" where
  "TopicAssignment_of_list qs = sort_by mq_less qs"

definition assignment_eq :: "MQMessageQueue list \<Rightarrow> MQMessageQueue list \<Rightarrow> bool" where
  "assignment_eq a b \<longleftrightarrow> list_all2 mq_eq a b"

definition queryAssignment_completion :: "bool \<Rightarrow> RpcCode \<Rightarrow> ErrorCode" where
  "queryAssignment_completion ok code = (if \<not> ok then RequestTimeout else assignment_code code)"

section \<open>Lemmas\<close>

lemma resolve_domains_prefer:
  "fst (resolve_domains lookupIP as acc) \<longleftrightarrow> fst acc \<and> (\<forall>a \<in> set as. lookupIP (a_host a) \<noteq> None)"
  by (induction lookupIP as acc rule: resolve_domains.induct) (auto split: option.splits)

lemma resolve_domains_set:
  "set (fst (snd (resolve_domains lookupIP as acc))) =
     set (fst (snd acc)) \<union> {d. \<exists>a \<in> set as. lookupIP (a_host a) = Some d}"
  by (induction lookupIP as acc rule: resolve_domains.induct) (auto split: option.splits)

lemma route_service_address_plain:
  "\<exists>a \<in> set (ep_addresses ep). lookupIP (a_host a) = None \<Longrightarrow>
     route_service_address lookupIP ep = ServiceAddress_new (route_scheme (ep_scheme ep)) (ep_addresses ep)"
  using resolve_domains_prefer [of lookupIP "ep_addresses ep" "(True, [], None)"]
  by (auto simp: route_service_address_def split: prod.splits)

text \<open>When every address of a broker resolves to one and the same domain, the route keeps the
  domain.\<close>

lemma route_service_address_domain:
  assumes "ep_addresses ep \<noteq> []" "\<forall>a \<in> set (ep_addresses ep). lookupIP (a_host a) = Some d"
  shows "\<exists>port. route_service_address lookupIP ep = ServiceAddress_new DOMAIN_NAME [\<lparr>a_host = d, a_port = port\<rparr>]"
proof -
  obtain pr ds po where r: "resolve_domains lookupIP (ep_addresses ep) (True, [], None) = (pr, ds, po)"
    by (rule prod_cases3)
  have "pr" using resolve_domains_prefer [of lookupIP "ep_addresses ep" "(True, [], None)"] r assms(2) by simp
  moreover have "set ds = {d}"
    using resolve_domains_set [of lookupIP "ep_addresses ep" "(True, [], None)"] r assms
    by (cases "ep_addresses ep") auto
  moreover have "distinct (fst (snd acc)) \<Longrightarrow> distinct (fst (snd (resolve_domains lookupIP as acc)))" for as acc
    by (induction lookupIP as acc rule: resolve_domains.induct) (auto split: option.splits)
  then have "distinct ds" using r by (metis distinct.simps(1) fst_conv snd_conv)
  ultimately have "ds = [d]" by (metis distinct_singleton set_empty2 set_ConsD distinct.simps(2)
        insert_not_empty list.set_intros(1) list.exhaust singletonD list.set_intros(2))
  then show ?thesis using r \<open>pr\<close> by (auto simp: route_service_address_def)
qed

lemma sort_by_single [simp]: "sort_by lt [x] = [x]"
  by (simp add: sort_by_def)

text \<open>An assignment and a route name a broker with one address alike.\<close>

lemma assign_address_single:
  "s \<noteq> None \<Longrightarrow> (lookupIP (a_host a) = None \<or> s = Some IPv4) \<Longrightarrow>
   assign_address lookupIP s [a] '''' junk =
     sa_address (route_service_address lookupIP \<lparr>ep_scheme = s, ep_addresses = [a]\<rparr>)"
  by (cases s; cases "the s"; cases "lookupIP (a_host a)")
    (simp_all add: route_service_address_def route_scheme_def sa_address_join ServiceAddress_new_def
      host_port_def)

text \<open>What the code reads of a partition into a message queue's key, and which partitions it keeps.\<close>

definition pb_key :: "PbPartition \<Rightarrow> mq_id" where
  "pb_key p = (t_name (pbp_topic p), pbb_name (pb_broker_of p), pbp_id p)"

definition readable :: "PbPartition \<Rightarrow> bool" where
  "readable p \<longleftrightarrow> pbp_permission p \<in> {Some READ, Some READ_WRITE} \<and>
     ep_addresses (pbb_endpoints (pb_broker_of p)) \<noteq> []"

lemma assignment_queues_keys:
  "list_all (\<lambda>p. pbp_broker p \<noteq> None) ps \<Longrightarrow>
     \<exists>qs. assignment_queues lookupIP junk ps = Some qs \<and> map mq_key qs = map pb_key (filter readable ps)"
proof (induction ps)
  case (Cons p ps)
  then obtain b where "pbp_broker p = Some b" by auto
  with Cons show ?case
    by (auto simp: mq_key_def MQMessageQueue_new_def pb_broker_of_def pb_key_def readable_def)
qed simp

section \<open>Properties\<close>

text \<open>The callback of \<open>resolveRoute\<close> gets a route exactly when the call succeeded and the server
  answered \<open>OK\<close>, and an error otherwise; the route holds one partition per partition of the
  response, sorted by topic, broker and id.\<close>

theorem resolveRoute_result:
  "case resolveRoute_completion lookupIP ok code ps debug of (ec, route) \<Rightarrow>
     (ec = Success \<longleftrightarrow> ok \<and> code = OK) \<and> (route \<noteq> None \<longleftrightarrow> ec = Success) \<and>
     (case route of None \<Rightarrow> True
      | Some r \<Rightarrow> mset (rd_partitions r) = image_mset (route_partition lookupIP) (mset ps) \<and>
          sorted_wrt (\<lambda>p q. \<not> partition_less q p) (rd_partitions r))"
  by (simp add: resolveRoute_completion_def TopicRouteData_new_def partition_order.sorted_sort_by
      route_status.map_code_Success)

text \<open>A partition whose permission is \<open>NONE\<close> is taken for readable and writable: the switch of
  \<open>resolveRoute\<close> has no case for it and starts from \<open>READ_WRITE\<close>, so a producer sends to it when its
  broker is a master.\<close>

theorem none_partition_published:
  "pbp_permission p = Some NONE \<Longrightarrow> pbb_id (pb_broker_of p) = MASTER_BROKER_ID \<Longrightarrow>
   \<exists>r pi. resolveRoute_completion lookupIP True OK [p] debug = (Success, Some r) \<and>
     TopicPublishInfo_new (t_name (pbp_topic p)) r = Some pi \<and>
     pi_partition_list pi = [route_partition lookupIP p]"
  by (auto simp: resolveRoute_completion_def TopicRouteData_new_def TopicPublishInfo_new_def
      updatePublishInfo_def route_partition_def route_permission_def)

theorem none_partition_published_witness:
  "\<exists>r pi. resolveRoute_completion (\<lambda>_. None) True OK
      [\<lparr>pbp_topic = \<lparr>t_resource_namespace = '''', t_name = ''T''\<rparr>, pbp_id = 0, pbp_permission = Some NONE,
        pbp_broker = None\<rparr>] '''' = (Success, Some r) \<and>
     TopicPublishInfo_new ''T'' r = Some pi \<and> length (pi_partition_list pi) = 1"
  using none_partition_published [of "\<lparr>pbp_topic = \<lparr>t_resource_namespace = '''', t_name = ''T''\<rparr>, pbp_id = 0,
      pbp_permission = Some NONE, pbp_broker = None\<rparr>" "\<lambda>_. None" "''''"]
  by (fastforce simp: pb_broker_of_def)

text \<open>C26: The assignment a broker answers is read completely and in order: for a response \<open>OK\<close>
  whose partitions all name a broker, the assignment is the sorted list of the readable
  partitions whose broker has an address, each queue with the partition's topic, broker
  and id.\<close>

theorem assignment_exact:
  assumes "list_all (\<lambda>p. pbp_broker p \<noteq> None) ps"
  shows "\<exists>qs. TopicAssignment_of_response lookupIP junk OK ps = Some qs \<and>
    sorted_wrt (\<lambda>x y. \<not> mq_less y x) qs \<and>
    mset (map mq_key qs) = mset (map pb_key (filter readable ps))"
proof -
  from assignment_queues_keys [OF assms] obtain qs
    where qs: "assignment_queues lookupIP junk ps = Some qs"
    and keys: "map mq_key qs = map pb_key (filter readable ps)" by blast
  have "mset (map mq_key (sort_by mq_less qs)) = mset (map mq_key qs)" by simp
  then show ?thesis
    using qs keys mq_order.sorted_sort_by by (auto simp: TopicAssignment_of_response_def)
qed

theorem assignment_exact_witness:
  "\<exists>qs. TopicAssignment_of_response (\<lambda>_. None) IPv4 OK
      [\<lparr>pbp_topic = \<lparr>t_resource_namespace = '''', t_name = ''T''\<rparr>, pbp_id = 3, pbp_permission = Some READ,
        pbp_broker = Some \<lparr>pbb_name = ''b'', pbb_id = 0, pbb_endpoints =
          \<lparr>ep_scheme = Some IPv4, ep_addresses = [\<lparr>a_host = ''10.0.0.1'', a_port = 80\<rparr>]\<rparr>\<rparr>\<rparr>] = Some qs \<and>
    mset (map mq_key qs) = {#(''T'', ''b'', 3)#}"
  using assignment_exact
    [of "[\<lparr>pbp_topic = \<lparr>t_resource_namespace = '''', t_name = ''T''\<rparr>, pbp_id = 3, pbp_permission = Some READ,
        pbp_broker = Some \<lparr>pbb_name = ''b'', pbb_id = 0, pbb_endpoints =
          \<lparr>ep_scheme = Some IPv4, ep_addresses = [\<lparr>a_host = ''10.0.0.1'', a_port = 80\<rparr>]\<rparr>\<rparr>\<rparr>]" "\<lambda>_. None" IPv4]
  by (auto simp: pb_broker_of_def readable_def pb_key_def)

end
