(* ===== verification/Naming.thy ===== *)
theory Naming
  imports Routes "HOL-Library.AList"
begin

text \<open>
  From configuration strings to gRPC addresses: the address patterns (base/InetAddress.cpp), the DNS
  cache (base/DnsResolver.cpp), \<open>NamingScheme::buildAddress\<close>, the static and the dynamic name server
  resolver (rocketmq/), the HTTP lookup of name servers (base/TopAddressing.cpp, base/HostInfo.cpp,
  base/HttpClientImpl.cpp) and \<open>ClientImpl::setAccessPoint\<close>, which reads the address back.  RE2, Abseil,
  \<open>getaddrinfo\<close>, \<open>getenv\<close> and the HTTP library are parameters; \<open>iter\<close> is the iteration order of a hash map.
\<close>

section \<open>Patterns\<close>

definition digit09 :: rexp where "digit09 = Range (CHR ''0'') (CHR ''9'')"

definition octet :: rexp where
  "octet =
     Alt digit09
      (Alt (Seq (Range (CHR ''1'') (CHR ''9'')) digit09)
      (Alt (Seq (Lit (CHR ''1'')) (Seq digit09 digit09))
      (Alt (Seq (Lit (CHR ''2'')) (Seq (Range (CHR ''0'') (CHR ''4'')) digit09))
           (Seq (Lit (CHR ''2'')) (Seq (Lit (CHR ''5'')) (Range (CHR ''0'') (CHR ''5'')))))))"

definition IPv4Regex :: rexp where
  "IPv4Regex = Seq (rep_times 3 (Seq octet (Lit (CHR ''.'')))) octet"

definition hex_char :: "char \<Rightarrow> bool" where
  "hex_char c \<longleftrightarrow> in_range (CHR ''0'') (CHR ''9'') c \<or> in_range (CHR ''a'') (CHR ''f'') c \<or>
     in_range (CHR ''A'') (CHR ''F'') c"

definition IPv6Regex :: rexp where
  "IPv6Regex = Seq (rep_times 7 (Seq (Rep 1 4 (Cls hex_char)) (Lit (CHR '':'')))) (Rep 1 4 (Cls hex_char))"

definition isIPv4 :: "(rexp \<Rightarrow> string \<Rightarrow> bool) \<Rightarrow> string \<Rightarrow> bool" where
  "isIPv4 FullMatch address = FullMatch IPv4Regex address"

definition isIPv6 :: "(rexp \<Rightarrow> string \<Rightarrow> bool) \<Rightarrow> string \<Rightarrow> bool" where
  "isIPv6 FullMatch address = FullMatch IPv6Regex address"

section \<open>The DNS cache\<close>

text \<open>\<open>std::string::rfind\<close> and the two \<open>substr\<close> calls after it.\<close>

definition rsplit_at :: "char \<Rightarrow> string \<Rightarrow> (string \<times> string) option" where
  "rsplit_at c s =
     (if c \<in> set s
      then Some (rev (tl (dropWhile (\<lambda>x. x \<noteq> c) (rev s))), rev (takeWhile (\<lambda>x. x \<noteq> c) (rev s)))
      else None)"

type_synonym dns_cache = "string \<rightharpoonup> string"

text \<open>\<open>getaddrinfo\<close> gives the printed addresses, or fails.  \<open>insert\<close> keeps an entry that is there.\<close>

definition dns_resolve_host ::
  "(string \<Rightarrow> string \<Rightarrow> string list option) \<Rightarrow> string \<Rightarrow> string \<Rightarrow> dns_cache \<Rightarrow> dns_cache" where
  "dns_resolve_host getaddrinfo host port cache =
     (case getaddrinfo host port of
        None \<Rightarrow> cache
      | Some ips \<Rightarrow> fold (\<lambda>ip m. if m ip \<noteq> None then m else m(ip \<mapsto> host)) ips cache)"

fun dns_resolve ::
  "(rexp \<Rightarrow> string \<Rightarrow> bool) \<Rightarrow> (string \<Rightarrow> string \<Rightarrow> string list option) \<Rightarrow> string list \<Rightarrow> dns_cache \<Rightarrow> dns_cache"
where
  "dns_resolve FullMatch getaddrinfo [] cache = cache"
| "dns_resolve FullMatch getaddrinfo (segment # segments) cache =
     dns_resolve FullMatch getaddrinfo segments
       (case rsplit_at (CHR '':'') segment of
          None \<Rightarrow> cache
        | Some (host, port) \<Rightarrow>
            if \<not> isIPv4 FullMatch host \<and> \<not> isIPv6 FullMatch host
            then dns_resolve_host getaddrinfo host port cache else cache)"

definition lookupIP :: "dns_cache \<Rightarrow> string \<Rightarrow> string option" where
  "lookupIP cache ip = (if ip \<in> dom cache then cache ip else None)"

section \<open>Naming scheme\<close>

text \<open>The loop of \<open>buildAddress\<close> ends early with a domain name (\<open>Inl\<close>) or with the two hash maps.\<close>

type_synonym port_map = "(string \<times> nat) list"

fun build_loop ::
  "absl_strings \<Rightarrow> (rexp \<Rightarrow> string \<Rightarrow> bool) \<Rightarrow> string list \<Rightarrow> port_map \<Rightarrow> port_map \<Rightarrow> string + port_map \<times> port_map"
where
  "build_loop A FullMatch [] ipv4 ipv6 = Inr (ipv4, ipv6)"
| "build_loop A FullMatch (segment # segments) ipv4 ipv6 =
     (case StrSplit A segment (CHR '':'') of
        [host, port] \<Rightarrow>
          if isIPv4 FullMatch host
          then build_loop A FullMatch segments
                 (case SimpleAtoiU A port of Some p \<Rightarrow> AList.update host p ipv4 | None \<Rightarrow> ipv4) ipv6
          else if isIPv6 FullMatch host
          then build_loop A FullMatch segments ipv4
                 (case SimpleAtoiU A port of Some p \<Rightarrow> AList.update host p ipv6 | None \<Rightarrow> ipv6)
          else Inl (StrJoin A [''dns'', host, port] '':'')
      | _ \<Rightarrow> build_loop A FullMatch segments ipv4 ipv6)"

definition pair_format :: "string \<times> nat \<Rightarrow> string" where
  "pair_format kv = fst kv @ '':'' @ nat_digits (snd kv)"

definition buildAddress ::
  "absl_strings \<Rightarrow> (rexp \<Rightarrow> string \<Rightarrow> bool) \<Rightarrow> (port_map \<Rightarrow> port_map) \<Rightarrow> string list \<Rightarrow> string" where
  "buildAddress A FullMatch iter segments =
     (case build_loop A FullMatch segments [] [] of
        Inl domain \<Rightarrow> domain
      | Inr (ipv4, ipv6) \<Rightarrow>
          if ipv4 \<noteq> [] then ''ipv4:'' @ StrJoin A (map pair_format (iter ipv4)) '',''
          else if ipv6 \<noteq> [] then ''ipv6:'' @ StrJoin A (map pair_format (iter ipv4)) '',''
          else '''')"

section \<open>Access point\<close>

definition to_uint16 :: "int \<Rightarrow> int" where
  "to_uint16 i = uint (word_of_int i :: 16 word)"

fun parse_pairs :: "string list \<Rightarrow> stoi_error + (string \<times> int) list" where
  "parse_pairs [] = Inr []"
| "parse_pairs (item # items) =
     (case rsplit_at (CHR '':'') item of
        None \<Rightarrow> parse_pairs items
      | Some (host, port) \<Rightarrow>
          (case stoi port of
             Inl e \<Rightarrow> Inl e
           | Inr p \<Rightarrow>
               (case parse_pairs items of
                  Inl e \<Rightarrow> Inl e
                | Inr ps \<Rightarrow> Inr ((host, to_uint16 p) # ps))))"

definition access_scheme :: "absl_strings \<Rightarrow> string \<Rightarrow> AddressScheme option \<times> string" where
  "access_scheme A naming_address =
     (if StartsWith A naming_address ''dns:''
      then (Some DOMAIN_NAME, StripPrefix A naming_address ''dns:'')
      else if StartsWith A naming_address ''ipv4:''
      then (Some IPv4, StripPrefix A naming_address ''ipv4:'')
      else if StartsWith A naming_address ''ipv6:''
      then (Some IPv6, StripPrefix A naming_address ''ipv6:'')
      else (None, ''''))"

text \<open>An exception of \<open>std::stoi\<close> leaves the function.\<close>

definition setAccessPoint :: "absl_strings \<Rightarrow> string \<Rightarrow> PbEndpoints \<Rightarrow> stoi_error + PbEndpoints" where
  "setAccessPoint A naming_address endpoints =
     (let (scheme, csv) = access_scheme A naming_address;
          endpoints' = (case scheme of None \<Rightarrow> endpoints | Some s \<Rightarrow> endpoints\<lparr>ep_scheme := Some s\<rparr>)
      in case parse_pairs (StrSplit A csv (CHR '','')) of
           Inl e \<Rightarrow> Inl e
         | Inr pairs \<Rightarrow>
             Inr (endpoints'\<lparr>ep_addresses := ep_addresses endpoints' @
               map (\<lambda>(h, p). \<lparr>a_host = h, a_port = p\<rparr>) pairs\<rparr>))"

section \<open>Host information and the HTTP lookup\<close>

record host_info =
  hi_site :: string
  hi_unit :: string
  hi_app :: string
  hi_stage :: string

definition getEnv :: "(string \<Rightarrow> string option) \<Rightarrow> string \<Rightarrow> string \<Rightarrow> string" where
  "getEnv getenv env holder =
     (if env = '''' then holder else case getenv env of None \<Rightarrow> holder | Some v \<Rightarrow> v)"

definition HostInfo_new :: "(string \<Rightarrow> string option) \<Rightarrow> host_info" where
  "HostInfo_new getenv =
     \<lparr>hi_site = getEnv getenv ''SIGMA_APP_SITE'' '''', hi_unit = getEnv getenv ''SIGMA_APP_UNIT'' '''',
      hi_app = getEnv getenv ''SIGMA_APP_NAME'' '''', hi_stage = getEnv getenv ''SIGMA_APP_STAGE'' ''''\<rparr>"

definition hasHostInfo :: "host_info \<Rightarrow> bool" where
  "hasHostInfo hi \<longleftrightarrow> hi_unit hi \<noteq> '''' \<and> hi_stage hi \<noteq> ''''"

definition appendLabel :: "absl_strings \<Rightarrow> string \<Rightarrow> string \<Rightarrow> string \<Rightarrow> string" where
  "appendLabel A query key v =
     (if v = '''' then query
      else if EndsWith A query ''='' then query @ key @ '':'' @ v
      else query @ '','' @ key @ '':'' @ v)"

definition queryString :: "absl_strings \<Rightarrow> host_info \<Rightarrow> string" where
  "queryString A hi =
     (if \<not> hasHostInfo hi then ''''
      else appendLabel A (appendLabel A (appendLabel A (appendLabel A ''labels=''
             ''site'' (hi_site hi)) ''unit'' (hi_unit hi)) ''app'' (hi_app hi)) ''stage'' (hi_stage hi))"

text \<open>The path that \<open>fetchNameServerAddresses\<close> requests, and what its callback gets.\<close>

definition nsaddr_query :: "absl_strings \<Rightarrow> host_info \<Rightarrow> string \<Rightarrow> string" where
  "nsaddr_query A hi path =
     (if StrContains A path (CHR ''?'') then path @ ''&'' else path @ ''?'') @
     (if hasHostInfo hi then queryString A hi else ''nofix=1'')"

definition fetch_callback :: "absl_strings \<Rightarrow> int \<Rightarrow> string \<Rightarrow> bool \<times> string list" where
  "fetch_callback A code body =
     (if code = 200 then (True, StrSplit A body (CHR '';'')) else (False, []))"

datatype HttpProtocol = HTTP | HTTPS

text \<open>The HTTP client of the library for a base URL, when it is valid, maps a path to a status and a
  body; \<open>None\<close> is a null result, which \<open>get\<close> dereferences.\<close>

definition http_get ::
  "(string \<Rightarrow> (string \<Rightarrow> (int \<times> string) option) option) \<Rightarrow> HttpProtocol \<Rightarrow> string \<Rightarrow> int \<Rightarrow> string \<Rightarrow>
   (int \<times> string) option" where
  "http_get client protocol host port path =
     (let key = (case protocol of HTTP \<Rightarrow> ''http://'' | HTTPS \<Rightarrow> ''https://'') @ host @ '':'' @ to_string port
      in case client key of
           None \<Rightarrow> Some (400, '''')
         | Some Get \<Rightarrow> Get path)"

section \<open>Resolvers\<close>

definition StaticNameServerResolver_new ::
  "absl_strings \<Rightarrow> (rexp \<Rightarrow> string \<Rightarrow> bool) \<Rightarrow> (string \<Rightarrow> string \<Rightarrow> string list option) \<Rightarrow>
   (port_map \<Rightarrow> port_map) \<Rightarrow> string \<Rightarrow> dns_cache \<Rightarrow> string \<times> dns_cache" where
  "StaticNameServerResolver_new A FullMatch getaddrinfo iter name_server_list cache =
     (let segments = StrSplit A name_server_list (CHR '';'')
      in (buildAddress A FullMatch iter segments, dns_resolve FullMatch getaddrinfo segments cache))"

record dynamic_resolver =
  dr_ssl :: bool
  dr_host :: string
  dr_port :: int
  dr_path :: string
  dr_name_server_list :: "string list"

text \<open>\<open>None\<close> is the call of \<open>abort()\<close>.\<close>

definition DynamicNameServerResolver_new :: "absl_strings \<Rightarrow> string \<Rightarrow> dynamic_resolver option" where
  "DynamicNameServerResolver_new A endpoint =
     (let ssl = StartsWith A endpoint ''https://'';
          remains = (if ssl then StripPrefix A endpoint ''https://'' else StripPrefix A endpoint ''http://'');
          port = (if ssl then 443 else 80)
      in if StrContains A remains (CHR '':'')
         then
           let host = hd (StrSplit A remains (CHR '':''));
               remains1 = StripPrefix A (StripPrefix A remains host) '':'';
               segment = hd (StrSplit A remains1 (CHR ''/''))
           in case SimpleAtoi A segment of
                None \<Rightarrow> None
              | Some p \<Rightarrow>
                  Some \<lparr>dr_ssl = ssl, dr_host = host, dr_port = p,
                        dr_path = StripPrefix A remains1 segment, dr_name_server_list = []\<rparr>
         else
           let host = hd (StrSplit A remains (CHR ''/''))
           in Some \<lparr>dr_ssl = ssl, dr_host = host, dr_port = port,
                    dr_path = StripPrefix A remains host, dr_name_server_list = []\<rparr>)"

definition onNameServerListFetched ::
  "(rexp \<Rightarrow> string \<Rightarrow> bool) \<Rightarrow> (string \<Rightarrow> string \<Rightarrow> string list option) \<Rightarrow> string list \<Rightarrow>
   dynamic_resolver \<times> dns_cache \<Rightarrow> dynamic_resolver \<times> dns_cache" where
  "onNameServerListFetched FullMatch getaddrinfo servers rc =
     (case rc of (r, cache) \<Rightarrow>
        if servers \<noteq> [] \<and> dr_name_server_list r \<noteq> servers
        then (r\<lparr>dr_name_server_list := servers\<rparr>, dns_resolve FullMatch getaddrinfo servers cache)
        else rc)"

text \<open>\<open>fetch\<close>: the lookup always uses plain HTTP; \<open>alive\<close> is the outcome of locking the weak pointer.\<close>

definition dynamic_fetch ::
  "absl_strings \<Rightarrow> (rexp \<Rightarrow> string \<Rightarrow> bool) \<Rightarrow> (string \<Rightarrow> string \<Rightarrow> string list option) \<Rightarrow>
   (string \<Rightarrow> (string \<Rightarrow> (int \<times> string) option) option) \<Rightarrow> host_info \<Rightarrow> bool \<Rightarrow>
   dynamic_resolver \<times> dns_cache \<Rightarrow> (dynamic_resolver \<times> dns_cache) option" where
  "dynamic_fetch A FullMatch getaddrinfo client hi alive rc =
     (case http_get client HTTP (dr_host (fst rc)) (to_uint16 (dr_port (fst rc))) (nsaddr_query A hi (dr_path (fst rc))) of
        None \<Rightarrow> None
      | Some (code, body) \<Rightarrow>
          (case fetch_callback A code body of
             (success, servers) \<Rightarrow>
               if success \<and> servers \<noteq> [] \<and> alive
               then Some (onNameServerListFetched FullMatch getaddrinfo servers rc)
               else Some rc))"

definition dynamic_resolve ::
  "absl_strings \<Rightarrow> (rexp \<Rightarrow> string \<Rightarrow> bool) \<Rightarrow> (string \<Rightarrow> string \<Rightarrow> string list option) \<Rightarrow>
   (port_map \<Rightarrow> port_map) \<Rightarrow> (string \<Rightarrow> (string \<Rightarrow> (int \<times> string) option) option) \<Rightarrow> host_info \<Rightarrow>
   dynamic_resolver \<times> dns_cache \<Rightarrow> (string \<times> dynamic_resolver \<times> dns_cache) option" where
  "dynamic_resolve A FullMatch getaddrinfo iter client hi rc =
     map_option (\<lambda>rc'. (buildAddress A FullMatch iter (dr_name_server_list (fst rc')), rc'))
       (if dr_name_server_list (fst rc) = []
        then dynamic_fetch A FullMatch getaddrinfo client hi True rc else Some rc)"

section \<open>Lemmas: patterns\<close>

lemma in_range_digits:
  assumes "a < 10" "b < 10"
  shows "in_range (digit_char a) (digit_char b) c \<longleftrightarrow> (\<exists>d. a \<le> d \<and> d \<le> b \<and> c = digit_char d)"
proof
  assume r: "in_range (digit_char a) (digit_char b) c"
  then have "a \<le> of_char c - 48" "of_char c - 48 \<le> b" "48 \<le> (of_char c :: nat)"
    using assms by (auto simp: in_range_def)
  moreover from this assms have "c = digit_char (of_char c - 48)"
    by (simp add: digit_char_def)
  ultimately show "\<exists>d. a \<le> d \<and> d \<le> b \<and> c = digit_char d" by blast
next
  assume "\<exists>d. a \<le> d \<and> d \<le> b \<and> c = digit_char d"
  then show "in_range (digit_char a) (digit_char b) c"
    using assms by (auto simp: in_range_def)
qed

lemma digit_chars:
  "CHR ''0'' = digit_char 0" "CHR ''1'' = digit_char 1" "CHR ''2'' = digit_char 2"
  "CHR ''4'' = digit_char 4" "CHR ''5'' = digit_char 5" "CHR ''9'' = digit_char 9"
  by (simp_all add: digit_char_def char_of_def bit_0)

lemma lang_digit09: "lang digit09 = {[digit_char d] | d. d \<le> 9}"
  unfolding digit09_def Range_def digit_chars by (auto simp: in_range_digits)

lemma nat_digits_snoc: "0 < m \<Longrightarrow> b \<le> 9 \<Longrightarrow> nat_digits (10 * m + b) = nat_digits m @ [digit_char b]"
  by (subst nat_digits.simps) simp

lemma nat_digits_single: "d \<le> 9 \<Longrightarrow> nat_digits d = [digit_char d]"
  by (subst nat_digits.simps) simp

lemma octet_cases:
  "s \<in> lang octet \<longleftrightarrow>
     (\<exists>d \<le> 9. s = [digit_char d]) \<or>
     (\<exists>a b. 1 \<le> a \<and> a \<le> 9 \<and> b \<le> 9 \<and> s = [digit_char a, digit_char b]) \<or>
     (\<exists>a b. a \<le> 9 \<and> b \<le> 9 \<and> s = [digit_char 1, digit_char a, digit_char b]) \<or>
     (\<exists>a b. a \<le> 4 \<and> b \<le> 9 \<and> s = [digit_char 2, digit_char a, digit_char b]) \<or>
     (\<exists>b \<le> 5. s = [digit_char 2, digit_char 5, digit_char b])"
proof -
  have seq: "lang (Seq (Cls P) r) = {c # v | c v. P c \<and> v \<in> lang r}" for P r
    by (auto simp del: lang.simps(5)) (auto simp: Seq_Cls_Cons)
  show ?thesis
    unfolding octet_def digit09_def Lit_def Range_def digit_chars lang.simps(4) seq lang.simps(3)
    by (auto simp: in_range_digits)
qed

text \<open>Numbers below 256 by their decimal digits.\<close>

lemma below_256:
  fixes n :: nat
  shows "n < 256 \<longleftrightarrow> n \<le> 9 \<or> (\<exists>a b. 1 \<le> a \<and> a \<le> 9 \<and> b \<le> 9 \<and> n = 10 * a + b) \<or>
     (\<exists>a b. a \<le> 9 \<and> b \<le> 9 \<and> n = 100 + 10 * a + b) \<or>
     (\<exists>a b. a \<le> 4 \<and> b \<le> 9 \<and> n = 200 + 10 * a + b) \<or> (\<exists>b \<le> 5. n = 250 + b)" (is "_ \<longleftrightarrow> ?digits")
proof
  assume n: "n < 256"
  have split: "n = 10 * (n div 10) + n mod 10" "n mod 10 \<le> 9" by simp_all
  consider "n \<le> 9" | "10 \<le> n" "n < 100" | "100 \<le> n" "n < 200" | "200 \<le> n" "n < 250" | "250 \<le> n"
    by linarith
  then show ?digits
  proof cases
    case 2
    then have "1 \<le> n div 10" "n div 10 \<le> 9" using split by linarith+
    with split show ?thesis by blast
  next
    case 3
    then have q: "10 \<le> n div 10" "n div 10 \<le> 19" using split by linarith+
    then obtain a where "n div 10 = 10 + a" using le_Suc_ex by blast
    then have "a \<le> 9" "n = 100 + 10 * a + n mod 10" using split q by linarith+
    with split(2) show ?thesis by blast
  next
    case 4
    then have q: "20 \<le> n div 10" "n div 10 \<le> 24" using split by linarith+
    then obtain a where "n div 10 = 20 + a" using le_Suc_ex by blast
    then have "a \<le> 4" "n = 200 + 10 * a + n mod 10" using split q by linarith+
    with split(2) show ?thesis by blast
  next
    case 5
    then have "n - 250 \<le> 5" "n = 250 + (n - 250)" using n by linarith+
    then show ?thesis by blast
  qed blast
qed auto

lemma nat_digits_23:
  "a \<le> 9 \<Longrightarrow> b \<le> 9 \<Longrightarrow> 1 \<le> a \<Longrightarrow> nat_digits (10 * a + b) = [digit_char a, digit_char b]"
  "a \<le> 9 \<Longrightarrow> b \<le> 9 \<Longrightarrow> nat_digits (100 + 10 * a + b) = [digit_char 1, digit_char a, digit_char b]"
  "a \<le> 9 \<Longrightarrow> b \<le> 9 \<Longrightarrow> nat_digits (200 + 10 * a + b) = [digit_char 2, digit_char a, digit_char b]"
  "b \<le> 9 \<Longrightarrow> nat_digits (250 + b) = [digit_char 2, digit_char 5, digit_char b]"
  using nat_digits_snoc [of 1 a] nat_digits_snoc [of 2 a] nat_digits_snoc [of 2 5]
    nat_digits_snoc [of "10 + a" b] nat_digits_snoc [of "20 + a" b] nat_digits_snoc [of 25 b]
  by (simp_all add: nat_digits_snoc nat_digits_single)

lemma lang_octet: "s \<in> lang octet \<longleftrightarrow> (\<exists>n < 256. s = nat_digits n)"
proof
  assume "s \<in> lang octet"
  then consider d where "d \<le> 9" "s = nat_digits d"
    | a b where "1 \<le> a" "a \<le> 9" "b \<le> 9" "s = nat_digits (10 * a + b)"
    | a b where "a \<le> 9" "b \<le> 9" "s = nat_digits (100 + 10 * a + b)"
    | a b where "a \<le> 4" "b \<le> 9" "s = nat_digits (200 + 10 * a + b)"
    | b where "b \<le> 5" "s = nat_digits (250 + b)"
    unfolding octet_cases by (auto simp: nat_digits_single nat_digits_23 simp del: One_nat_def)
  then show "\<exists>n < 256. s = nat_digits n"
  proof cases
    case (1 d)
    then show ?thesis by (intro exI [of _ d]) simp
  next
    case (2 a b)
    then show ?thesis by (intro exI [of _ "10 * a + b"]) simp
  next
    case (3 a b)
    then show ?thesis by (intro exI [of _ "100 + 10 * a + b"]) simp
  next
    case (4 a b)
    then show ?thesis by (intro exI [of _ "200 + 10 * a + b"]) simp
  next
    case (5 b)
    then show ?thesis by (intro exI [of _ "250 + b"]) simp
  qed
next
  assume "\<exists>n < 256. s = nat_digits n"
  then obtain n where n: "n < 256" "s = nat_digits n" by blast
  from n(1) [unfolded below_256] show "s \<in> lang octet"
    unfolding octet_cases n(2)
    by (elim exE conjE disjE) (auto simp: nat_digits_single nat_digits_23 simp del: One_nat_def)
qed

lemma octet_dot: "s \<in> lang (Seq octet (Lit (CHR ''.''))) \<longleftrightarrow> (\<exists>n < 256. s = nat_digits n @ ''.'')"
  by (auto simp: lang_octet lang_Lit)

lemma IPv4Regex_lang:
  "s \<in> lang IPv4Regex \<longleftrightarrow> (\<exists>a < 256. \<exists>b < 256. \<exists>c < 256. \<exists>d < 256.
     s = nat_digits a @ ''.'' @ nat_digits b @ ''.'' @ nat_digits c @ ''.'' @ nat_digits d)"
proof -
  define dot where "dot = Seq octet (Lit (CHR ''.''))"
  have "s \<in> lang IPv4Regex \<longleftrightarrow> (\<exists>u v w x. s = u @ v @ w @ x \<and> u \<in> lang dot \<and> v \<in> lang dot \<and>
      w \<in> lang dot \<and> x \<in> lang octet)"
    unfolding IPv4Regex_def numeral_3_eq_3 rep_times.simps dot_def [symmetric] lang.simps(5) lang.simps(2)
    by (simp, safe) (metis append.assoc)+
  also have "\<dots> \<longleftrightarrow> (\<exists>a < 256. \<exists>b < 256. \<exists>c < 256. \<exists>d < 256.
      s = nat_digits a @ ''.'' @ nat_digits b @ ''.'' @ nat_digits c @ ''.'' @ nat_digits d)"
    unfolding dot_def octet_dot lang_octet by (safe; simp) (metis append_assoc append_Cons append_Nil)+
  finally show ?thesis .
qed

lemma list_all_digit_no:
  "list_all is_digit s \<Longrightarrow> \<not> is_digit c \<Longrightarrow> c \<notin> set s"
  by (auto simp: list_all_iff)

lemma IPv4_no_special:
  assumes "s \<in> lang IPv4Regex"
  shows "CHR '':'' \<notin> set s" "CHR '','' \<notin> set s"
proof -
  have "CHR '':'' \<notin> set (nat_digits n)" "CHR '','' \<notin> set (nat_digits n)" for n
    using list_all_digit_no [OF nat_digits_digits] by (auto simp: is_digit_def)
  then show "CHR '':'' \<notin> set s" "CHR '','' \<notin> set s"
    using assms by (auto simp: IPv4Regex_lang)
qed

lemma IPv6_has_colon: "s \<in> lang IPv6Regex \<Longrightarrow> CHR '':'' \<in> set s"
proof -
  have "lang (rep_times (Suc n) (Seq r (Lit c))) \<subseteq> {s. c \<in> set s}" for n r c
    by (auto simp: lang_Lit)
  then have "u \<in> lang (rep_times 7 (Seq (Rep 1 4 (Cls hex_char)) (Lit (CHR '':'')))) \<Longrightarrow> CHR '':'' \<in> set u" for u
    by (metis (no_types, lifting) eval_nat_numeral(3) mem_Collect_eq subsetD)
  then show "s \<in> lang IPv6Regex \<Longrightarrow> CHR '':'' \<in> set s"
    unfolding IPv6Regex_def lang.simps(5) by auto
qed

section \<open>Lemmas: addresses\<close>

lemma rsplit_at_append: "c \<notin> set d \<Longrightarrow> rsplit_at c (h @ c # d) = Some (h, d)"
  by (auto simp: rsplit_at_def takeWhile_append dropWhile_append)

lemma digits_no_colon: "CHR '':'' \<notin> set (nat_digits n)" "CHR '','' \<notin> set (nat_digits n)"
  using list_all_digit_no [OF nat_digits_digits] by (auto simp: is_digit_def)

lemma to_uint16_small: "n < 2 ^ 16 \<Longrightarrow> to_uint16 (int n) = int n"
  by (simp add: to_uint16_def unsigned_of_nat take_bit_nat_eq_self)

lemma parse_pairs_items:
  "\<forall>(h, p) \<in> set items. p < 2 ^ 16 \<Longrightarrow>
     parse_pairs (map pair_format items) = Inr (map (\<lambda>(h, p). (h, int p)) items)"
proof (induction items)
  case (Cons item items)
  obtain h p where item: "item = (h, p)" by (rule prod.exhaust)
  have "rsplit_at (CHR '':'') (pair_format item) = Some (h, nat_digits p)"
    using rsplit_at_append [OF digits_no_colon(1)] by (simp add: pair_format_def item)
  with Cons item show ?case by (simp add: stoi_nat_digits to_uint16_small)
qed simp

lemma alist_update_new: "k \<notin> fst ` set al \<Longrightarrow> AList.update k v al = al @ [(k, v)]"
  by (induction al) auto

lemma split_pair:
  "absl_ok A \<Longrightarrow> CHR '':'' \<notin> set h \<Longrightarrow> StrSplit A (pair_format (h, p)) (CHR '':'') = [h, nat_digits p]"
  using split_on_join [of "[h, nat_digits p]" "CHR '':''"] digits_no_colon
  by (simp add: absl_StrSplit pair_format_def)

lemma build_loop_ipv4:
  assumes "absl_ok A" "re2 FullMatch"
    and "\<forall>(h, p) \<in> set items. isIPv4 FullMatch h \<and> p < 2 ^ 32"
    and "distinct (map fst (acc @ items))"
  shows "build_loop A FullMatch (map pair_format items) acc ipv6 = Inr (acc @ items, ipv6)"
  using assms(3,4)
proof (induction items arbitrary: acc)
  case (Cons item items)
  obtain h p where item: "item = (h, p)" by (rule prod.exhaust)
  have v4: "isIPv4 FullMatch h" and p: "p < 2 ^ 32" using Cons.prems(1) item by auto
  then have "CHR '':'' \<notin> set h"
    using re2.FullMatch_lang [OF assms(2)] IPv4_no_special(1) by (simp add: isIPv4_def)
  then have split: "StrSplit A (pair_format (h, p)) (CHR '':'') = [h, nat_digits p]"
    by (rule split_pair [OF assms(1)])
  have "AList.update h p acc = acc @ [(h, p)]"
    using Cons.prems(2) by (intro alist_update_new) (auto simp: item)
  with Cons.IH [of "acc @ [(h, p)]"] Cons.prems show ?case
    using v4 p by (simp add: split absl_SimpleAtoiU [OF assms(1)] item)
qed simp

lemma buildAddress_ipv4:
  assumes "absl_ok A" "re2 FullMatch" "items \<noteq> []"
    and "\<forall>(h, p) \<in> set items. isIPv4 FullMatch h \<and> p < 2 ^ 32" "distinct (map fst items)"
  shows "buildAddress A FullMatch iter (map pair_format items) =
    ''ipv4:'' @ join '','' (map pair_format (iter items))"
  using build_loop_ipv4 [OF assms(1,2,4), of "[]" "[]"] assms(1,3,5)
  by (simp add: buildAddress_def absl_StrJoin)

lemma setAccessPoint_ipv4:
  assumes "absl_ok A" "items \<noteq> []"
    and "\<forall>(h, p) \<in> set items. CHR '','' \<notin> set h \<and> p < 2 ^ 16"
  shows "setAccessPoint A (''ipv4:'' @ join '','' (map pair_format items)) ep =
    Inr (ep\<lparr>ep_scheme := Some IPv4, ep_addresses := ep_addresses ep @
      map (\<lambda>(h, p). \<lparr>a_host = h, a_port = int p\<rparr>) items\<rparr>)"
proof -
  have "split_on (CHR '','') (join '','' (map pair_format items)) = map pair_format items"
    using assms(2,3) digits_no_colon(2) by (intro split_on_join) (auto simp: pair_format_def)
  moreover have "parse_pairs (map pair_format items) = Inr (map (\<lambda>(h, p). (h, int p)) items)"
    using assms(3) by (intro parse_pairs_items) auto
  ultimately show ?thesis
    by (simp add: setAccessPoint_def access_scheme_def absl_StartsWith [OF assms(1)]
        absl_StripPrefix [OF assms(1)] absl_StrSplit [OF assms(1)] comp_def case_prod_unfold Let_def)
qed

text \<open>Whatever the configuration, the result is empty, a domain or a list of IPv4 addresses.\<close>

lemma build_loop_no_ipv6:
  assumes "absl_ok A" "re2 FullMatch"
  shows "case build_loop A FullMatch segments ipv4 [] of
      Inl d \<Rightarrow> starts_with d ''dns:'' | Inr (_, ipv6) \<Rightarrow> ipv6 = []"
proof (induction segments arbitrary: ipv4)
  case (Cons segment segments)
  show ?case
  proof (cases "\<exists>host port. StrSplit A segment (CHR '':'') = [host, port]")
    case True
    then obtain host port where s: "StrSplit A segment (CHR '':'') = [host, port]" by blast
    have "host \<in> set (split_on (CHR '':'') segment)" using s absl_StrSplit [OF assms(1)] by simp
    then have "CHR '':'' \<notin> set host" by (rule split_on_no_sep)
    then have "\<not> isIPv6 FullMatch host"
      using re2.FullMatch_lang [OF assms(2)] IPv6_has_colon by (auto simp: isIPv6_def)
    then show ?thesis using s Cons.IH by (simp add: absl_StrJoin [OF assms(1)])
  next
    case False
    then have "build_loop A FullMatch (segment # segments) ipv4 [] = build_loop A FullMatch segments ipv4 []"
      by (auto split: list.splits)
    then show ?thesis using Cons.IH by simp
  qed
qed simp

lemma buildAddress_forms:
  assumes "absl_ok A" "re2 FullMatch"
  shows "buildAddress A FullMatch iter segments = '''' \<or>
    starts_with (buildAddress A FullMatch iter segments) ''dns:'' \<or>
    starts_with (buildAddress A FullMatch iter segments) ''ipv4:''"
  using build_loop_no_ipv6 [OF assms, of segments "[]"]
  by (auto simp: buildAddress_def split: sum.splits)

section \<open>What the client relies on\<close>

text \<open>The interface \<open>NameServerResolver\<close>: \<open>resolve\<close> returns a gRPC address that is empty or names a domain
  or IPv4 addresses.  \<open>None\<close> is a call that does not return.\<close>

locale name_server_resolver =
  fixes A :: absl_strings
    and resolve :: "'s \<Rightarrow> (string \<times> 's) option"
  assumes absl: "absl_ok A"
    and forms: "resolve s = Some (addr, s') \<Longrightarrow>
      addr = '''' \<or> starts_with addr ''dns:'' \<or> starts_with addr ''ipv4:''"
begin

lemma access_scheme_known:
  "resolve s = Some (addr, s') \<Longrightarrow> addr \<noteq> '''' \<Longrightarrow>
     fst (access_scheme A addr) = Some DOMAIN_NAME \<or> fst (access_scheme A addr) = Some IPv4"
  using forms by (auto simp: access_scheme_def absl_StartsWith [OF absl])

lemma access_point_unresolved:
  "resolve s = Some ('''', s') \<Longrightarrow> setAccessPoint A '''' ep = Inr ep"
  by (simp add: setAccessPoint_def access_scheme_def absl_StartsWith [OF absl] absl_StrSplit [OF absl]
      rsplit_at_def Let_def)

end

lemma static_resolver_contract:
  "absl_ok A \<Longrightarrow> re2 FullMatch \<Longrightarrow>
     name_server_resolver A (\<lambda>servers. Some (fst (StaticNameServerResolver_new A FullMatch getaddrinfo iter servers cache), servers))"
  by unfold_locales (auto simp: StaticNameServerResolver_new_def Let_def dest: buildAddress_forms)

lemma dynamic_resolver_contract:
  "absl_ok A \<Longrightarrow> re2 FullMatch \<Longrightarrow>
     name_server_resolver A (dynamic_resolve A FullMatch getaddrinfo iter client hi)"
  by unfold_locales (auto simp: dynamic_resolve_def dest: buildAddress_forms split: if_splits)

interpretation static_ns: name_server_resolver absl_ref
  "\<lambda>servers. Some (fst (StaticNameServerResolver_new absl_ref full_match getaddrinfo iter servers cache), servers)"
  for getaddrinfo iter cache
  by (rule static_resolver_contract [OF absl_ref_ok deriv_re2.re2_axioms])

interpretation dynamic_ns: name_server_resolver absl_ref
  "dynamic_resolve absl_ref full_match getaddrinfo iter client hi" for getaddrinfo iter client hi
  by (rule dynamic_resolver_contract [OF absl_ref_ok deriv_re2.re2_axioms])

section \<open>Lemmas: the dynamic resolver's endpoint\<close>

lemma hd_split_on: "c \<notin> set h \<Longrightarrow> hd (split_on c (h @ c # t)) = h"
  by (induction h) (auto split: list.splits)

lemma split_on_none: "c \<notin> set h \<Longrightarrow> split_on c h = [h]"
  by (induction h) auto

lemma hd_split_path: "CHR ''/'' \<notin> set h \<Longrightarrow> path = '''' \<or> (\<exists>t. path = CHR ''/'' # t) \<Longrightarrow>
    hd (split_on (CHR ''/'') (h @ path)) = h"
  by (auto simp: hd_split_on split_on_none)

lemma endpoint_parsed:
  assumes "absl_ok A" "CHR '':'' \<notin> set host" "CHR ''/'' \<notin> set host" "p < 2 ^ 31"
    and "path = '''' \<or> (\<exists>t. path = CHR ''/'' # t)"
  shows "DynamicNameServerResolver_new A ((if ssl then ''https://'' else ''http://'') @ host @ '':'' @ nat_digits p @ path) =
    Some \<lparr>dr_ssl = ssl, dr_host = host, dr_port = int p, dr_path = path, dr_name_server_list = []\<rparr>"
proof -
  let ?r = "host @ '':'' @ nat_digits p @ path"
  have slash: "CHR ''/'' \<notin> set (nat_digits p)"
    using list_all_digit_no [OF nat_digits_digits] by (auto simp: is_digit_def)
  have h: "hd (split_on (CHR '':'') ?r) = host" using hd_split_on [OF assms(2)] by simp
  have seg: "hd (split_on (CHR ''/'') (nat_digits p @ path)) = nat_digits p"
    by (rule hd_split_path [OF slash assms(5)])
  have atoi: "SimpleAtoi A (nat_digits p) = Some (int p)"
    using absl_SimpleAtoi [OF assms(1), of "int p"] assms(4) by (simp add: to_string_def)
  show ?thesis
    using h seg atoi
    by (cases ssl) (simp_all add: DynamicNameServerResolver_new_def absl_StartsWith [OF assms(1)]
        absl_StripPrefix [OF assms(1)] absl_StrContains [OF assms(1)] absl_StrSplit [OF assms(1)] Let_def)
qed

lemma isIPv4_quad:
  "a < 256 \<Longrightarrow> b < 256 \<Longrightarrow> c < 256 \<Longrightarrow> d < 256 \<Longrightarrow>
     isIPv4 full_match (nat_digits a @ ''.'' @ nat_digits b @ ''.'' @ nat_digits c @ ''.'' @ nat_digits d)"
  using deriv_re2.FullMatch_lang IPv4Regex_lang unfolding isIPv4_def by blast

section \<open>Properties\<close>

text \<open>C30: \<open>InetAddress::isIPv4\<close> accepts exactly the dotted quads: four decimal numbers below 256
  without leading zeros.\<close>

theorem isIPv4_iff:
  assumes "re2 FullMatch"
  shows "isIPv4 FullMatch s \<longleftrightarrow> (\<exists>a < 256. \<exists>b < 256. \<exists>c < 256. \<exists>d < 256.
    s = nat_digits a @ ''.'' @ nat_digits b @ ''.'' @ nat_digits c @ ''.'' @ nat_digits d)"
  using re2.FullMatch_lang [OF assms] by (simp add: isIPv4_def IPv4Regex_lang)

theorem isIPv4_iff_witness: "isIPv4 full_match ''10.0.0.255''"
proof -
  have "''10.0.0.255'' = nat_digits 10 @ ''.'' @ nat_digits 0 @ ''.'' @ nat_digits 0 @ ''.'' @ nat_digits 255"
    by code_simp
  then show ?thesis
    unfolding isIPv4_iff [OF deriv_re2.re2_axioms]
    by (intro exI [of _ 10] exI [of _ 0] exI [of _ 255] conjI) simp_all
qed

text \<open>C31: A name server list of IPv4 addresses survives the round trip through the gRPC address:
  \<open>setAccessPoint\<close> reads back from what \<open>buildAddress\<close> printed exactly the configured hosts and
  ports, in the iteration order of the hash map.\<close>

theorem access_point_roundtrip:
  assumes "absl_ok A" "re2 FullMatch" "items \<noteq> []" "distinct (map fst items)"
    and "\<forall>(h, p) \<in> set items. isIPv4 FullMatch h \<and> p < 2 ^ 16"
    and "mset (iter items) = mset items"
  shows "\<exists>addrs. setAccessPoint A (buildAddress A FullMatch iter (map pair_format items)) ep =
      Inr (ep\<lparr>ep_scheme := Some IPv4, ep_addresses := ep_addresses ep @ addrs\<rparr>) \<and>
    mset addrs = image_mset (\<lambda>(h, p). \<lparr>a_host = h, a_port = int p\<rparr>) (mset items)"
proof -
  have set: "set (iter items) = set items" and ne: "iter items \<noteq> []"
    using assms(3,6) by (metis set_mset_mset, metis mset_zero_iff)
  have "buildAddress A FullMatch iter (map pair_format items) =
      ''ipv4:'' @ join '','' (map pair_format (iter items))"
    using assms(5) by (intro buildAddress_ipv4 [OF assms(1-3) _ assms(4)]) auto
  moreover have "\<forall>(h, p) \<in> set (iter items). CHR '','' \<notin> set h \<and> p < 2 ^ 16"
    using assms(5) IPv4_no_special(2) re2.FullMatch_lang [OF assms(2)] unfolding set
    by (fastforce simp: isIPv4_def)
  note setAccessPoint_ipv4 [OF assms(1) ne this, of ep]
  ultimately show ?thesis
    using assms(6) by (intro exI [of _ "map (\<lambda>(h, p). \<lparr>a_host = h, a_port = int p\<rparr>) (iter items)"]) simp
qed

theorem access_point_roundtrip_witness:
  "\<exists>addrs. setAccessPoint absl_ref (buildAddress absl_ref full_match rev
      (map pair_format [(''10.0.0.1'', 9876), (''10.0.0.2'', 9876)])) \<lparr>ep_scheme = Some IPv4, ep_addresses = []\<rparr> =
      Inr \<lparr>ep_scheme = Some IPv4, ep_addresses = addrs\<rparr> \<and> size (mset addrs) = 2"
proof -
  define items where "items = [(''10.0.0.1'', 9876), (''10.0.0.2'', 9876 :: nat)]"
  have ten: "nat_digits 10 = ''10''" by code_simp
  have "isIPv4 full_match ''10.0.0.1''" "isIPv4 full_match ''10.0.0.2''"
    using isIPv4_quad [of 10 0 0 1] isIPv4_quad [of 10 0 0 2]
    by (simp_all add: ten nat_digits_single digit_char_def char_of_def bit_0)
  then have items: "\<forall>(h, p) \<in> set items. isIPv4 full_match h \<and> p < 2 ^ 16"
      "items \<noteq> []" "distinct (map fst items)" "mset (rev items) = mset items" "size (mset items) = 2"
    by (simp_all add: items_def)
  have "\<exists>addrs. setAccessPoint absl_ref (buildAddress absl_ref full_match rev (map pair_format items))
        \<lparr>ep_scheme = Some IPv4, ep_addresses = []\<rparr> =
      Inr (\<lparr>ep_scheme = Some IPv4, ep_addresses = []\<rparr>\<lparr>ep_scheme := Some IPv4,
        ep_addresses := ep_addresses \<lparr>ep_scheme = Some IPv4, ep_addresses = []\<rparr> @ addrs\<rparr>) \<and>
    mset addrs = image_mset (\<lambda>(h, p). \<lparr>a_host = h, a_port = int p\<rparr>) (mset items)"
    by (rule access_point_roundtrip [where iter = rev, OF absl_ref_ok deriv_re2.re2_axioms items(2,3,1,4)])
  then show ?thesis
    unfolding items_def [symmetric] using items(5) by (auto simp del: size_mset)
qed

text \<open>No resolver ever produces an IPv6 address: a segment with an IPv6 literal has more than
  one colon and is skipped, so the IPv6 branches of \<open>buildAddress\<close> cannot be reached, and the
  client's access point has the scheme of a domain or of IPv4 whenever an address was
  resolved.\<close>

theorem resolver_never_ipv6:
  assumes "absl_ok A" "re2 FullMatch"
    and "dynamic_resolve A FullMatch getaddrinfo iter client hi rc = Some (addr, rc')" "addr \<noteq> ''''"
  shows "fst (access_scheme A addr) \<in> {Some DOMAIN_NAME, Some IPv4}"
  using name_server_resolver.access_scheme_known [OF dynamic_resolver_contract [OF assms(1,2)] assms(3,4)]
  by blast

theorem resolver_never_ipv6_witness:
  "fst (access_scheme absl_ref (buildAddress absl_ref full_match id [''ns.example.com:80''])) \<in>
     {Some DOMAIN_NAME, Some IPv4}"
proof -
  let ?rc = "(\<lparr>dr_ssl = False, dr_host = '''', dr_port = 0, dr_path = '''',
     dr_name_server_list = [''ns.example.com:80'']\<rparr>, Map.empty) :: dynamic_resolver \<times> dns_cache"
  have "dynamic_resolve absl_ref full_match (\<lambda>_ _. None) id (\<lambda>_. None) (HostInfo_new (\<lambda>_. None)) ?rc =
      Some (buildAddress absl_ref full_match id [''ns.example.com:80''], ?rc)"
    by (simp add: dynamic_resolve_def)
  moreover have "buildAddress absl_ref full_match id [''ns.example.com:80''] \<noteq> ''''" by code_simp
  ultimately show ?thesis
    by (rule resolver_never_ipv6 [OF absl_ref_ok deriv_re2.re2_axioms])
qed

text \<open>The endpoint of a name server discovery service is taken apart correctly: for a host
  without colon and slash, any port and an empty or absolute path, the dynamic resolver asks
  exactly that host, port and path.\<close>

theorem endpoint_roundtrip:
  assumes "absl_ok A" "CHR '':'' \<notin> set host" "CHR ''/'' \<notin> set host" "p < 2 ^ 31"
    and "path = '''' \<or> (\<exists>t. path = CHR ''/'' # t)"
  shows "DynamicNameServerResolver_new A ((if ssl then ''https://'' else ''http://'') @ host @ '':'' @ nat_digits p @ path) =
    Some \<lparr>dr_ssl = ssl, dr_host = host, dr_port = int p, dr_path = path, dr_name_server_list = []\<rparr>"
  by (rule endpoint_parsed [OF assms])

theorem endpoint_roundtrip_witness:
  "DynamicNameServerResolver_new absl_ref ''http://jmenv.tbsite.net:8080/rocketmq/nsaddr'' =
    Some \<lparr>dr_ssl = False, dr_host = ''jmenv.tbsite.net'', dr_port = 8080, dr_path = ''/rocketmq/nsaddr'',
      dr_name_server_list = []\<rparr>"
proof -
  have "nat_digits 8080 = ''8080''" by code_simp
  then show ?thesis
    using endpoint_roundtrip [OF absl_ref_ok, of "''jmenv.tbsite.net''" 8080 "''/rocketmq/nsaddr''" False] by simp
qed

section \<open>Corner cases of the code\<close>

text \<open>Two name servers on one host collapse into one, since the ports are kept in a map by host.\<close>

lemma same_host_collapses:
  assumes "absl_ok A" "re2 FullMatch" "isIPv4 FullMatch h" "p < 2 ^ 32" "q < 2 ^ 32" "iter [(h, q)] = [(h, q)]"
  shows "buildAddress A FullMatch iter [pair_format (h, p), pair_format (h, q)] = ''ipv4:'' @ pair_format (h, q)"
proof -
  have "CHR '':'' \<notin> set h"
    using assms(3) re2.FullMatch_lang [OF assms(2)] IPv4_no_special(1) by (simp add: isIPv4_def)
  then show ?thesis
    using assms(3-6) by (simp add: buildAddress_def split_pair [OF assms(1)] absl_SimpleAtoiU [OF assms(1)]
        absl_StrJoin [OF assms(1)])
qed

text \<open>A label value that ends with an equals sign swallows the comma before the next label.\<close>

lemma label_comma_lost:
  "queryString absl_ref \<lparr>hi_site = '''', hi_unit = ''a='', hi_app = '''', hi_stage = ''s''\<rparr> =
     ''labels=unit:a=stage:s''"
  by code_simp

end
