(* ===== verification/Sched.thy ===== *)
theory Sched
  imports Prelude
begin

text \<open>
  Threads and timers: how \<open>SchedulerImpl::start\<close> (scheduler/SchedulerImpl.cpp) and \<open>ThreadPoolImpl::start\<close>
  (base/ThreadPoolImpl.cpp) wait for their first worker, the timer tasks of the scheduler with
  \<open>schedule\<close>, \<open>cancel\<close>, \<open>execute\<close> and \<open>shutdown0\<close>, the tasks of the thread pool, and the count-down latch
  (concurrent/CountdownLatch.cpp).  Threads interleave: each step of a relation is what one thread
  does without releasing a mutex.  Asio is modelled by what the code asks of it: an armed timer whose
  expiry has passed may run its handler on a worker, and destroying a timer disarms it.
\<close>

section \<open>Starting the workers\<close>

text \<open>Where the calling thread stands in \<open>start\<close>: creating workers, about to lock \<open>start_mtx_\<close>, about to
  read \<open>state_\<close>, about to wait, waiting, woken and locking again, returned.  It holds the mutex in
  \<open>MCheck\<close> and \<open>MEnter\<close>.\<close>

datatype main_pc = MSpawn nat | MLock | MCheck | MEnter | MWaiting | MRelock | MDone

datatype worker_pc = WCas | WSignal | WRun

record start_cfg =
  sc_state :: State
  sc_main :: main_pc
  sc_workers :: "worker_pc list"

definition start_mtx_free :: "start_cfg \<Rightarrow> bool" where
  "start_mtx_free c \<longleftrightarrow> sc_main c \<noteq> MCheck \<and> sc_main c \<noteq> MEnter"

definition SignalAll :: "main_pc \<Rightarrow> main_pc" where
  "SignalAll m = (if m = MWaiting then MRelock else m)"

text \<open>\<open>expect\<close> is the state a worker replaces by \<open>STARTED\<close> and the caller waits in: \<open>STARTING\<close> in the
  scheduler, \<open>CREATED\<close> in the thread pool.  The condition variable wakes nobody without a signal: a
  spurious wake-up would only let the caller return earlier.\<close>

definition start_begin :: "State \<Rightarrow> nat \<Rightarrow> start_cfg" where
  "start_begin expect n = \<lparr>sc_state = expect, sc_main = MSpawn n, sc_workers = []\<rparr>"

inductive start_step :: "State \<Rightarrow> start_cfg \<Rightarrow> start_cfg \<Rightarrow> bool" for expect where
  spawn: "sc_main c = MSpawn (Suc k) \<Longrightarrow>
    start_step expect c (c\<lparr>sc_main := MSpawn k, sc_workers := sc_workers c @ [WCas]\<rparr>)"
| spawned: "sc_main c = MSpawn 0 \<Longrightarrow> start_step expect c (c\<lparr>sc_main := MLock\<rparr>)"
| lock: "sc_main c = MLock \<Longrightarrow> start_step expect c (c\<lparr>sc_main := MCheck\<rparr>)"
| check: "sc_main c = MCheck \<Longrightarrow>
    start_step expect c (c\<lparr>sc_main := (if sc_state c = expect then MEnter else MDone)\<rparr>)"
| wait: "sc_main c = MEnter \<Longrightarrow> start_step expect c (c\<lparr>sc_main := MWaiting\<rparr>)"
| relock: "sc_main c = MRelock \<Longrightarrow> start_step expect c (c\<lparr>sc_main := MDone\<rparr>)"
| cas: "i < length (sc_workers c) \<Longrightarrow> sc_workers c ! i = WCas \<Longrightarrow>
    compare_exchange_strong (sc_state c) expect STARTED = (s, won) \<Longrightarrow>
    start_step expect c (c\<lparr>sc_state := s, sc_workers := (sc_workers c)[i := (if won then WSignal else WRun)]\<rparr>)"
| signal: "i < length (sc_workers c) \<Longrightarrow> sc_workers c ! i = WSignal \<Longrightarrow> start_mtx_free c \<Longrightarrow>
    start_step expect c (c\<lparr>sc_main := SignalAll (sc_main c), sc_workers := (sc_workers c)[i := WRun]\<rparr>)"

section \<open>Timer tasks\<close>

text \<open>A \<open>TimerTask\<close> is an object that \<open>tasks_\<close> and a running \<open>execute\<close> share; the objects live in
  \<open>sch_heap\<close>, and one is destroyed when neither refers to it.  \<open>tt_due\<close> and \<open>sch_fired\<close> record the first
  expiry and the callbacks run so far with the expiry they ran for.\<close>

record TimerTask =
  tt_task_id :: u32
  tt_task_name :: string
  tt_interval :: int
  tt_expiry :: int
  tt_armed :: bool
  tt_due :: int

record scheduler =
  sch_state :: State
  sch_last_id :: u32
  sch_tasks :: "u32 \<rightharpoonup> nat"
  sch_heap :: "TimerTask list"
  sch_running :: "nat list"
  sch_stopped :: bool
  sch_now :: int
  sch_fired :: "(nat \<times> int) list"

definition SchedulerImpl_new :: "u32 \<Rightarrow> int \<Rightarrow> scheduler" where
  "SchedulerImpl_new last_id now =
     \<lparr>sch_state = CREATED, sch_last_id = last_id, sch_tasks = Map.empty, sch_heap = [], sch_running = [],
      sch_stopped = False, sch_now = now, sch_fired = []\<rparr>"

text \<open>Whether \<open>weak_ptr::lock\<close> succeeds.\<close>

definition task_alive :: "scheduler \<Rightarrow> nat \<Rightarrow> bool" where
  "task_alive s r \<longleftrightarrow> r \<in> ran (sch_tasks s) \<or> r \<in> set (sch_running s)"

definition schedule :: "string \<Rightarrow> int \<Rightarrow> int \<Rightarrow> scheduler \<Rightarrow> u32 \<times> scheduler" where
  "schedule name delay interval s =
     (let id = sch_last_id s + 1;
          r = length (sch_heap s);
          task = \<lparr>tt_task_id = id, tt_task_name = name, tt_interval = interval,
                  tt_expiry = sch_now s + delay, tt_armed = True, tt_due = sch_now s + delay\<rparr>
      in (id, s\<lparr>sch_last_id := id,
               sch_tasks := (if sch_tasks s id = None then (sch_tasks s)(id \<mapsto> r) else sch_tasks s),
               sch_heap := sch_heap s @ [task]\<rparr>))"

definition cancel :: "u32 \<Rightarrow> scheduler \<Rightarrow> scheduler" where
  "cancel task_id s =
     (if sch_tasks s task_id = None then s else s\<lparr>sch_tasks := (sch_tasks s)(task_id := None)\<rparr>)"

text \<open>\<open>execute\<close> up to the callback, and what it does when the callback has returned or thrown.\<close>

definition execute_begin :: "nat \<Rightarrow> scheduler \<Rightarrow> scheduler option" where
  "execute_begin r s =
     (if r < length (sch_heap s) \<and> tt_armed (sch_heap s ! r) \<and> tt_expiry (sch_heap s ! r) \<le> sch_now s \<and>
         sch_state s \<in> {STARTED, STOPPING} \<and> \<not> sch_stopped s \<and> task_alive s r
      then Some (s\<lparr>sch_heap := (sch_heap s)[r := (sch_heap s ! r)\<lparr>tt_armed := False\<rparr>],
                   sch_running := r # sch_running s,
                   sch_fired := sch_fired s @ [(r, tt_expiry (sch_heap s ! r))]\<rparr>)
      else None)"

definition execute_end :: "nat \<Rightarrow> scheduler \<Rightarrow> scheduler option" where
  "execute_end r s =
     (if r \<in> set (sch_running s)
      then let t = sch_heap s ! r;
               s' = (if tt_interval t \<noteq> 0
                     then s\<lparr>sch_heap := (sch_heap s)[r := t\<lparr>tt_expiry := tt_expiry t + tt_interval t, tt_armed := True\<rparr>]\<rparr>
                     else cancel (tt_task_id t) s)
           in Some (s'\<lparr>sch_running := remove1 r (sch_running s')\<rparr>)
      else None)"

text \<open>\<open>shutdown0\<close>: the exchange of the state, \<open>tasks_.clear()\<close>, \<open>context_.stop()\<close>, and, when every worker
  has been joined, the last store.\<close>

definition shutdown_cas :: "scheduler \<Rightarrow> scheduler \<times> bool" where
  "shutdown_cas s =
     (let (st, ok) = compare_exchange_strong (sch_state s) STARTED STOPPING in (s\<lparr>sch_state := st\<rparr>, ok))"

inductive sched_step :: "scheduler \<Rightarrow> scheduler \<Rightarrow> bool" where
  starting: "sch_state s = CREATED \<Longrightarrow> sched_step s (s\<lparr>sch_state := STARTING\<rparr>)"
| started: "sch_state s = STARTING \<Longrightarrow> sched_step s (s\<lparr>sch_state := STARTED\<rparr>)"
| tick: "sch_now s \<le> now \<Longrightarrow> sched_step s (s\<lparr>sch_now := now\<rparr>)"
| schedule: "sched_step s (snd (schedule name delay interval s))"
| cancel: "sched_step s (cancel task_id s)"
| execute_begin: "execute_begin r s = Some s' \<Longrightarrow> sched_step s s'"
| execute_end: "execute_end r s = Some s' \<Longrightarrow> sched_step s s'"
| shutdown_cas: "shutdown_cas s = (s', True) \<Longrightarrow> sched_step s s'"
| shutdown_clear: "sch_state s = STOPPING \<Longrightarrow> sched_step s (s\<lparr>sch_tasks := Map.empty\<rparr>)"
| shutdown_stop: "sch_state s = STOPPING \<Longrightarrow> sched_step s (s\<lparr>sch_stopped := True\<rparr>)"
| shutdown_joined: "sch_state s = STOPPING \<Longrightarrow> sch_stopped s \<Longrightarrow> sch_running s = [] \<Longrightarrow>
    sched_step s (s\<lparr>sch_state := STOPPED\<rparr>)"

inductive_cases sched_stepE: "sched_step s s'"

definition fired_at :: "scheduler \<Rightarrow> nat \<Rightarrow> int list" where
  "fired_at s r = map snd (filter (\<lambda>(q, _). q = r) (sch_fired s))"

section \<open>Thread pool and latch\<close>

text \<open>The queue of the pool's \<open>io_context\<close> holds the posted tasks.\<close>

record 'task thread_pool =
  tp_workers :: nat
  tp_state :: State
  tp_queue :: "'task list"

definition tp_submit :: "'task \<Rightarrow> 'task thread_pool \<Rightarrow> 'task thread_pool" where
  "tp_submit task p = (if tp_state p = STARTED then p\<lparr>tp_queue := tp_queue p @ [task]\<rparr> else p)"

definition tp_shutdown :: "'task thread_pool \<Rightarrow> 'task thread_pool" where
  "tp_shutdown p =
     (let (st, ok) = compare_exchange_strong (tp_state p) STARTED STOPPING
      in if ok then p\<lparr>tp_state := STOPPED\<rparr> else p)"

text \<open>\<open>await\<close> returns at once or joins the waiters; \<open>countdown\<close> releases all of them at zero.  The count is
  a signed 32-bit integer.\<close>

record latch =
  cl_count :: "32 word"
  cl_waiting :: nat

definition CountdownLatch_new :: "32 word \<Rightarrow> latch" where
  "CountdownLatch_new n = \<lparr>cl_count = n, cl_waiting = 0\<rparr>"

definition await :: "latch \<Rightarrow> latch" where
  "await l = (if sint (cl_count l) \<le> 0 then l else l\<lparr>cl_waiting := cl_waiting l + 1\<rparr>)"

definition countdown :: "latch \<Rightarrow> latch" where
  "countdown l =
     (let n = cl_count l - 1
      in if sint n \<le> 0 then l\<lparr>cl_count := n, cl_waiting := 0\<rparr> else l\<lparr>cl_count := n\<rparr>)"

definition increaseCount :: "latch \<Rightarrow> latch" where
  "increaseCount l = l\<lparr>cl_count := cl_count l + 1\<rparr>"

section \<open>Every start returns\<close>

fun worker_weight :: "worker_pc \<Rightarrow> nat" where
  "worker_weight WCas = 2" | "worker_weight WSignal = 1" | "worker_weight WRun = 0"

fun main_weight :: "main_pc \<Rightarrow> nat" where
  "main_weight (MSpawn k) = 6 + 3 * k" | "main_weight MLock = 5" | "main_weight MCheck = 4"
| "main_weight MEnter = 3" | "main_weight MWaiting = 2" | "main_weight MRelock = 1" | "main_weight MDone = 0"

definition start_weight :: "start_cfg \<Rightarrow> nat" where
  "start_weight c = main_weight (sc_main c) + sum_list (map worker_weight (sc_workers c))"

lemma weight_update:
  assumes "i < length ws" "worker_weight w < worker_weight (ws ! i)"
  shows "sum_list (map worker_weight (ws[i := w])) < sum_list (map worker_weight ws)"
proof -
  have "sum_list (map worker_weight ws) =
      sum_list (map worker_weight (take i ws)) + worker_weight (ws ! i) + sum_list (map worker_weight (drop (Suc i) ws))"
    by (subst id_take_nth_drop [OF assms(1)]) simp
  moreover have "sum_list (map worker_weight (ws[i := w])) =
      sum_list (map worker_weight (take i ws)) + worker_weight w + sum_list (map worker_weight (drop (Suc i) ws))"
    by (subst upd_conv_take_nth_drop [OF assms(1)]) simp
  ultimately show ?thesis using assms(2) by simp
qed

lemma start_step_weight: "start_step expect c c' \<Longrightarrow> start_weight c' < start_weight c"
proof (induction rule: start_step.induct)
  case (cas i c s won)
  then show ?case using weight_update [of i "sc_workers c"] by (simp add: start_weight_def)
next
  case (signal i c)
  then have "main_weight (SignalAll (sc_main c)) \<le> main_weight (sc_main c)"
    by (cases "sc_main c") (simp_all add: SignalAll_def)
  with signal show ?case
    using weight_update [of i "sc_workers c" WRun] by (simp add: start_weight_def)
qed (simp_all add: start_weight_def)

text \<open>The invariant: once the state has changed, the worker that changed it still has to signal or has
  done so, and it cannot signal while the caller is between its test and its wait.\<close>

definition to_spawn :: "main_pc \<Rightarrow> nat" where
  "to_spawn m = (case m of MSpawn k \<Rightarrow> k | _ \<Rightarrow> 0)"

definition start_inv :: "State \<Rightarrow> nat \<Rightarrow> start_cfg \<Rightarrow> bool" where
  "start_inv expect n c \<longleftrightarrow>
     length (sc_workers c) + to_spawn (sc_main c) = n \<and>
     (sc_state c = expect \<and> set (sc_workers c) \<subseteq> {WCas} \<or>
      sc_state c = STARTED \<and> (sc_main c \<in> {MEnter, MWaiting} \<longrightarrow> WSignal \<in> set (sc_workers c)))"

locale start_protocol =
  fixes expect :: State
  assumes expect: "expect \<noteq> STARTED"
begin

lemma inv_begin: "start_inv expect n (start_begin expect n)"
  by (simp add: start_inv_def start_begin_def to_spawn_def)

lemma inv_step: "start_step expect c c' \<Longrightarrow> start_inv expect n c \<Longrightarrow> start_inv expect n c'"
proof (induction rule: start_step.induct)
  case (cas i c s won)
  then have "WSignal \<in> set ((sc_workers c)[i := WSignal])" by (simp add: set_update_memI)
  moreover have "WSignal \<in> set ((sc_workers c)[i := WRun])" if "WSignal \<in> set (sc_workers c)"
  proof -
    from that obtain j where "j < length (sc_workers c)" "sc_workers c ! j = WSignal"
      by (auto simp: in_set_conv_nth)
    with cas(2) have "(sc_workers c)[i := WRun] ! j = WSignal" by (cases "j = i") simp_all
    with \<open>j < length (sc_workers c)\<close> show ?thesis by (metis length_list_update nth_mem)
  qed
  ultimately show ?case
    using cas expect by (auto simp: start_inv_def compare_exchange_strong_def split: if_splits)
next
  case (signal i c)
  then have "WSignal \<in> set (sc_workers c)" by (metis nth_mem)
  with signal show ?case
    by (auto simp: start_inv_def SignalAll_def start_mtx_free_def to_spawn_def split: main_pc.splits)
qed (use expect in \<open>auto simp: start_inv_def to_spawn_def\<close>)

lemma inv_reach: "(start_step expect)\<^sup>*\<^sup>* (start_begin expect n) c \<Longrightarrow> start_inv expect n c"
  by (induction rule: rtranclp_induct) (auto intro: inv_begin inv_step)

lemma worker_runs:
  assumes "w \<in> set (sc_workers c)" "w \<noteq> WRun" "start_mtx_free c"
  shows "\<exists>c'. start_step expect c c'"
proof -
  from assms(1) obtain i where i: "i < length (sc_workers c)" "sc_workers c ! i = w"
    by (auto simp: in_set_conv_nth)
  show ?thesis
  proof (cases w)
    case WCas
    obtain s won where "compare_exchange_strong (sc_state c) expect STARTED = (s, won)" by (rule prod.exhaust)
    with i WCas show ?thesis by (blast intro: start_step.cas)
  next
    case WSignal
    with i assms(3) show ?thesis by (blast intro: start_step.signal)
  qed (use assms(2) in simp)
qed

lemma stuck_main:
  assumes "start_inv expect n c" "0 < n" "\<nexists>c'. start_step expect c c'"
  shows "sc_main c = MDone"
proof (cases "sc_main c")
  case (MSpawn k)
  with assms(3) show ?thesis by (cases k) (blast intro: start_step.spawn start_step.spawned)+
next
  case MWaiting
  then have "start_mtx_free c" by (simp add: start_mtx_free_def)
  moreover have "\<exists>w \<in> set (sc_workers c). w \<noteq> WRun"
    using assms(1,2) MWaiting by (cases "sc_workers c") (auto simp: start_inv_def to_spawn_def)
  ultimately show ?thesis using worker_runs assms(3) by blast
qed (use assms(3) in \<open>blast intro: start_step.intros\<close>)+

lemma stuck_done:
  assumes "start_inv expect n c" "0 < n" "\<nexists>c'. start_step expect c c'"
  shows "sc_main c = MDone \<and> sc_state c = STARTED"
proof -
  have m: "sc_main c = MDone" by (rule stuck_main [OF assms])
  then have "start_mtx_free c" by (simp add: start_mtx_free_def)
  with worker_runs assms(3) have "set (sc_workers c) \<subseteq> {WRun}" by blast
  moreover have "sc_workers c \<noteq> []" using assms(1,2) m by (auto simp: start_inv_def to_spawn_def)
  ultimately show ?thesis using assms(1) m by (cases "sc_workers c") (auto simp: start_inv_def)
qed

end

interpretation scheduler_start: start_protocol STARTING
  by unfold_locales simp

interpretation pool_start: start_protocol CREATED
  by unfold_locales simp

lemma wf_start_step: "wfP (\<lambda>c' c. start_step expect c c')"
  by (rule wfp_if_convertible_to_nat [where f = start_weight]) (rule start_step_weight)

section \<open>Timers fire on schedule\<close>

text \<open>Per object: how often it fired, where its expiry stands, and whether it may still fire.\<close>

definition task_ok :: "scheduler \<Rightarrow> nat \<Rightarrow> bool" where
  "task_ok s r \<longleftrightarrow>
     (let t = sch_heap s ! r; f = fired_at s r
      in (\<forall>k < length f. f ! k = tt_due t + int k * tt_interval t) \<and>
         list_all (\<lambda>e. e \<le> sch_now s) f \<and>
         (tt_armed t \<longrightarrow> tt_expiry t = tt_due t + int (length f) * tt_interval t \<and> r \<notin> set (sch_running s)) \<and>
         (\<not> tt_armed t \<longrightarrow> f \<noteq> [] \<and> tt_expiry t = tt_due t + (int (length f) - 1) * tt_interval t) \<and>
         (tt_interval t = 0 \<longrightarrow> length f = (if tt_armed t then 0 else 1)))"

definition sched_inv :: "scheduler \<Rightarrow> bool" where
  "sched_inv s \<longleftrightarrow>
     (\<forall>r < length (sch_heap s). task_ok s r) \<and>
     (\<forall>(r, e) \<in> set (sch_fired s). r < length (sch_heap s)) \<and>
     distinct (sch_running s) \<and> set (sch_running s) \<subseteq> {..< length (sch_heap s)} \<and>
     ran (sch_tasks s) \<subseteq> {..< length (sch_heap s)} \<and>
     inj_on (sch_tasks s) (dom (sch_tasks s))"

lemma fired_at_cong [simp]:
  "fired_at (s\<lparr>sch_state := st\<rparr>) r = fired_at s r"
  "fired_at (s\<lparr>sch_now := n\<rparr>) r = fired_at s r"
  "fired_at (s\<lparr>sch_tasks := m\<rparr>) r = fired_at s r"
  "fired_at (s\<lparr>sch_stopped := b\<rparr>) r = fired_at s r"
  "fired_at (s\<lparr>sch_heap := h\<rparr>) r = fired_at s r"
  "fired_at (s\<lparr>sch_running := l\<rparr>) r = fired_at s r"
  "fired_at (s\<lparr>sch_last_id := i\<rparr>) r = fired_at s r"
  by (simp_all add: fired_at_def)

lemma fired_at_append: "fired_at (s\<lparr>sch_fired := sch_fired s @ [(q, e)]\<rparr>) r = fired_at s r @ (if q = r then [e] else [])"
  by (simp add: fired_at_def)

lemma task_ok_cong:
  assumes "sch_heap s' ! r = sch_heap s ! r" "fired_at s' r = fired_at s r"
    and "sch_now s \<le> sch_now s'" "r \<in> set (sch_running s') \<Longrightarrow> r \<in> set (sch_running s)"
  shows "task_ok s r \<Longrightarrow> task_ok s' r"
  using assms by (auto simp: task_ok_def Let_def list_all_iff)

lemma sched_inv_new: "sched_inv (SchedulerImpl_new last_id now)"
  by (simp add: sched_inv_def SchedulerImpl_new_def)

lemma ran_upd_subset: "ran (m(k := None)) \<subseteq> ran m" "ran (m(k \<mapsto> v)) \<subseteq> insert v (ran m)"
  by (auto simp: ran_def)

lemma inj_on_upd_None: "inj_on m (dom m) \<Longrightarrow> inj_on (m(k := None)) (dom (m(k := None)))"
  by (auto simp: inj_on_def)

lemma inj_on_upd_fresh: "inj_on m (dom m) \<Longrightarrow> v \<notin> ran m \<Longrightarrow> inj_on (m(k \<mapsto> v)) (dom (m(k \<mapsto> v)))"
  by (auto simp: inj_on_def ran_def)

lemma sched_inv_cong:
  assumes "sched_inv s" "sch_heap s' = sch_heap s" "sch_fired s' = sch_fired s" "sch_now s \<le> sch_now s'"
    and "sch_running s' = sch_running s" "sch_tasks s' = sch_tasks s \<or> sch_tasks s' = Map.empty \<or>
      (\<exists>k. sch_tasks s' = (sch_tasks s)(k := None))"
  shows "sched_inv s'"
proof -
  have "fired_at s' = fired_at s" using assms(3) by (simp add: fired_at_def fun_eq_iff)
  then have "\<forall>r < length (sch_heap s'). task_ok s' r"
    using assms(1,2,4,5) task_ok_cong [of s' _ s] by (simp add: sched_inv_def)
  moreover have "ran (sch_tasks s') \<subseteq> ran (sch_tasks s)" using assms(6) by (auto simp: ran_def split: if_splits)
  moreover have "inj_on (sch_tasks s') (dom (sch_tasks s'))"
    using assms(1,6) inj_on_upd_None by (auto simp: sched_inv_def)
  ultimately show ?thesis using assms(1-5) by (auto simp: sched_inv_def)
qed

lemma sched_inv_schedule:
  assumes "sched_inv s"
  shows "sched_inv (snd (schedule name delay interval s))"
proof -
  let ?s = "snd (schedule name delay interval s)"
  have r: "length (sch_heap s) \<notin> ran (sch_tasks s)" "length (sch_heap s) \<notin> set (sch_running s)"
    using assms by (auto simp: sched_inv_def)
  have f: "fired_at s (length (sch_heap s)) = []"
    using assms by (auto simp: sched_inv_def fired_at_def filter_empty_conv)
  have "task_ok ?s r" if "r < length (sch_heap ?s)" for r
  proof (cases "r < length (sch_heap s)")
    case True
    then have "task_ok s r" using assms by (simp add: sched_inv_def)
    with True show ?thesis by (elim task_ok_cong [rotated 4]) (simp_all add: schedule_def Let_def nth_append)
  next
    case False
    with that have "r = length (sch_heap s)" by (simp add: schedule_def Let_def)
    with f r show ?thesis by (simp add: schedule_def Let_def task_ok_def)
  qed
  moreover have "ran (sch_tasks ?s) \<subseteq> insert (length (sch_heap s)) (ran (sch_tasks s))"
    by (auto simp: schedule_def Let_def ran_def)
  moreover have "inj_on (sch_tasks ?s) (dom (sch_tasks ?s))"
    using assms inj_on_upd_fresh [OF _ r(1)] by (simp add: sched_inv_def schedule_def Let_def)
  moreover have "sch_running ?s = sch_running s" "sch_fired ?s = sch_fired s"
    "length (sch_heap ?s) = Suc (length (sch_heap s))" by (simp_all add: schedule_def Let_def)
  ultimately show ?thesis
    using assms unfolding sched_inv_def by (auto simp: less_Suc_eq)
qed

lemma sched_inv_execute_begin:
  assumes "sched_inv s" "execute_begin r s = Some s'"
  shows "sched_inv s'"
proof -
  let ?t = "sch_heap s ! r"
  from assms(2) have r: "r < length (sch_heap s)" "tt_armed ?t" "tt_expiry ?t \<le> sch_now s"
    and s': "s' = s\<lparr>sch_heap := (sch_heap s)[r := ?t\<lparr>tt_armed := False\<rparr>], sch_running := r # sch_running s,
      sch_fired := sch_fired s @ [(r, tt_expiry ?t)]\<rparr>"
    by (auto simp: execute_begin_def split: if_splits)
  have f: "fired_at s' q = fired_at s q @ (if r = q then [tt_expiry ?t] else [])" for q
    by (simp add: s' fired_at_def)
  have ok: "task_ok s r" using assms(1) r(1) by (simp add: sched_inv_def)
  have "task_ok s' q" if "q < length (sch_heap s')" for q
  proof (cases "q = r")
    case True
    have "sch_heap s' ! r = ?t\<lparr>tt_armed := False\<rparr>" "sch_now s' = sch_now s" using r(1) by (simp_all add: s')
    with ok r True show ?thesis
      by (auto simp: task_ok_def Let_def f nth_append less_Suc_eq list_all_iff algebra_simps)
  next
    case False
    have "task_ok s q" using assms(1) that by (simp add: s' sched_inv_def)
    with False show ?thesis by (elim task_ok_cong [rotated 4]) (simp_all add: f, simp_all add: s')
  qed
  moreover have "r \<notin> set (sch_running s)" using ok r(2) by (simp add: task_ok_def Let_def)
  ultimately show ?thesis using assms(1) r(1) by (auto simp: sched_inv_def s')
qed

lemma cancel_cong:
  "sch_heap (cancel i s) = sch_heap s" "sch_fired (cancel i s) = sch_fired s" "sch_now (cancel i s) = sch_now s"
  "sch_running (cancel i s) = sch_running s" "sch_state (cancel i s) = sch_state s"
  "sch_tasks (cancel i s) = (sch_tasks s)(i := None)"
  by (auto simp: cancel_def fun_upd_idem)

lemma sched_inv_cancel: "sched_inv s \<Longrightarrow> sched_inv (cancel i s)"
  by (rule sched_inv_cong [of s]) (auto simp: cancel_cong)

lemma sched_inv_execute_end:
  assumes "sched_inv s" "execute_end r s = Some s'"
  shows "sched_inv s'"
proof -
  let ?t = "sch_heap s ! r"
  from assms(2) have run: "r \<in> set (sch_running s)" by (simp add: execute_end_def split: if_splits)
  then have r: "r < length (sch_heap s)" using assms(1) by (auto simp: sched_inv_def)
  then have ok: "task_ok s r" using assms(1) by (simp add: sched_inv_def)
  have nr: "r \<notin> set (remove1 r (sch_running s))" using assms(1) by (simp add: sched_inv_def)
  have sub: "set (remove1 r (sch_running s)) \<subseteq> set (sch_running s)" by (rule set_remove1_subset)
  show ?thesis
  proof (cases "tt_interval ?t = 0")
    case True
    with assms(2) run have s': "s' = (cancel (tt_task_id ?t) s)\<lparr>sch_running := remove1 r (sch_running s)\<rparr>"
      by (simp add: execute_end_def Let_def cancel_cong)
    have c: "sched_inv (cancel (tt_task_id ?t) s)" by (rule sched_inv_cancel [OF assms(1)])
    have "task_ok s' q" if "q < length (sch_heap s)" for q
    proof -
      have "task_ok (cancel (tt_task_id ?t) s) q" using c that by (simp add: sched_inv_def cancel_cong)
      with sub show ?thesis by (elim task_ok_cong [rotated 4]) (auto simp: s' cancel_cong)
    qed
    with c sub show ?thesis by (auto simp: sched_inv_def s' cancel_cong)
  next
    case False
    with assms(2) run have s': "s' = s\<lparr>sch_heap := (sch_heap s)[r := ?t\<lparr>tt_expiry := tt_expiry ?t + tt_interval ?t,
        tt_armed := True\<rparr>], sch_running := remove1 r (sch_running s)\<rparr>"
      by (simp add: execute_end_def Let_def)
    have "task_ok s' q" if "q < length (sch_heap s)" for q
    proof (cases "q = r")
      case True
      with ok run r nr False show ?thesis
        by (auto simp: task_ok_def Let_def s' algebra_simps)
    next
      case q: False
      have "task_ok s q" using assms(1) that by (simp add: sched_inv_def)
      with q sub show ?thesis by (elim task_ok_cong [rotated 4]) (auto simp: s')
    qed
    with assms(1) sub show ?thesis by (auto simp: sched_inv_def s')
  qed
qed

lemma sched_step_inv: "sched_step s s' \<Longrightarrow> sched_inv s \<Longrightarrow> sched_inv s'"
proof (induction rule: sched_step.induct)
  case (shutdown_cas s s')
  then show ?case
    by (auto simp: shutdown_cas_def compare_exchange_strong_def Let_def split: if_splits
        intro: sched_inv_cong [of s])
next
  case (schedule s)
  then show ?case by (rule sched_inv_schedule)
next
  case (cancel s)
  then show ?case by (rule sched_inv_cancel)
next
  case (execute_begin r s s')
  then show ?case by (blast intro: sched_inv_execute_begin)
next
  case (execute_end r s s')
  then show ?case by (blast intro: sched_inv_execute_end)
qed (erule sched_inv_cong; simp)+

lemma sched_steps_inv: "sched_step\<^sup>*\<^sup>* s s' \<Longrightarrow> sched_inv s \<Longrightarrow> sched_inv s'"
  by (induction rule: rtranclp_induct) (auto intro: sched_step_inv)

text \<open>An object that no map entry and no running handler refers to stays so and never fires.\<close>

lemma dead_step:
  assumes "sched_step s s'" "sched_inv s" "r < length (sch_heap s)" "\<not> task_alive s r"
  shows "r < length (sch_heap s') \<and> \<not> task_alive s' r \<and> fired_at s' r = fired_at s r"
  using assms
proof (induction rule: sched_step.induct)
  case (schedule s)
  then show ?case by (auto simp: schedule_def Let_def task_alive_def ran_def)
next
  case (cancel s)
  then show ?case by (auto simp: cancel_cong task_alive_def ran_def fired_at_def)
next
  case (execute_begin q s s')
  then show ?case by (auto simp: execute_begin_def task_alive_def fired_at_def split: if_splits)
next
  case (execute_end q s s')
  then show ?case
    by (auto simp: execute_end_def Let_def task_alive_def cancel_cong ran_def fired_at_def
        dest!: set_remove1_subset [THEN subsetD] split: if_splits)
qed (auto simp: task_alive_def shutdown_cas_def split: prod.splits)

lemma dead_steps:
  assumes "sched_step\<^sup>*\<^sup>* s s'" "sched_inv s" "r < length (sch_heap s)" "\<not> task_alive s r"
  shows "r < length (sch_heap s') \<and> \<not> task_alive s' r \<and> fired_at s' r = fired_at s r"
  using assms
proof (induction rule: rtranclp_induct)
  case (step s' s'')
  have "sched_inv s'" using step(1,4) by (rule sched_steps_inv)
  with step dead_step [of s' s'' r] show ?case by simp
qed simp

section \<open>Properties\<close>

text \<open>C10: \<open>start\<close> returns.  With at least one worker, in every interleaving of the caller and the workers
  no wake-up is lost: the steps cannot go on for ever, and when no thread can move the caller has
  returned and the state is \<open>STARTED\<close>.  This holds of the scheduler (which waits in \<open>STARTING\<close>) and of the
  thread pool (which waits in \<open>CREATED\<close>).\<close>

theorem start_returns:
  assumes "expect \<in> {STARTING, CREATED}" "0 < n" "(start_step expect)\<^sup>*\<^sup>* (start_begin expect n) c"
  shows "wfP (\<lambda>c' c. start_step expect c c') \<and>
    ((\<nexists>c'. start_step expect c c') \<longrightarrow> sc_main c = MDone \<and> sc_state c = STARTED)"
  using assms wf_start_step scheduler_start.inv_reach pool_start.inv_reach
    scheduler_start.stuck_done pool_start.stuck_done by blast

definition one_worker_end :: start_cfg where
  "one_worker_end = \<lparr>sc_state = STARTED, sc_main = MDone, sc_workers = [WRun]\<rparr>"

lemma one_worker_run: "(start_step STARTING)\<^sup>*\<^sup>* (start_begin STARTING 1) one_worker_end"
proof -
  let ?c = "\<lambda>s m ws. \<lparr>sc_state = s, sc_main = m, sc_workers = ws\<rparr>"
  have 1: "start_step STARTING (?c STARTING (MSpawn 1) []) (?c STARTING (MSpawn 0) [WCas])"
    using start_step.spawn [of "?c STARTING (MSpawn 1) []" 0] by simp
  have 2: "start_step STARTING (?c STARTING (MSpawn 0) [WCas]) (?c STARTING MLock [WCas])"
    using start_step.spawned [of "?c STARTING (MSpawn 0) [WCas]"] by simp
  have 3: "start_step STARTING (?c STARTING MLock [WCas]) (?c STARTED MLock [WSignal])"
    using start_step.cas [of 0 "?c STARTING MLock [WCas]" STARTING STARTED True] by simp
  have 4: "start_step STARTING (?c STARTED MLock [WSignal]) (?c STARTED MLock [WRun])"
    using start_step.signal [of 0 "?c STARTED MLock [WSignal]"] by (simp add: start_mtx_free_def SignalAll_def)
  have 5: "start_step STARTING (?c STARTED MLock [WRun]) (?c STARTED MCheck [WRun])"
    using start_step.lock [of "?c STARTED MLock [WRun]"] by simp
  have 6: "start_step STARTING (?c STARTED MCheck [WRun]) (?c STARTED MDone [WRun])"
    using start_step.check [of "?c STARTED MCheck [WRun]" STARTING] by simp
  show ?thesis
    using 1 2 3 4 5 6 unfolding start_begin_def one_worker_end_def
    by (auto intro: converse_rtranclp_into_rtranclp)
qed

lemma one_worker_stuck: "\<nexists>c'. start_step STARTING one_worker_end c'"
  by (auto simp: one_worker_end_def elim!: start_step.cases)

theorem start_returns_witness:
  "wfP (\<lambda>c' c. start_step STARTING c c') \<and> (\<nexists>c'. start_step STARTING one_worker_end c') \<and>
   sc_main one_worker_end = MDone \<and> sc_state one_worker_end = STARTED"
  using start_returns [of STARTING 1 one_worker_end] one_worker_run one_worker_stuck by simp

text \<open>\<open>std::thread::hardware_concurrency()\<close>, the default number of workers, may be 0; then the caller waits
  for ever.\<close>

lemma start_without_workers:
  "\<exists>c. (start_step STARTING)\<^sup>*\<^sup>* (start_begin STARTING 0) c \<and> sc_main c = MWaiting \<and> (\<nexists>c'. start_step STARTING c c')"
proof -
  let ?c = "\<lambda>m. \<lparr>sc_state = STARTING, sc_main = m, sc_workers = []\<rparr>"
  have 1: "start_step STARTING (?c (MSpawn 0)) (?c MLock)"
    using start_step.spawned [of "?c (MSpawn 0)"] by simp
  have 2: "start_step STARTING (?c MLock) (?c MCheck)" using start_step.lock [of "?c MLock"] by simp
  have 3: "start_step STARTING (?c MCheck) (?c MEnter)" using start_step.check [of "?c MCheck" STARTING] by simp
  have 4: "start_step STARTING (?c MEnter) (?c MWaiting)" using start_step.wait [of "?c MEnter"] by simp
  have "(start_step STARTING)\<^sup>*\<^sup>* (start_begin STARTING 0) (?c MWaiting)"
    using 1 2 3 4 unfolding start_begin_def by (auto intro: converse_rtranclp_into_rtranclp)
  moreover have "\<nexists>c'. start_step STARTING (?c MWaiting) c'" by (auto elim!: start_step.cases)
  ultimately show ?thesis by fastforce
qed

text \<open>C8: Timers keep their schedule without drift: in every interleaving of \<open>schedule\<close>, \<open>cancel\<close>, the
  execution of handlers, the passage of time and \<open>shutdown\<close>, the k-th run of a task's callback is the one
  for the time first due plus k intervals and does not happen before it, and a task without an interval runs
  at most once.\<close>

theorem timer_schedule:
  assumes "sched_step\<^sup>*\<^sup>* (SchedulerImpl_new last_id now) s" "r < length (sch_heap s)"
  shows "let t = sch_heap s ! r; f = fired_at s r
    in (\<forall>k < length f. f ! k = tt_due t + int k * tt_interval t \<and> f ! k \<le> sch_now s) \<and>
       (tt_interval t = 0 \<longrightarrow> length f \<le> 1)"
proof -
  have "task_ok s r"
    using sched_steps_inv [OF assms(1) sched_inv_new] assms(2) by (simp add: sched_inv_def)
  then show ?thesis by (auto simp: task_ok_def Let_def list_all_length)
qed

text \<open>A scheduler with one task, first due at time 5 and then every 10; and the same at time 5, its callback
  running.\<close>

definition demo_scheduled :: scheduler where
  "demo_scheduled = snd (schedule ''t'' 5 10 ((SchedulerImpl_new 0 0)\<lparr>sch_state := STARTED\<rparr>))"

definition demo_fired :: scheduler where
  "demo_fired = the (execute_begin 0 (demo_scheduled\<lparr>sch_now := 5\<rparr>))"

lemma demo_scheduled_reach: "sched_step\<^sup>*\<^sup>* (SchedulerImpl_new 0 0) demo_scheduled"
proof -
  have 1: "sched_step (SchedulerImpl_new 0 0) ((SchedulerImpl_new 0 0)\<lparr>sch_state := STARTING\<rparr>)"
    by (rule sched_step.starting) (simp add: SchedulerImpl_new_def)
  have 2: "sched_step ((SchedulerImpl_new 0 0)\<lparr>sch_state := STARTING\<rparr>) ((SchedulerImpl_new 0 0)\<lparr>sch_state := STARTED\<rparr>)"
    using sched_step.started [of "(SchedulerImpl_new 0 0)\<lparr>sch_state := STARTING\<rparr>"] by simp
  show ?thesis
    unfolding demo_scheduled_def
    by (rule converse_rtranclp_into_rtranclp, rule 1, rule converse_rtranclp_into_rtranclp, rule 2,
        rule r_into_rtranclp, rule sched_step.schedule)
qed

lemma demo_eval:
  "execute_begin 0 (demo_scheduled\<lparr>sch_now := 5\<rparr>) = Some demo_fired"
  "length (sch_heap demo_fired) = 1" "fired_at demo_fired 0 = [5]"
  "sch_tasks demo_scheduled 1 = Some 0" "sch_running demo_scheduled = []" "fired_at demo_scheduled 0 = []"
  by (simp_all add: demo_fired_def demo_scheduled_def execute_begin_def schedule_def SchedulerImpl_new_def
      Let_def fired_at_def task_alive_def ran_def)

lemma demo_fired_reach: "sched_step\<^sup>*\<^sup>* (SchedulerImpl_new 0 0) demo_fired"
proof -
  have "sched_step demo_scheduled (demo_scheduled\<lparr>sch_now := 5\<rparr>)"
    by (rule sched_step.tick) (simp add: demo_scheduled_def schedule_def Let_def SchedulerImpl_new_def)
  moreover have "sched_step (demo_scheduled\<lparr>sch_now := 5\<rparr>) demo_fired"
    by (rule sched_step.execute_begin) (rule demo_eval(1))
  ultimately show ?thesis
    using demo_scheduled_reach by (meson rtranclp.rtrancl_into_rtrancl)
qed

theorem timer_schedule_witness:
  "fired_at demo_fired 0 = [5] \<and> tt_due (sch_heap demo_fired ! 0) = 5 \<and> 5 \<le> sch_now demo_fired"
  using timer_schedule [OF demo_fired_reach, of 0] by (simp add: demo_eval Let_def)

text \<open>C20: A cancelled task does not run again: after \<open>cancel\<close> of a task whose callback is not running, no
  interleaving runs its callback.\<close>

theorem cancelled_never_fires:
  assumes "sched_step\<^sup>*\<^sup>* (SchedulerImpl_new last_id now) s" "sch_tasks s task_id = Some r"
    and "r \<notin> set (sch_running s)" "sched_step\<^sup>*\<^sup>* (cancel task_id s) s'"
  shows "fired_at s' r = fired_at s r"
proof -
  have inv: "sched_inv s" using sched_steps_inv [OF assms(1) sched_inv_new] .
  then have "r < length (sch_heap (cancel task_id s))"
    using assms(2) by (auto simp: sched_inv_def cancel_cong ran_def)
  moreover have "\<not> task_alive (cancel task_id s) r"
    using inv assms(2,3) by (auto simp: task_alive_def cancel_cong ran_def sched_inv_def inj_on_def dom_def)
  ultimately have "fired_at s' r = fired_at (cancel task_id s) r"
    using dead_steps [OF assms(4) sched_inv_cancel [OF inv]] by blast
  then show ?thesis by (simp add: fired_at_def cancel_cong)
qed


theorem cancelled_never_fires_witness: "fired_at (cancel 1 demo_scheduled\<lparr>sch_now := 5\<rparr>) 0 = []"
proof -
  have "sched_step\<^sup>*\<^sup>* (cancel 1 demo_scheduled) (cancel 1 demo_scheduled\<lparr>sch_now := 5\<rparr>)"
    by (intro r_into_rtranclp sched_step.tick)
      (simp add: cancel_cong demo_scheduled_def schedule_def Let_def SchedulerImpl_new_def)
  then show ?thesis
    using cancelled_never_fires [OF demo_scheduled_reach demo_eval(4)] demo_eval(5,6) by simp
qed

text \<open>When the 32-bit task number wraps around to one that is in use, \<open>insert\<close> keeps the old entry: the new
  task belongs to nobody, never fires, and its caller holds the number of the other task.\<close>

lemma wrapped_task_is_dead:
  assumes "sched_inv s" "sch_tasks s (sch_last_id s + 1) \<noteq> None"
  shows "\<not> task_alive (snd (schedule name delay interval s)) (length (sch_heap s))"
  using assms by (auto simp: sched_inv_def task_alive_def schedule_def Let_def)

text \<open>The latch opens: counting down as often as its count says releases every waiter, and \<open>await\<close> then
  does not wait.\<close>

lemma countdown_step:
  assumes "n < 2 ^ 31"
  shows "countdown \<lparr>cl_count = word_of_nat (Suc n), cl_waiting = w\<rparr> =
    \<lparr>cl_count = word_of_nat n, cl_waiting = (if n = 0 then 0 else w)\<rparr>"
proof -
  have "sint (word_of_nat n :: 32 word) = int n"
    using assms by (simp add: signed_of_nat signed_take_bit_int_eq_self)
  then show ?thesis by (simp add: countdown_def)
qed

lemma latch_opens:
  assumes "0 < n" "n < 2 ^ 31"
  shows "(countdown ^^ n) \<lparr>cl_count = word_of_nat n, cl_waiting = w\<rparr> = \<lparr>cl_count = 0, cl_waiting = 0\<rparr> \<and>
    await \<lparr>cl_count = 0, cl_waiting = 0\<rparr> = \<lparr>cl_count = 0, cl_waiting = 0\<rparr>"
  using assms
proof (induction n)
  case (Suc n)
  then show ?case
    using countdown_step [of n w] by (cases "n = 0") (simp_all add: funpow_Suc_right await_def del: funpow.simps of_nat_Suc)
qed simp

end
