(* ===== verification/ProcessQueue.thy ===== *)
theory ProcessQueue
  imports Message Sched
begin

text \<open>
  The process queue of a push consumer (rocketmq/ProcessQueueImpl.cpp), which counts the messages and
  bytes it has cached, asks for more and throttles, and filter expressions
  (rocketmq/FilterExpression.cpp).  A weak pointer to the consumer is an option: \<open>None\<close> when the consumer
  has been destroyed.  The clock reading of \<open>steady_clock\<close> is an argument, in milliseconds.
\<close>

section \<open>Data\<close>

datatype ExpressionType = TAG | SQL92

record FilterExpression =
  fe_content :: string
  fe_type :: ExpressionType

abbreviation WILD_CARD_TAG :: string where "WILD_CARD_TAG \<equiv> ''*''"

definition FilterExpression_new :: "string \<Rightarrow> ExpressionType \<Rightarrow> FilterExpression" where
  "FilterExpression_new expression t =
     \<lparr>fe_content = (if t = TAG \<and> expression = '''' then WILD_CARD_TAG else expression), fe_type = t\<rparr>"

definition accept :: "FilterExpression \<Rightarrow> MQMessage \<Rightarrow> bool" where
  "accept fe message =
     (case fe_type fe of
        TAG \<Rightarrow> if fe_content fe = WILD_CARD_TAG then True else sys_tag (m_sys message) = fe_content fe
      | SQL92 \<Rightarrow> True)"

datatype MessageModel = BROADCASTING | CLUSTERING

datatype MessageListenerType = STANDARD | FIFO_LISTENER

datatype ConsumeMessageResult = SUCCESS | FAILURE

text \<open>What a process queue asks its consumer.\<close>

record consumer_view =
  cv_group_name :: string
  cv_resource_namespace :: string
  cv_client_id :: string
  cv_message_model :: MessageModel
  cv_listener :: MessageListenerType
  cv_receive_batch_size :: int
  cv_max_cached_quantity :: u32
  cv_max_cached_memory :: u64
  cv_filter :: "string \<Rightarrow> FilterExpression option"
  cv_active :: bool

text \<open>\<open>pq_broadcast_task\<close> is the flag \<open>runnable_\<close> of the broadcast task, \<open>None\<close> before one exists.\<close>

record process_queue =
  pq_message_queue :: MQMessageQueue
  pq_filter_expression :: FilterExpression
  pq_invisible_time :: int
  pq_idle_since :: int
  pq_simple_name :: string
  pq_quantity :: u32
  pq_memory :: u64
  pq_next_offset :: int
  pq_broadcast_messages :: "MQMessage list"
  pq_broadcast_task :: "bool option"

definition ProcessQueue_new :: "MQMessageQueue \<Rightarrow> FilterExpression \<Rightarrow> int \<Rightarrow> process_queue" where
  "ProcessQueue_new mq fe now =
     \<lparr>pq_message_queue = mq, pq_filter_expression = fe, pq_invisible_time = DEFAULT_INVISIBLE_TIME,
      pq_idle_since = now, pq_simple_name = simpleName mq, pq_quantity = 0, pq_memory = 0,
      pq_next_offset = - 1, pq_broadcast_messages = [], pq_broadcast_task = None\<rparr>"

section \<open>Quota\<close>

definition expired :: "int \<Rightarrow> process_queue \<Rightarrow> bool" where
  "expired now pq \<longleftrightarrow> PROCESS_QUEUE_EXPIRATION_THRESHOLD < now - pq_idle_since pq"

definition syncIdleState :: "int \<Rightarrow> process_queue \<Rightarrow> process_queue" where
  "syncIdleState now pq = pq\<lparr>pq_idle_since := now\<rparr>"

definition shouldThrottle :: "consumer_view option \<Rightarrow> process_queue \<Rightarrow> bool" where
  "shouldThrottle consumer pq =
     (case consumer of
        None \<Rightarrow> False
      | Some c \<Rightarrow>
          if cv_max_cached_quantity c \<le> pq_quantity pq then True
          else if cv_max_cached_memory c \<noteq> 0 then cv_max_cached_memory c \<le> pq_memory pq
          else False)"

definition accountCache :: "consumer_view option \<Rightarrow> MQMessage list \<Rightarrow> process_queue \<Rightarrow> process_queue" where
  "accountCache consumer messages pq =
     (if consumer = None then pq
      else fold (\<lambda>m pq. pq\<lparr>pq_quantity := pq_quantity pq + 1,
                           pq_memory := pq_memory pq + of_nat (length (m_body m))\<rparr>) messages pq)"

definition release :: "consumer_view option \<Rightarrow> u64 \<Rightarrow> process_queue \<Rightarrow> process_queue" where
  "release consumer body_size pq =
     (if consumer = None then pq
      else pq\<lparr>pq_quantity := pq_quantity pq - 1, pq_memory := pq_memory pq - body_size\<rparr>)"

definition set_nextOffset :: "int \<Rightarrow> process_queue \<Rightarrow> process_queue" where
  "set_nextOffset v pq = pq\<lparr>pq_next_offset := v\<rparr>"

definition enqueueBroadcastMessages :: "MQMessage list \<Rightarrow> process_queue \<Rightarrow> process_queue" where
  "enqueueBroadcastMessages messages pq =
     pq\<lparr>pq_broadcast_messages := pq_broadcast_messages pq @ messages\<rparr>"

definition dequeBroadcastMessage :: "process_queue \<Rightarrow> MQMessage option \<times> process_queue" where
  "dequeBroadcastMessage pq =
     (case pq_broadcast_messages pq of
        [] \<Rightarrow> (None, pq)
      | m # ms \<Rightarrow> (Some (MQMessage_copy m), pq\<lparr>pq_broadcast_messages := ms\<rparr>))"

section \<open>Requests\<close>

datatype FilterType = PB_TAG | PB_SQL

record ReceiveMessageRequest =
  rmr_group :: Topic
  rmr_client_id :: string
  rmr_partition_topic :: Topic
  rmr_partition_id :: int
  rmr_broker_name :: string
  rmr_filter :: "FilterType \<times> string"
  rmr_batch_size :: int
  rmr_invisible_seconds :: int
  rmr_invisible_nanos :: int
  rmr_await_seconds :: int
  rmr_fifo_flag :: bool

record PullMessageRequest =
  pmr_group :: Topic
  pmr_partition_topic :: Topic
  pmr_partition_id :: int
  pmr_broker_name :: string
  pmr_offset :: int
  pmr_batch_size :: int
  pmr_await_seconds :: int
  pmr_filter :: "FilterType \<times> string"
  pmr_client_id :: string

definition wrapFilterExpression :: "consumer_view \<Rightarrow> string \<Rightarrow> FilterType \<times> string" where
  "wrapFilterExpression c topic =
     (case cv_filter c topic of
        Some e \<Rightarrow> (case fe_type e of TAG \<Rightarrow> (PB_TAG, fe_content e) | SQL92 \<Rightarrow> (PB_SQL, fe_content e))
      | None \<Rightarrow> (PB_TAG, ''*''))"

text \<open>The partition id is never set in a receive request, so it has the default of the protocol, 0.\<close>

definition wrapPopMessageRequest :: "consumer_view \<Rightarrow> process_queue \<Rightarrow> ReceiveMessageRequest" where
  "wrapPopMessageRequest c pq =
     (let mq = pq_message_queue pq; ns = cv_resource_namespace c; seconds = pq_invisible_time pq div 1000
      in \<lparr>rmr_group = \<lparr>t_resource_namespace = ns, t_name = cv_group_name c\<rparr>,
          rmr_client_id = cv_client_id c,
          rmr_partition_topic = \<lparr>t_resource_namespace = ns, t_name = mq_topic mq\<rparr>,
          rmr_partition_id = 0,
          rmr_broker_name = mq_broker_name mq,
          rmr_filter = wrapFilterExpression c (mq_topic mq),
          rmr_batch_size = cv_receive_batch_size c,
          rmr_invisible_seconds = seconds,
          rmr_invisible_nanos = (pq_invisible_time pq - seconds * 1000) * 1000000,
          rmr_await_seconds = 15,
          rmr_fifo_flag = (case cv_listener c of FIFO_LISTENER \<Rightarrow> True | STANDARD \<Rightarrow> False)\<rparr>)"

definition wrapPullMessageRequest :: "consumer_view \<Rightarrow> process_queue \<Rightarrow> PullMessageRequest" where
  "wrapPullMessageRequest c pq =
     (let mq = pq_message_queue pq; ns = cv_resource_namespace c
      in \<lparr>pmr_group = \<lparr>t_resource_namespace = ns, t_name = cv_group_name c\<rparr>,
          pmr_partition_topic = \<lparr>t_resource_namespace = ns, t_name = mq_topic mq\<rparr>,
          pmr_partition_id = mq_queue_id mq,
          pmr_broker_name = mq_broker_name mq,
          pmr_offset = pq_next_offset pq,
          pmr_batch_size = cv_receive_batch_size c,
          pmr_await_seconds = 15,
          pmr_filter = wrapFilterExpression c (mq_topic mq),
          pmr_client_id = cv_client_id c\<rparr>)"

text \<open>\<open>receiveMessage\<close>: the queue with its idle time reset and the request that goes out, if any.\<close>

datatype receive_request = Pop string ReceiveMessageRequest | Pull string PullMessageRequest

definition popMessage :: "consumer_view option \<Rightarrow> int \<Rightarrow> process_queue \<Rightarrow> process_queue \<times> receive_request option" where
  "popMessage consumer now pq =
     (case consumer of
        None \<Rightarrow> (pq, None)
      | Some c \<Rightarrow> (syncIdleState now pq,
          Some (Pop (mq_service_address (pq_message_queue pq)) (wrapPopMessageRequest c pq))))"

definition pullMessage :: "consumer_view option \<Rightarrow> int \<Rightarrow> process_queue \<Rightarrow> process_queue \<times> receive_request option" where
  "pullMessage consumer now pq =
     (case consumer of
        None \<Rightarrow> (pq, None)
      | Some c \<Rightarrow> (syncIdleState now pq,
          Some (Pull (mq_service_address (pq_message_queue pq)) (wrapPullMessageRequest c pq))))"

definition pq_receiveMessage ::
  "consumer_view option \<Rightarrow> int \<Rightarrow> process_queue \<Rightarrow> process_queue \<times> receive_request option" where
  "pq_receiveMessage consumer now pq =
     (case consumer of
        None \<Rightarrow> (pq, None)
      | Some c \<Rightarrow>
          (case cv_message_model c of
             CLUSTERING \<Rightarrow> popMessage consumer now pq
           | BROADCASTING \<Rightarrow> pullMessage consumer now pq))"

section \<open>Lemmas\<close>

definition body_bytes :: "MQMessage list \<Rightarrow> nat" where
  "body_bytes ms = (\<Sum>m\<leftarrow>ms. length (m_body m))"

lemma body_bytes_simps [simp]:
  "body_bytes [] = 0" "body_bytes (m # ms) = length (m_body m) + body_bytes ms"
  "body_bytes (xs @ ys) = body_bytes xs + body_bytes ys"
  by (simp_all add: body_bytes_def)

lemma accountCache_eq [pq_simps]:
  "accountCache None ms pq = pq"
  "accountCache (Some c) ms pq =
     pq\<lparr>pq_quantity := pq_quantity pq + of_nat (length ms), pq_memory := pq_memory pq + of_nat (body_bytes ms)\<rparr>"
  by (induction ms arbitrary: pq) (simp_all add: accountCache_def algebra_simps)

lemma release_eq [pq_simps]:
  "release None n pq = pq"
  "release (Some c) n pq = pq\<lparr>pq_quantity := pq_quantity pq - 1, pq_memory := pq_memory pq - n\<rparr>"
  by (simp_all add: release_def)

text \<open>Releasing every message that was accounted restores both counters, wrap-around included.\<close>

lemma account_release:
  "fold (\<lambda>m. release (Some c) (of_nat (length (m_body m)))) ms (accountCache (Some c) ms pq) = pq"
proof -
  have "fold (\<lambda>m. release (Some c) (of_nat (length (m_body m)))) ms p =
      p\<lparr>pq_quantity := pq_quantity p - of_nat (length ms), pq_memory := pq_memory p - of_nat (body_bytes ms)\<rparr>"
    for p by (induction ms arbitrary: p) (simp_all add: pq_simps algebra_simps)
  then show ?thesis by (simp add: pq_simps)
qed

lemma invisible_duration_exact:
  "rmr_invisible_seconds (wrapPopMessageRequest c pq) * 1000000000 + rmr_invisible_nanos (wrapPopMessageRequest c pq) =
     pq_invisible_time pq * 1000000"
  "0 \<le> rmr_invisible_nanos (wrapPopMessageRequest c pq) \<and> rmr_invisible_nanos (wrapPopMessageRequest c pq) < 1000000000"
proof -
  let ?t = "pq_invisible_time pq"
  have "?t - ?t div 1000 * 1000 = ?t mod 1000" by (simp add: minus_div_mult_eq_mod)
  moreover have "0 \<le> ?t mod 1000" "?t mod 1000 < 1000" by simp_all
  ultimately show "0 \<le> rmr_invisible_nanos (wrapPopMessageRequest c pq) \<and> rmr_invisible_nanos (wrapPopMessageRequest c pq) < 1000000000"
    unfolding wrapPopMessageRequest_def Let_def by simp
qed (simp add: wrapPopMessageRequest_def Let_def algebra_simps)

end
