(* ===== verification/ConsumeService.thy ===== *)
theory ConsumeService
  imports ProcessQueue
begin

text \<open>
  Consumption of received messages: consume tasks (rocketmq/ConsumeTask.cpp), the consume service
  (rocketmq/ConsumeMessageServiceImpl.cpp), the broadcast task (rocketmq/BroadcastTask.cpp) and the
  callback that keeps the receive loop of a process queue going
  (rocketmq/AsyncReceiveMessageCallback.cpp).  The answers of the broker, the results of the listener
  and the order in which workers and callbacks run are the nondeterminism of the step relations.
\<close>

section \<open>Consume tasks\<close>

datatype NextStep = Consume | Ack | Nack | Forward

record ConsumeTask =
  ct_messages :: "MQMessage list"
  ct_fifo :: bool
  ct_next_step :: NextStep

definition ConsumeTask_single :: "MQMessage \<Rightarrow> ConsumeTask" where
  "ConsumeTask_single m = \<lparr>ct_messages = [m], ct_fifo = False, ct_next_step = Consume\<rparr>"

definition ConsumeTask_batch :: "MQMessage list \<Rightarrow> ConsumeTask" where
  "ConsumeTask_batch ms = \<lparr>ct_messages = ms, ct_fifo = 1 < length ms, ct_next_step = Consume\<rparr>"

text \<open>A destroyed process queue is \<open>None\<close>: then \<open>pop\<close> leaves the message in place.\<close>

definition task_pop ::
  "consumer_view option \<Rightarrow> process_queue option \<Rightarrow> ConsumeTask \<Rightarrow> process_queue option \<times> ConsumeTask" where
  "task_pop consumer pq t =
     (case pq of
        None \<Rightarrow> (None, t)
      | Some q \<Rightarrow> (Some (release consumer (of_nat (length (m_body (hd (ct_messages t))))) q),
                  t\<lparr>ct_messages := tl (ct_messages t)\<rparr>))"

text \<open>What a callback does with its task at the end: \<open>submit\<close> it to the service or \<open>schedule\<close> it.\<close>

datatype follow_up = Submit | Schedule

definition onAck ::
  "consumer_view option \<Rightarrow> ErrorCode \<Rightarrow> process_queue option \<Rightarrow> ConsumeTask \<Rightarrow>
   process_queue option \<times> ConsumeTask \<times> follow_up" where
  "onAck consumer ec pq t =
     (if \<not> ec_bool ec
      then let (pq', t') = task_pop consumer pq t in (pq', t'\<lparr>ct_next_step := Consume\<rparr>, Submit)
      else (pq, t\<lparr>ct_next_step := Ack\<rparr>, Schedule))"

definition onNack ::
  "consumer_view option \<Rightarrow> ErrorCode \<Rightarrow> process_queue option \<Rightarrow> ConsumeTask \<Rightarrow>
   process_queue option \<times> ConsumeTask \<times> follow_up" where
  "onNack consumer ec pq t =
     (if \<not> ec_bool ec
      then let (pq', t') = task_pop consumer pq t in (pq', t'\<lparr>ct_next_step := Consume\<rparr>, Submit)
      else (pq, t\<lparr>ct_next_step := Nack\<rparr>, Schedule))"

definition onForward ::
  "consumer_view option \<Rightarrow> bool \<Rightarrow> process_queue option \<Rightarrow> ConsumeTask \<Rightarrow>
   process_queue option \<times> ConsumeTask \<times> follow_up" where
  "onForward consumer successful pq t =
     (if \<not> successful
      then let (pq', t') = task_pop consumer pq t in (pq', t'\<lparr>ct_next_step := Consume\<rparr>, Submit)
      else (pq, t\<lparr>ct_next_step := Forward\<rparr>, Schedule))"

text \<open>\<open>process\<close>: the message handed to the listener, if any, the request that is sent, and the task.  The
  listener's result is an argument.  \<open>setDeliveryAttempt\<close> is \<open>MessageAccessor\<close>'s.\<close>

datatype task_action = Nothing | SendAck | SendNack | SendForward | Rescheduled

definition process ::
  "MessageModel \<Rightarrow> ConsumeMessageResult \<Rightarrow> ConsumeTask \<Rightarrow> MQMessage option \<times> task_action \<times> ConsumeTask" where
  "process model result t =
     (case ct_messages t of
        [] \<Rightarrow> (None, Nothing, t)
      | m # ms \<Rightarrow>
          if model = BROADCASTING then (None, Nothing, t)
          else (case ct_next_step t of
                  Consume \<Rightarrow>
                    (case result of
                       SUCCESS \<Rightarrow> (Some m, SendAck, t)
                     | FAILURE \<Rightarrow>
                         if ct_fifo t
                         then (Some m, Rescheduled,
                               t\<lparr>ct_next_step := Consume,
                                 ct_messages := setDeliveryAttempt (sys_attempt_times (m_sys m) + 1) m # ms\<rparr>)
                         else (Some m, SendNack, t))
                | Ack \<Rightarrow> (None, SendAck, t)
                | Nack \<Rightarrow> (None, SendNack, t)
                | Forward \<Rightarrow> (None, SendForward, t)))"

section \<open>The service\<close>

record consume_service =
  svc_state :: State
  svc_pool :: "ConsumeTask thread_pool"

definition ConsumeMessageService_new :: "nat \<Rightarrow> consume_service" where
  "ConsumeMessageService_new threads =
     \<lparr>svc_state = CREATED, svc_pool = \<lparr>tp_workers = threads, tp_state = CREATED, tp_queue = []\<rparr>\<rparr>"

text \<open>\<open>pool_->start()\<close> leaves the pool \<open>STARTED\<close>.\<close>

definition svc_start :: "consume_service \<Rightarrow> consume_service" where
  "svc_start s =
     (let (st, ok) = compare_exchange_strong (svc_state s) CREATED STARTING
      in if ok then s\<lparr>svc_state := st, svc_pool := (svc_pool s)\<lparr>tp_state := STARTED\<rparr>\<rparr> else s)"

definition svc_shutdown :: "consume_service \<Rightarrow> consume_service" where
  "svc_shutdown s =
     (let (st, ok) = compare_exchange_strong (svc_state s) STOPPING STOPPED
      in if ok then s\<lparr>svc_state := st, svc_pool := tp_shutdown (svc_pool s)\<rparr> else s)"

definition svc_submit :: "ConsumeTask \<Rightarrow> consume_service \<Rightarrow> consume_service" where
  "svc_submit t s = s\<lparr>svc_pool := tp_submit t (svc_pool s)\<rparr>"

text \<open>The body of \<open>schedule\<close> is empty.\<close>

definition svc_schedule :: "ConsumeTask \<Rightarrow> consume_service \<Rightarrow> consume_service" where
  "svc_schedule t s = s"

text \<open>The tasks \<open>dispatch\<close> makes of received messages, the broadcast with a FIFO listener apart.\<close>

definition dispatch_tasks :: "MessageListenerType \<Rightarrow> MQMessage list \<Rightarrow> ConsumeTask list" where
  "dispatch_tasks listener ms =
     (case listener of FIFO_LISTENER \<Rightarrow> [ConsumeTask_batch ms] | STANDARD \<Rightarrow> map ConsumeTask_single ms)"

definition dispatch ::
  "consumer_view option \<Rightarrow> MQMessage list \<Rightarrow> process_queue \<Rightarrow> consume_service \<Rightarrow> process_queue \<times> consume_service \<times> bool" where
  "dispatch consumer ms pq s =
     (case consumer of
        None \<Rightarrow> (pq, s, False)
      | Some c \<Rightarrow>
          let pq1 = accountCache consumer ms pq
          in if cv_listener c = FIFO_LISTENER \<and> cv_message_model c = BROADCASTING
             then let pq2 = enqueueBroadcastMessages ms pq1;
                      pq3 = (if pq_broadcast_task pq2 = None then pq2\<lparr>pq_broadcast_task := Some False\<rparr> else pq2)
                  in (pq3, s, pq_broadcast_task pq3 = Some False)
             else (pq1, fold svc_submit (dispatch_tasks (cv_listener c) ms) s, False))"

section \<open>The receive loop\<close>

text \<open>A process queue has one receive request under way, or a timer that asks again, or neither.\<close>

datatype receive_loop = InFlight | Later | Stopped

text \<open>\<open>receiveMessageImmediately\<close> ends in \<open>PushConsumerImpl::receiveMessage\<close>, which sends nothing when the
  consumer is not active or the queue has no address.\<close>

definition receiveMessageImmediately ::
  "consumer_view \<Rightarrow> int \<Rightarrow> process_queue \<Rightarrow> process_queue \<times> receive_loop" where
  "receiveMessageImmediately c now pq =
     (if cv_active c \<and> mq_service_address (pq_message_queue pq) \<noteq> ''''
      then (fst (pq_receiveMessage (Some c) now pq), InFlight) else (pq, Stopped))"

definition checkThrottleThenReceive ::
  "consumer_view \<Rightarrow> int \<Rightarrow> process_queue \<Rightarrow> process_queue \<times> receive_loop" where
  "checkThrottleThenReceive c now pq =
     (if shouldThrottle (Some c) pq then (syncIdleState now pq, Later)
      else receiveMessageImmediately c now pq)"

definition onCompletion ::
  "consumer_view \<Rightarrow> int \<Rightarrow> ErrorCode \<Rightarrow> MQMessage list \<Rightarrow> process_queue \<Rightarrow> consume_service \<Rightarrow>
   process_queue \<times> consume_service \<times> receive_loop" where
  "onCompletion c now ec ms pq s =
     (if \<not> cv_active c then (pq, s, Stopped)
      else if ec_bool ec then (pq, s, Later)
      else let (pq1, s1, _) = dispatch (Some c) ms pq s;
               (pq2, loop) = checkThrottleThenReceive c now pq1
           in (pq2, s1, loop))"

section \<open>The whole: one process queue and its tasks\<close>

text \<open>\<open>cs_pq\<close> is \<open>None\<close> once the queue has been rebalanced away.  A task is in the queue of the pool, waits
  for an answer, or is lost: nothing refers to it any more, so its messages are neither consumed nor released.
  \<open>cs_received\<close>, \<open>cs_delivered\<close> and \<open>cs_completed\<close> record the messages received, those handed to the listener
  with its result, and those popped.\<close>

record consume_sys =
  cs_pq :: "process_queue option"
  cs_service :: consume_service
  cs_acking :: "ConsumeTask list"
  cs_nacking :: "ConsumeTask list"
  cs_forwarding :: "ConsumeTask list"
  cs_lost :: "ConsumeTask list"
  cs_loop :: receive_loop
  cs_received :: "MQMessage list"
  cs_delivered :: "(MQMessage \<times> ConsumeMessageResult) list"
  cs_completed :: "MQMessage list"

definition consume_start :: "consume_service \<Rightarrow> process_queue \<Rightarrow> consume_sys" where
  "consume_start s pq =
     \<lparr>cs_pq = Some pq, cs_service = s, cs_acking = [], cs_nacking = [], cs_forwarding = [], cs_lost = [],
      cs_loop = InFlight, cs_received = [], cs_delivered = [], cs_completed = []\<rparr>"

definition remove_nth :: "nat \<Rightarrow> 'a list \<Rightarrow> 'a list" where
  "remove_nth i xs = take i xs @ drop (Suc i) xs"

definition pool_accepts :: "consume_sys \<Rightarrow> bool" where
  "pool_accepts s \<longleftrightarrow> tp_state (svc_pool (cs_service s)) = STARTED"

text \<open>How a callback leaves the system: the process queue, the popped message, and the task submitted or
  scheduled.\<close>

definition finish ::
  "process_queue option \<times> ConsumeTask \<times> follow_up \<Rightarrow> MQMessage list \<Rightarrow> consume_sys \<Rightarrow> consume_sys" where
  "finish r popped s =
     (case r of (pq', t, f) \<Rightarrow>
        let s1 = s\<lparr>cs_pq := pq', cs_completed := cs_completed s @ popped\<rparr>
        in case f of
             Submit \<Rightarrow> if pool_accepts s1 then s1\<lparr>cs_service := svc_submit t (cs_service s1)\<rparr>
                       else s1\<lparr>cs_lost := cs_lost s1 @ [t]\<rparr>
           | Schedule \<Rightarrow> s1\<lparr>cs_service := svc_schedule t (cs_service s1), cs_lost := cs_lost s1 @ [t]\<rparr>)"

definition popped_by :: "consume_sys \<Rightarrow> bool \<Rightarrow> ConsumeTask \<Rightarrow> MQMessage list" where
  "popped_by s ok t = (if ok \<and> cs_pq s \<noteq> None then [hd (ct_messages t)] else [])"

definition run_task :: "consumer_view \<Rightarrow> ConsumeMessageResult \<Rightarrow> consume_sys \<Rightarrow> consume_sys option" where
  "run_task c result s =
     (case tp_queue (svc_pool (cs_service s)) of
        [] \<Rightarrow> None
      | t # rest \<Rightarrow>
          let (heard, act, t') = process (cv_message_model c) result t;
              s1 = s\<lparr>cs_service := (cs_service s)\<lparr>svc_pool := (svc_pool (cs_service s))\<lparr>tp_queue := rest\<rparr>\<rparr>,
                     cs_delivered := cs_delivered s @ (case heard of None \<Rightarrow> [] | Some m \<Rightarrow> [(m, result)])\<rparr>
          in Some (case act of
                Nothing \<Rightarrow> s1\<lparr>cs_lost := cs_lost s1 @ [t']\<rparr>
              | SendAck \<Rightarrow> s1\<lparr>cs_acking := cs_acking s1 @ [t']\<rparr>
              | SendNack \<Rightarrow> s1\<lparr>cs_nacking := cs_nacking s1 @ [t']\<rparr>
              | SendForward \<Rightarrow> s1\<lparr>cs_forwarding := cs_forwarding s1 @ [t']\<rparr>
              | Rescheduled \<Rightarrow> s1\<lparr>cs_service := svc_schedule t' (cs_service s1), cs_lost := cs_lost s1 @ [t']\<rparr>))"

text \<open>The broker answers a receive request with at most \<open>batch\<close> messages.\<close>

inductive consume_step :: "consumer_view \<Rightarrow> nat \<Rightarrow> consume_sys \<Rightarrow> consume_sys \<Rightarrow> bool" for c batch where
  received: "cs_loop s = InFlight \<Longrightarrow> cs_pq s = Some pq \<Longrightarrow> length ms \<le> batch \<Longrightarrow>
    onCompletion c now Success ms pq (cs_service s) = (pq', svc', loop) \<Longrightarrow>
    consume_step c batch s (s\<lparr>cs_pq := Some pq', cs_service := svc', cs_loop := loop,
      cs_received := cs_received s @ (if cv_active c then ms else [])\<rparr>)"
| receive_failed: "cs_loop s = InFlight \<Longrightarrow> cs_pq s = Some pq \<Longrightarrow> ec_bool ec \<Longrightarrow>
    onCompletion c now ec [] pq (cs_service s) = (pq', svc', loop) \<Longrightarrow>
    consume_step c batch s (s\<lparr>cs_pq := Some pq', cs_service := svc', cs_loop := loop\<rparr>)"
| timer: "cs_loop s = Later \<Longrightarrow> cs_pq s = Some pq \<Longrightarrow> checkThrottleThenReceive c now pq = (pq', loop) \<Longrightarrow>
    consume_step c batch s (s\<lparr>cs_pq := Some pq', cs_loop := loop\<rparr>)"
| run: "run_task c result s = Some s' \<Longrightarrow> consume_step c batch s s'"
| acked: "i < length (cs_acking s) \<Longrightarrow> t = cs_acking s ! i \<Longrightarrow>
    consume_step c batch s (finish (onAck (Some c) ec (cs_pq s) t) (popped_by s (\<not> ec_bool ec) t)
      (s\<lparr>cs_acking := remove_nth i (cs_acking s)\<rparr>))"
| nacked: "i < length (cs_nacking s) \<Longrightarrow> t = cs_nacking s ! i \<Longrightarrow>
    consume_step c batch s (finish (onNack (Some c) ec (cs_pq s) t) (popped_by s (\<not> ec_bool ec) t)
      (s\<lparr>cs_nacking := remove_nth i (cs_nacking s)\<rparr>))"
| forwarded: "i < length (cs_forwarding s) \<Longrightarrow> t = cs_forwarding s ! i \<Longrightarrow>
    consume_step c batch s (finish (onForward (Some c) ok (cs_pq s) t) (popped_by s (\<not> ok) t)
      (s\<lparr>cs_forwarding := remove_nth i (cs_forwarding s)\<rparr>))"
| rebalanced: "consume_step c batch s (s\<lparr>cs_pq := None, cs_loop := Stopped\<rparr>)"

section \<open>Broadcasting with a FIFO listener\<close>

text \<open>Where a worker stands in \<open>BroadcastTask::process\<close>: before the exchange of \<open>runnable_\<close>, at the head of the
  loop, holding a message, past the loop.  The receiving thread stands between enqueueing and the test of
  \<open>runnable_\<close>, or elsewhere.\<close>

datatype broadcast_pc = BEnter | BLoop | BHold MQMessage | BExit

record broadcast_sys =
  bs_queue :: "MQMessage list"
  bs_runnable :: bool
  bs_dispatching :: bool
  bs_workers :: "broadcast_pc list"
  bs_enqueued :: "MQMessage list"
  bs_handled :: "MQMessage list"

definition broadcast_start :: broadcast_sys where
  "broadcast_start = \<lparr>bs_queue = [], bs_runnable = False, bs_dispatching = False, bs_workers = [],
     bs_enqueued = [], bs_handled = []\<rparr>"

inductive broadcast_step :: "broadcast_sys \<Rightarrow> broadcast_sys \<Rightarrow> bool" where
  enqueue: "\<not> bs_dispatching s \<Longrightarrow>
    broadcast_step s (s\<lparr>bs_queue := bs_queue s @ ms, bs_enqueued := bs_enqueued s @ ms, bs_dispatching := True\<rparr>)"
| submit: "bs_dispatching s \<Longrightarrow>
    broadcast_step s (s\<lparr>bs_dispatching := False,
      bs_workers := bs_workers s @ (if bs_runnable s then [] else [BEnter])\<rparr>)"
| enter: "i < length (bs_workers s) \<Longrightarrow> bs_workers s ! i = BEnter \<Longrightarrow>
    broadcast_step s (s\<lparr>bs_runnable := True,
      bs_workers := (if bs_runnable s then remove_nth i (bs_workers s) else (bs_workers s)[i := BLoop])\<rparr>)"
| deque: "i < length (bs_workers s) \<Longrightarrow> bs_workers s ! i = BLoop \<Longrightarrow> bs_queue s = m # ms \<Longrightarrow>
    broadcast_step s (s\<lparr>bs_queue := ms, bs_workers := (bs_workers s)[i := BHold m]\<rparr>)"
| consume: "i < length (bs_workers s) \<Longrightarrow> bs_workers s ! i = BHold m \<Longrightarrow>
    broadcast_step s (s\<lparr>bs_handled := bs_handled s @ [m], bs_workers := (bs_workers s)[i := BLoop]\<rparr>)"
| drained: "i < length (bs_workers s) \<Longrightarrow> bs_workers s ! i = BLoop \<Longrightarrow> bs_queue s = [] \<Longrightarrow>
    broadcast_step s (s\<lparr>bs_workers := (bs_workers s)[i := BExit]\<rparr>)"
| leave: "i < length (bs_workers s) \<Longrightarrow> bs_workers s ! i = BExit \<Longrightarrow>
    broadcast_step s (s\<lparr>bs_runnable := False, bs_workers := remove_nth i (bs_workers s)\<rparr>)"

section \<open>No message is lost track of\<close>

text \<open>Messages are compared by identifier and size, which no operation here changes.\<close>

definition msg_key :: "MQMessage \<Rightarrow> string \<times> nat" where
  "msg_key m = (sys_message_id (m_sys m), length (m_body m))"

definition keys_of :: "MQMessage list \<Rightarrow> (string \<times> nat) multiset" where
  "keys_of ms = image_mset msg_key (mset ms)"

definition task_keys :: "ConsumeTask list \<Rightarrow> (string \<times> nat) multiset" where
  "task_keys ts = (\<Sum>t\<leftarrow>ts. keys_of (ct_messages t))"

definition held_tasks :: "consume_sys \<Rightarrow> ConsumeTask list" where
  "held_tasks s = tp_queue (svc_pool (cs_service s)) @ cs_acking s @ cs_nacking s @ cs_forwarding s @ cs_lost s"

definition held_keys :: "consume_sys \<Rightarrow> (string \<times> nat) multiset" where
  "held_keys s = task_keys (held_tasks s)"

lemma keys_of_simps [simp]:
  "keys_of [] = {#}" "keys_of (m # ms) = add_mset (msg_key m) (keys_of ms)"
  "keys_of (xs @ ys) = keys_of xs + keys_of ys"
  by (simp_all add: keys_of_def)

lemma task_keys_simps [simp]:
  "task_keys [] = {#}" "task_keys (t # ts) = keys_of (ct_messages t) + task_keys ts"
  "task_keys (xs @ ys) = task_keys xs + task_keys ys"
  by (simp_all add: task_keys_def)

lemma task_keys_remove_nth:
  "i < length ts \<Longrightarrow> task_keys ts = keys_of (ct_messages (ts ! i)) + task_keys (remove_nth i ts)"
  by (subst id_take_nth_drop) (simp_all add: remove_nth_def ac_simps)

lemma set_remove_nth: "set (remove_nth i ts) \<subseteq> set ts"
  unfolding remove_nth_def using set_take_subset set_drop_subset by fastforce

lemma size_keys_of: "size (keys_of ms) = length ms"
  by (simp add: keys_of_def)

lemma sum_keys_of: "sum_mset (image_mset snd (keys_of ms)) = body_bytes ms"
  by (induction ms) (simp_all add: msg_key_def)

lemma msg_key_attempt [simp]: "msg_key (setDeliveryAttempt n m) = msg_key m"
  by (simp add: msg_key_def setDeliveryAttempt_def)

lemma task_keys_dispatch: "task_keys (dispatch_tasks listener ms) = keys_of ms"
proof (cases listener)
  case STANDARD
  have "task_keys (map ConsumeTask_single ms) = keys_of ms"
    by (induction ms) (simp_all add: ConsumeTask_single_def)
  with STANDARD show ?thesis by (simp add: dispatch_tasks_def)
qed (simp add: dispatch_tasks_def ConsumeTask_batch_def)

text \<open>The pool of a started service never stops, so every submission arrives.\<close>

lemma fold_submit:
  "tp_state (svc_pool s) = STARTED \<Longrightarrow> fold svc_submit ts s = s\<lparr>svc_pool := (svc_pool s)\<lparr>tp_queue := tp_queue (svc_pool s) @ ts\<rparr>\<rparr>"
  by (induction ts arbitrary: s) (simp_all add: svc_submit_def tp_submit_def)

lemma onCompletion_ok:
  assumes "cv_message_model c = CLUSTERING" "tp_state (svc_pool svc) = STARTED"
    and "onCompletion c now Success ms pq svc = (pq', svc', loop)"
  shows "tp_state (svc_pool svc') = STARTED \<and>
    (if cv_active c
     then tp_queue (svc_pool svc') = tp_queue (svc_pool svc) @ dispatch_tasks (cv_listener c) ms \<and>
       pq_quantity pq' = pq_quantity pq + of_nat (length ms) \<and> pq_memory pq' = pq_memory pq + of_nat (body_bytes ms) \<and>
       (loop = InFlight \<longrightarrow> \<not> shouldThrottle (Some c) pq')
     else svc' = svc \<and> pq' = pq \<and> loop = Stopped)"
  using assms
  by (auto simp: onCompletion_def dispatch_def Let_def fold_submit pq_simps checkThrottleThenReceive_def
      receiveMessageImmediately_def pq_receiveMessage_def popMessage_def syncIdleState_def shouldThrottle_def
      split: if_splits)

definition consume_inv :: "consumer_view \<Rightarrow> nat \<Rightarrow> consume_sys \<Rightarrow> bool" where
  "consume_inv c batch s \<longleftrightarrow>
     tp_state (svc_pool (cs_service s)) = STARTED \<and>
     (\<forall>t \<in> set (tp_queue (svc_pool (cs_service s))). ct_next_step t = Consume) \<and> cs_forwarding s = [] \<and>
     (\<forall>t \<in> set (cs_acking s) \<union> set (cs_nacking s). ct_messages t \<noteq> []) \<and>
     keys_of (cs_received s) = held_keys s + keys_of (cs_completed s) \<and>
     (case cs_pq s of
        None \<Rightarrow> True
      | Some pq \<Rightarrow>
          pq_quantity pq = of_nat (size (held_keys s)) \<and>
          pq_memory pq = of_nat (sum_mset (image_mset snd (held_keys s))) \<and>
          size (held_keys s) \<le> max 1 (unat (cv_max_cached_quantity c)) - 1 + batch \<and>
          (cs_loop s = InFlight \<longrightarrow> size (held_keys s) \<le> max 1 (unat (cv_max_cached_quantity c)) - 1))"

text \<open>What \<open>onAck\<close> and \<open>onNack\<close> have in common.\<close>

definition task_result ::
  "process_queue option \<Rightarrow> ConsumeTask \<Rightarrow> MQMessage list \<Rightarrow> process_queue option \<times> ConsumeTask \<times> follow_up \<Rightarrow> bool" where
  "task_result pq t popped r \<longleftrightarrow>
     (case r of (pq', t', f) \<Rightarrow>
        (f = Submit \<longrightarrow> ct_next_step t' = Consume) \<and>
        keys_of (ct_messages t) = keys_of (ct_messages t') + keys_of popped \<and>
        (case (pq, pq') of
           (None, None) \<Rightarrow> True
         | (Some q, Some q') \<Rightarrow> pq_quantity q' = pq_quantity q - of_nat (length popped) \<and>
             pq_memory q' = pq_memory q - of_nat (body_bytes popped)
         | _ \<Rightarrow> False))"

lemma task_pop_result:
  assumes "ct_messages t \<noteq> []" "task_pop (Some c) pq t = (pq', t')"
  shows "task_result pq t (if pq \<noteq> None then [hd (ct_messages t)] else []) (pq', t'\<lparr>ct_next_step := Consume\<rparr>, Submit)"
  using assms by (cases "ct_messages t"; cases pq) (auto simp: task_result_def task_pop_def pq_simps)

lemma onAck_result:
  assumes "ct_messages t \<noteq> []"
  shows "task_result (cs_pq s) t (popped_by s (\<not> ec_bool ec) t) (onAck (Some c) ec (cs_pq s) t)"
proof (cases "ec = Success")
  case True
  obtain pq' t' where "task_pop (Some c) (cs_pq s) t = (pq', t')" by (rule prod.exhaust)
  with task_pop_result [OF assms this] True show ?thesis by (simp add: onAck_def popped_by_def)
qed (simp add: onAck_def popped_by_def task_result_def split: option.split)

lemma onNack_result:
  assumes "ct_messages t \<noteq> []"
  shows "task_result (cs_pq s) t (popped_by s (\<not> ec_bool ec) t) (onNack (Some c) ec (cs_pq s) t)"
proof (cases "ec = Success")
  case True
  obtain pq' t' where "task_pop (Some c) (cs_pq s) t = (pq', t')" by (rule prod.exhaust)
  with task_pop_result [OF assms this] True show ?thesis by (simp add: onNack_def popped_by_def)
qed (simp add: onNack_def popped_by_def task_result_def split: option.split)

text \<open>A callback takes its task \<open>t\<close> out of a waiting list (\<open>s\<close> becomes \<open>s1\<close>) and finishes.\<close>

lemma finish_inv:
  assumes inv: "consume_inv c batch s"
    and res: "task_result (cs_pq s) t popped r"
    and s1: "cs_pq s1 = cs_pq s" "cs_service s1 = cs_service s" "cs_forwarding s1 = cs_forwarding s"
      "cs_received s1 = cs_received s" "cs_completed s1 = cs_completed s" "cs_loop s1 = cs_loop s"
      "set (cs_acking s1) \<subseteq> set (cs_acking s)" "set (cs_nacking s1) \<subseteq> set (cs_nacking s)"
    and keys: "held_keys s = keys_of (ct_messages t) + held_keys s1"
  shows "consume_inv c batch (finish r popped s1)"
proof -
  obtain pq' t' f where r: "r = (pq', t', f)" by (rule prod_cases3)
  let ?s = "finish r popped s1"
  have st: "pool_accepts (s1\<lparr>cs_pq := pq', cs_completed := cs_completed s1 @ popped\<rparr>)"
    using inv s1 by (simp add: pool_accepts_def consume_inv_def)
  have fields: "cs_pq ?s = pq'" "cs_completed ?s = cs_completed s @ popped" "cs_received ?s = cs_received s"
      "cs_acking ?s = cs_acking s1" "cs_nacking ?s = cs_nacking s1" "cs_forwarding ?s = cs_forwarding s"
      "cs_loop ?s = cs_loop s" "tp_state (svc_pool (cs_service ?s)) = STARTED"
      "set (tp_queue (svc_pool (cs_service ?s))) \<subseteq> set (tp_queue (svc_pool (cs_service s))) \<union> (if f = Submit then {t'} else {})"
    using st s1 inv by (simp_all add: finish_def r Let_def svc_submit_def tp_submit_def svc_schedule_def
        pool_accepts_def consume_inv_def split: follow_up.split)
  have held: "held_keys ?s = held_keys s1 + keys_of (ct_messages t')"
    using st s1 by (cases f) (simp_all add: finish_def r Let_def held_keys_def held_tasks_def svc_submit_def
        tp_submit_def svc_schedule_def pool_accepts_def ac_simps)
  have k: "keys_of (ct_messages t) = keys_of (ct_messages t') + keys_of popped"
    using res by (simp add: task_result_def r)
  have le: "held_keys s = held_keys ?s + keys_of popped" using keys k held by (simp add: ac_simps)
  have len: "size (held_keys s) = size (held_keys ?s) + length popped"
    "sum_mset (image_mset snd (held_keys s)) = sum_mset (image_mset snd (held_keys ?s)) + body_bytes popped"
    using le by (simp_all add: size_keys_of sum_keys_of)
  have pq: "case (cs_pq s, pq') of (None, None) \<Rightarrow> True
      | (Some q, Some q') \<Rightarrow> pq_quantity q' = pq_quantity q - of_nat (length popped) \<and>
          pq_memory q' = pq_memory q - of_nat (body_bytes popped)
      | _ \<Rightarrow> False"
    using res by (simp add: task_result_def r)
  have "keys_of (cs_received ?s) = held_keys ?s + keys_of (cs_completed ?s)"
    using inv le by (simp add: consume_inv_def fields ac_simps)
  moreover have "f = Submit \<longrightarrow> ct_next_step t' = Consume" using res by (simp add: task_result_def r)
  ultimately show ?thesis
    using inv fields s1 pq len unfolding consume_inv_def
    by (cases "cs_pq s"; cases pq') (auto split: if_splits)
qed


lemma not_throttled:
  assumes "\<not> shouldThrottle (Some c) pq" "pq_quantity pq = of_nat n" "n < 2 ^ 32"
  shows "n \<le> max 1 (unat (cv_max_cached_quantity c)) - 1"
proof -
  have "pq_quantity pq < cv_max_cached_quantity c"
    using assms(1) by (simp add: shouldThrottle_def not_le split: if_splits)
  then have "unat (of_nat n :: u32) < unat (cv_max_cached_quantity c)"
    using assms(2) by (simp add: word_less_nat_alt)
  then show ?thesis using unat_u32_of_nat [OF assms(3)] by simp
qed

lemma received_inv:
  assumes "consume_inv c batch s" "cv_message_model c = CLUSTERING" "unat (cv_max_cached_quantity c) + batch < 2 ^ 32"
    and "cs_loop s = InFlight" "cs_pq s = Some pq" "length ms \<le> batch"
    and ok: "onCompletion c now Success ms pq (cs_service s) = (pq', svc', loop)"
  shows "consume_inv c batch (s\<lparr>cs_pq := Some pq', cs_service := svc', cs_loop := loop,
      cs_received := cs_received s @ (if cv_active c then ms else [])\<rparr>)"
proof -
  let ?s = "s\<lparr>cs_pq := Some pq', cs_service := svc', cs_loop := loop,
      cs_received := cs_received s @ (if cv_active c then ms else [])\<rparr>"
  have started: "tp_state (svc_pool (cs_service s)) = STARTED" using assms(1) by (simp add: consume_inv_def)
  note res = onCompletion_ok [OF assms(2) started ok]
  show ?thesis
  proof (cases "cv_active c")
    case False
    with res assms(1,5) show ?thesis by (simp add: consume_inv_def held_keys_def held_tasks_def)
  next
    case True
    have held: "held_keys ?s = held_keys s + keys_of ms"
      using res True by (simp add: held_keys_def held_tasks_def task_keys_dispatch ac_simps)
    have bound: "size (held_keys s) \<le> max 1 (unat (cv_max_cached_quantity c)) - 1"
      using assms(1,4,5) by (simp add: consume_inv_def)
    have len: "size (held_keys ?s) = size (held_keys s) + length ms"
      "sum_mset (image_mset snd (held_keys ?s)) = sum_mset (image_mset snd (held_keys s)) + body_bytes ms"
      by (simp_all add: held size_keys_of sum_keys_of)
    have q: "pq_quantity pq' = of_nat (size (held_keys ?s))"
      "pq_memory pq' = of_nat (sum_mset (image_mset snd (held_keys ?s)))"
      using res True assms(1,5) unfolding len by (simp_all add: consume_inv_def)
    have small: "size (held_keys ?s) < 2 ^ 32" using bound len(1) assms(3,6) by (simp add: max_def split: if_splits)
    have "loop = InFlight \<Longrightarrow> size (held_keys ?s) \<le> max 1 (unat (cv_max_cached_quantity c)) - 1"
      using not_throttled [OF _ q(1) small] res True by simp
    moreover have "\<forall>t \<in> set (dispatch_tasks (cv_listener c) ms). ct_next_step t = Consume"
      by (auto simp: dispatch_tasks_def ConsumeTask_batch_def ConsumeTask_single_def split: MessageListenerType.split)
    moreover have "size (held_keys ?s) \<le> max 1 (unat (cv_max_cached_quantity c)) - 1 + batch"
      using bound len(1) assms(6) by simp
    moreover have "keys_of (cs_received ?s) = held_keys ?s + keys_of (cs_completed ?s)"
      using assms(1) True held by (simp add: consume_inv_def ac_simps)
    ultimately show ?thesis
      using res True assms(1) q unfolding consume_inv_def by auto
  qed
qed

lemma throttle_check_inv:
  assumes "consume_inv c batch s" "unat (cv_max_cached_quantity c) + batch < 2 ^ 32" "cs_pq s = Some pq"
    and chk: "checkThrottleThenReceive c now pq = (pq', loop)"
  shows "consume_inv c batch (s\<lparr>cs_pq := Some pq', cs_loop := loop\<rparr>)"
proof -
  have same: "pq_quantity pq' = pq_quantity pq" "pq_memory pq' = pq_memory pq"
    and t: "loop = InFlight \<Longrightarrow> \<not> shouldThrottle (Some c) pq"
    using chk by (auto simp: checkThrottleThenReceive_def receiveMessageImmediately_def pq_receiveMessage_def
        popMessage_def pullMessage_def syncIdleState_def split: if_splits MessageModel.splits)
  have q: "pq_quantity pq = of_nat (size (held_keys s))"
    and b: "size (held_keys s) \<le> max 1 (unat (cv_max_cached_quantity c)) - 1 + batch"
    using assms(1,3) by (simp_all add: consume_inv_def)
  from b assms(2) have "size (held_keys s) < 2 ^ 32 " by (simp add: max_def split: if_splits)
  then have "loop = InFlight \<Longrightarrow> size (held_keys s) \<le> max 1 (unat (cv_max_cached_quantity c)) - 1"
    using not_throttled [OF t q] by simp
  with assms(1,3) same show ?thesis by (simp add: consume_inv_def held_keys_def held_tasks_def)
qed

lemma process_clustering:
  assumes "process CLUSTERING result t = (heard, act, t')" "ct_next_step t = Consume"
  shows "keys_of (ct_messages t') = keys_of (ct_messages t) \<and> act \<noteq> SendForward \<and>
    (act \<in> {SendAck, SendNack} \<longrightarrow> ct_messages t' \<noteq> [])"
  using assms by (auto simp: process_def split: list.splits NextStep.splits ConsumeMessageResult.splits if_splits)

lemma run_inv:
  assumes "consume_inv c batch s" "cv_message_model c = CLUSTERING" "run_task c result s = Some s'"
  shows "consume_inv c batch s'"
proof -
  obtain t rest where q: "tp_queue (svc_pool (cs_service s)) = t # rest"
    using assms(3) by (auto simp: run_task_def split: list.splits)
  obtain heard act t' where p: "process CLUSTERING result t = (heard, act, t')" by (rule prod_cases3)
  have nxt: "ct_next_step t = Consume" using assms(1) q by (simp add: consume_inv_def)
  note res = process_clustering [OF p nxt]
  have held: "held_keys s' = held_keys s"
    using assms(2,3) q p res
    by (cases act) (auto simp: run_task_def held_keys_def held_tasks_def svc_schedule_def Let_def ac_simps)
  have fields: "cs_pq s' = cs_pq s" "cs_completed s' = cs_completed s" "cs_received s' = cs_received s"
      "cs_loop s' = cs_loop s" "cs_forwarding s' = cs_forwarding s"
      "tp_state (svc_pool (cs_service s')) = tp_state (svc_pool (cs_service s))"
      "tp_queue (svc_pool (cs_service s')) = rest"
      "set (cs_acking s') \<subseteq> set (cs_acking s) \<union> (if act = SendAck then {t'} else {})"
      "set (cs_nacking s') \<subseteq> set (cs_nacking s) \<union> (if act = SendNack then {t'} else {})"
    using assms(2,3) q p res by (cases act; auto simp: run_task_def svc_schedule_def Let_def)+
  show ?thesis
    using assms(1) q res fields unfolding consume_inv_def held by (cases "cs_pq s") (auto split: if_splits)
qed

lemma consume_step_inv:
  assumes "consume_step c batch s s'" "consume_inv c batch s"
    and "cv_message_model c = CLUSTERING" "unat (cv_max_cached_quantity c) + batch < 2 ^ 32"
  shows "consume_inv c batch s'"
  using assms
proof (induction rule: consume_step.induct)
  case (received s pq ms now pq' svc' loop)
  show ?case by (rule received_inv [OF received(5,6,7,1,2,3,4)])
next
  case (receive_failed s pq ec now pq' svc' loop)
  then show ?case
    by (auto simp: onCompletion_def consume_inv_def held_keys_def held_tasks_def split: if_splits)
next
  case (timer s pq now pq' loop)
  show ?case by (rule throttle_check_inv [OF timer(4,6,2,3)])
next
  case (run result s s')
  show ?case by (rule run_inv [OF run(2,3,1)])
next
  case (acked i s t ec)
  have "ct_messages t \<noteq> []" using acked by (auto simp: consume_inv_def)
  then show ?case
    using acked set_remove_nth [of i "cs_acking s"] task_keys_remove_nth [of i "cs_acking s"]
    by (intro finish_inv [OF acked(3) onAck_result]) (auto simp: held_keys_def held_tasks_def ac_simps)
next
  case (nacked i s t ec)
  have "ct_messages t \<noteq> []" using nacked by (auto simp: consume_inv_def)
  then show ?case
    using nacked set_remove_nth [of i "cs_nacking s"] task_keys_remove_nth [of i "cs_nacking s"]
    by (intro finish_inv [OF nacked(3) onNack_result]) (auto simp: held_keys_def held_tasks_def ac_simps)
next
  case (forwarded i s t ok)
  then show ?case by (simp add: consume_inv_def)
next
  case (rebalanced s)
  then show ?case by (simp add: consume_inv_def held_keys_def held_tasks_def)
qed


abbreviation consume_initial :: "nat \<Rightarrow> MQMessageQueue \<Rightarrow> FilterExpression \<Rightarrow> int \<Rightarrow> consume_sys" where
  "consume_initial threads mq fe now \<equiv>
     consume_start (svc_start (ConsumeMessageService_new threads)) (ProcessQueue_new mq fe now)"

lemma consume_inv_initial: "consume_inv c batch (consume_initial threads mq fe now)"
  by (simp add: consume_inv_def consume_start_def svc_start_def ConsumeMessageService_new_def
      compare_exchange_strong_def held_keys_def held_tasks_def ProcessQueue_new_def)

lemma consume_steps_inv:
  assumes "(consume_step c batch)\<^sup>*\<^sup>* s s'" "consume_inv c batch s"
    and "cv_message_model c = CLUSTERING" "unat (cv_max_cached_quantity c) + batch < 2 ^ 32"
  shows "consume_inv c batch s'"
  using assms(1,2) by (induction rule: rtranclp_induct) (auto intro: consume_step_inv [OF _ _ assms(3,4)])

lemmas consume_reach_inv = consume_steps_inv [OF _ consume_inv_initial]

lemma lost_grows: "consume_step c batch s s' \<Longrightarrow> \<exists>ts. cs_lost s' = cs_lost s @ ts"
  by (induction rule: consume_step.induct)
    (auto simp: run_task_def finish_def svc_schedule_def Let_def split: list.splits prod.splits task_action.splits
      follow_up.splits)

lemma lost_grows_steps: "(consume_step c batch)\<^sup>*\<^sup>* s s' \<Longrightarrow> \<exists>ts. cs_lost s' = cs_lost s @ ts"
proof (induction rule: rtranclp_induct)
  case (step s' s'')
  then show ?case using lost_grows [OF step(2)] by auto
qed simp

section \<open>Properties\<close>


text \<open>A FIFO consumer that caches at most two messages receives two and fails on the first.\<close>

definition demo_view :: consumer_view where
  "demo_view = \<lparr>cv_group_name = ''g'', cv_resource_namespace = '''', cv_client_id = ''c'', cv_message_model = CLUSTERING,
     cv_listener = FIFO_LISTENER, cv_receive_batch_size = 2, cv_max_cached_quantity = 2, cv_max_cached_memory = 0,
     cv_filter = (\<lambda>_. None), cv_active = True\<rparr>"

definition demo_queue :: MQMessageQueue where
  "demo_queue = empty_mq\<lparr>mq_service_address := ''ipv4:10.0.0.1:80''\<rparr>"

definition demo_message :: "string \<Rightarrow> MQMessage" where
  "demo_message body = MQMessage_new None 0 ''host'' body ''t'' '''' '''' body"

definition demo_initial :: consume_sys where
  "demo_initial = consume_initial 1 demo_queue (FilterExpression_new ''*'' TAG) 0"

definition demo_received :: consume_sys where
  "demo_received =
     (case onCompletion demo_view 0 Success [demo_message ''a'', demo_message ''bc''] (the (cs_pq demo_initial))
        (cs_service demo_initial) of
        (pq', svc', loop) \<Rightarrow> demo_initial\<lparr>cs_pq := Some pq', cs_service := svc', cs_loop := loop,
          cs_received := [demo_message ''a'', demo_message ''bc'']\<rparr>)"

definition demo_failed :: consume_sys where
  "demo_failed = the (run_task demo_view FAILURE demo_received)"

lemmas demo_defs = demo_view_def demo_queue_def demo_message_def demo_initial_def demo_received_def demo_failed_def
  consume_start_def svc_start_def ConsumeMessageService_new_def ProcessQueue_new_def MQMessage_new_def
  SystemAttribute_new_def

lemmas demo_ops = onCompletion_def dispatch_def dispatch_tasks_def ConsumeTask_batch_def svc_submit_def tp_submit_def
  checkThrottleThenReceive_def shouldThrottle_def syncIdleState_def run_task_def process_def svc_schedule_def

lemma demo_run: "(consume_step demo_view 2)\<^sup>*\<^sup>* demo_initial demo_failed"
proof -
  obtain pq' svc' loop where r: "onCompletion demo_view 0 Success [demo_message ''a'', demo_message ''bc'']
      (the (cs_pq demo_initial)) (cs_service demo_initial) = (pq', svc', loop)" by (rule prod_cases3)
  have "cs_loop demo_initial = InFlight" "cs_received demo_initial = []" "cv_active demo_view"
    "cs_pq demo_initial = Some (the (cs_pq demo_initial))"
    by (simp_all add: demo_defs)
  then have "consume_step demo_view 2 demo_initial demo_received"
    using consume_step.received [of demo_initial "the (cs_pq demo_initial)" "[demo_message ''a'', demo_message ''bc'']" 2
        demo_view 0 pq' svc' loop] r by (simp add: demo_received_def)
  moreover have "run_task demo_view FAILURE demo_received = Some demo_failed"
    by (simp add: demo_failed_def) (simp add: demo_defs demo_ops pq_simps Let_def)
  then have "consume_step demo_view 2 demo_received demo_failed" by (rule consume_step.run)
  ultimately show ?thesis by (meson converse_rtranclp_into_rtranclp r_into_rtranclp)
qed

lemma demo_state:
  "cv_message_model demo_view = CLUSTERING" "unat (cv_max_cached_quantity demo_view) = 2"
  "size (task_keys (cs_lost demo_failed)) = 2" "cs_pq demo_failed = Some (the (cs_pq demo_failed))"
  "pq_quantity (the (cs_pq demo_failed)) = 2" "pq_memory (the (cs_pq demo_failed)) = 3"
  "held_keys demo_failed = {#(''a'', length ''a''), (''bc'', length ''bc'')#}" "cs_completed demo_failed = []"
  by (simp_all add: demo_defs demo_ops pq_simps Let_def held_keys_def held_tasks_def msg_key_def setDeliveryAttempt_def)


text \<open>C23: The cache is bounded: a process queue never holds more messages than the configured maximum less
  one plus one batch, because it asks for more only below the maximum and has one request under way.\<close>

theorem cache_bounded:
  assumes "(consume_step c batch)\<^sup>*\<^sup>* (consume_initial threads mq fe now) s"
    and "cv_message_model c = CLUSTERING" "unat (cv_max_cached_quantity c) + batch < 2 ^ 32"
    and "cs_pq s = Some pq" "0 < cv_max_cached_quantity c"
  shows "unat (pq_quantity pq) \<le> unat (cv_max_cached_quantity c) - 1 + batch"
proof -
  have q: "pq_quantity pq = of_nat (size (held_keys s))"
    and b: "size (held_keys s) \<le> max 1 (unat (cv_max_cached_quantity c)) - 1 + batch"
    using consume_reach_inv [OF assms(1-3)] assms(4) by (simp_all add: consume_inv_def)
  from b assms(3) have "size (held_keys s) < 2 ^ 32" by (simp add: max_def split: if_splits)
  moreover have "1 \<le> unat (cv_max_cached_quantity c)" using assms(5) by (simp add: word_less_nat_alt Suc_le_eq)
  ultimately show ?thesis using b q by (simp add: unat_u32_of_nat max_def split: if_splits)
qed

theorem cache_bounded_witness: "unat (pq_quantity (the (cs_pq demo_failed))) \<le> 2 - 1 + 2"
  using cache_bounded [OF demo_run [unfolded demo_initial_def], of "the (cs_pq demo_failed)"] demo_state
  by (simp add: demo_view_def)




text \<open>C38: A message is delivered again and again after its queue has been rebalanced away: \<open>pop\<close> then
  leaves the message at the head of the task, so although the listener succeeds and the broker accepts the
  acknowledgement every time, the task is submitted again with the same message, any number of times.\<close>

theorem rebalanced_redelivers:
  assumes "cs_pq s = None" "cv_message_model c = CLUSTERING" "pool_accepts s" "cs_acking s = []"
    and "tp_queue (svc_pool (cs_service s)) = [t]" "ct_messages t = m # ms" "ct_next_step t = Consume"
  shows "\<exists>s'. (consume_step c batch)\<^sup>*\<^sup>* s s' \<and> cs_delivered s' = cs_delivered s @ replicate n (m, SUCCESS)"
proof -
  have "(svc_pool (cs_service s))\<lparr>tp_queue := [t]\<rparr> = svc_pool (cs_service s)"
    by (rule thread_pool.equality) (simp_all add: assms)
  moreover have "t\<lparr>ct_next_step := Consume\<rparr> = t" by (rule ConsumeTask.equality) (simp_all add: assms)
  ultimately have same: "(cs_service s)\<lparr>svc_pool := (svc_pool (cs_service s))\<lparr>tp_queue := [t\<lparr>ct_next_step := Consume\<rparr>]\<rparr>\<rparr> =
      cs_service s" by simp
  have "(consume_step c batch)\<^sup>*\<^sup>* s (s\<lparr>cs_delivered := cs_delivered s @ replicate n (m, SUCCESS)\<rparr>)"
  proof (induction n)
    case (Suc n)
    let ?s = "s\<lparr>cs_delivered := cs_delivered s @ replicate n (m, SUCCESS)\<rparr>"
    let ?s1 = "?s\<lparr>cs_service := (cs_service s)\<lparr>svc_pool := (svc_pool (cs_service s))\<lparr>tp_queue := []\<rparr>\<rparr>,
        cs_delivered := cs_delivered ?s @ [(m, SUCCESS)], cs_acking := [t]\<rparr>"
    have "run_task c SUCCESS ?s = Some ?s1"
      using assms by (simp add: run_task_def process_def)
    then have "consume_step c batch ?s ?s1" by (rule consume_step.run)
    moreover have "finish (onAck (Some c) Success None t) [] (?s1\<lparr>cs_acking := []\<rparr>) =
        s\<lparr>cs_delivered := cs_delivered s @ replicate (Suc n) (m, SUCCESS)\<rparr>"
      using assms same by (intro consume_sys.equality)
        (simp_all add: finish_def onAck_def task_pop_def pool_accepts_def svc_submit_def tp_submit_def replicate_append_same)
    then have "consume_step c batch ?s1 (s\<lparr>cs_delivered := cs_delivered s @ replicate (Suc n) (m, SUCCESS)\<rparr>)"
      using assms consume_step.acked [of 0 ?s1 t c batch Success] by (simp add: popped_by_def remove_nth_def)
    ultimately show ?case using Suc by (meson rtranclp.rtrancl_into_rtrancl)
  qed simp
  then show ?thesis by auto
qed


definition demo_orphan :: consume_sys where
  "demo_orphan = (consume_initial 1 demo_queue (FilterExpression_new ''*'' TAG) 0)
     \<lparr>cs_pq := None, cs_service := svc_submit (ConsumeTask_single (demo_message ''a'')) (svc_start (ConsumeMessageService_new 1))\<rparr>"

theorem rebalanced_redelivers_witness:
  "\<exists>s'. (consume_step demo_view 2)\<^sup>*\<^sup>* demo_orphan s' \<and> cs_delivered s' = replicate 5 (demo_message ''a'', SUCCESS)"
proof -
  have "cs_pq demo_orphan = None" "cv_message_model demo_view = CLUSTERING" "pool_accepts demo_orphan"
    "cs_acking demo_orphan = []" "cs_delivered demo_orphan = []"
    "tp_queue (svc_pool (cs_service demo_orphan)) = [ConsumeTask_single (demo_message ''a'')]"
    "ct_messages (ConsumeTask_single (demo_message ''a'')) = [demo_message ''a'']"
    "ct_next_step (ConsumeTask_single (demo_message ''a'')) = Consume"
    by (simp_all add: demo_orphan_def demo_view_def consume_start_def svc_start_def ConsumeMessageService_new_def
        svc_submit_def tp_submit_def ConsumeTask_single_def pool_accepts_def)
  then show ?thesis using rebalanced_redelivers [of demo_orphan demo_view _ "demo_message ''a''" "[]" 2 5] by simp
qed

text \<open>With a standard listener a broadcasting consumer hands no message to its listener: \<open>dispatch\<close> makes
  consume tasks, which do nothing in that model.\<close>

lemma broadcasting_standard_silent:
  assumes "(consume_step c batch)\<^sup>*\<^sup>* (consume_initial threads mq fe now) s" "cv_message_model c = BROADCASTING"
  shows "cs_delivered s = []"
  using assms(1)
proof (induction rule: rtranclp_induct)
  case (step s s')
  from step(2,3) assms(2) show ?case
    by (induction rule: consume_step.induct)
      (auto simp: run_task_def process_def finish_def Let_def svc_schedule_def split: list.splits prod.splits follow_up.splits)
qed (simp add: consume_start_def)

text \<open>\<open>start\<close> leaves the service \<open>STARTING\<close> and \<open>shutdown\<close> expects \<open>STOPPING\<close>: no sequence of the two stops
  the pool of a started service.\<close>

lemma consume_service_never_stops:
  "tp_state (svc_pool (fold (\<lambda>start. if start then svc_start else svc_shutdown) calls
     (svc_start (ConsumeMessageService_new threads)))) = STARTED"
proof -
  have "svc_state s = STARTING \<Longrightarrow> fold (\<lambda>start. if start then svc_start else svc_shutdown) calls s = s" for s
    by (induction calls) (simp_all add: svc_start_def svc_shutdown_def)
  then show ?thesis by (simp add: svc_start_def ConsumeMessageService_new_def)
qed

text \<open>The broadcast task: \<open>runnable_\<close> is set exactly while one worker is past the exchange, so there is
  never more than one, and it works through the queue in order.\<close>

definition bs_active :: "broadcast_sys \<Rightarrow> broadcast_pc list" where
  "bs_active s = filter (\<lambda>w. w \<noteq> BEnter) (bs_workers s)"

definition held_by :: "broadcast_pc list \<Rightarrow> MQMessage list" where
  "held_by ws = concat (map (\<lambda>w. case w of BHold m \<Rightarrow> [m] | _ \<Rightarrow> []) ws)"

definition broadcast_inv :: "broadcast_sys \<Rightarrow> bool" where
  "broadcast_inv s \<longleftrightarrow>
     length (bs_active s) = (if bs_runnable s then 1 else 0) \<and>
     bs_enqueued s = bs_handled s @ held_by (bs_active s) @ bs_queue s"

lemma filter_split_nth:
  "i < length ws \<Longrightarrow> filter P ws = filter P (take i ws) @ (if P (ws ! i) then [ws ! i] else []) @ filter P (drop (Suc i) ws)"
  by (subst id_take_nth_drop [of i ws]) simp_all

lemma active_at:
  assumes "i < length (bs_workers s)"
  obtains A B where
    "bs_active s = A @ (if bs_workers s ! i \<noteq> BEnter then [bs_workers s ! i] else []) @ B"
    "\<And>w. filter (\<lambda>w. w \<noteq> BEnter) ((bs_workers s)[i := w]) = A @ (if w \<noteq> BEnter then [w] else []) @ B"
    "filter (\<lambda>w. w \<noteq> BEnter) (remove_nth i (bs_workers s)) = A @ B"
  using filter_split_nth [OF assms, of "\<lambda>w. w \<noteq> BEnter"] assms
  by (simp add: bs_active_def upd_conv_take_nth_drop remove_nth_def)

lemma held_by_simps [simp]:
  "held_by [] = []" "held_by (BHold m # ws) = m # held_by ws" "held_by (BLoop # ws) = held_by ws"
  "held_by (BExit # ws) = held_by ws" "held_by (xs @ ys) = held_by xs @ held_by ys"
  by (simp_all add: held_by_def)

lemma broadcast_step_inv: "broadcast_step s s' \<Longrightarrow> broadcast_inv s \<Longrightarrow> broadcast_inv s'"
proof (induction rule: broadcast_step.induct)
  case (enter i s)
  then show ?case
    by (elim active_at) (auto simp: broadcast_inv_def bs_active_def split: if_splits)
next
  case (deque i s m ms)
  then show ?case
    by (elim active_at) (auto simp: broadcast_inv_def bs_active_def split: if_splits)
next
  case (consume i s m)
  then show ?case
    by (elim active_at) (auto simp: broadcast_inv_def bs_active_def split: if_splits)
next
  case (drained i s)
  then show ?case
    by (elim active_at) (auto simp: broadcast_inv_def bs_active_def split: if_splits)
next
  case (leave i s)
  then show ?case
    by (elim active_at) (auto simp: broadcast_inv_def bs_active_def split: if_splits)
qed (auto simp: broadcast_inv_def bs_active_def)

text \<open>C17: Broadcast messages are consumed in the order they were received, none twice: in every interleaving of
  the receiving thread and the workers, at most one worker is in the loop, and the messages handled, the one in
  hand and those queued are, in this order, the messages enqueued.\<close>

theorem broadcast_in_order:
  assumes "broadcast_step\<^sup>*\<^sup>* broadcast_start s"
  shows "length (bs_active s) \<le> 1 \<and> bs_enqueued s = bs_handled s @ held_by (bs_active s) @ bs_queue s"
proof -
  have "broadcast_inv broadcast_start" by (simp add: broadcast_inv_def broadcast_start_def bs_active_def held_by_def)
  with assms have "broadcast_inv s" by (induction rule: rtranclp_induct) (auto intro: broadcast_step_inv)
  then show ?thesis by (simp add: broadcast_inv_def)
qed


text \<open>A run in which the receiving thread enqueues and tests \<open>runnable_\<close> between the worker's last look at the
  queue and its reset of the flag: the second message stays in the queue and no worker is left to take it.\<close>

definition bcast :: "MQMessage list \<Rightarrow> bool \<Rightarrow> bool \<Rightarrow> broadcast_pc list \<Rightarrow> MQMessage list \<Rightarrow> MQMessage list \<Rightarrow> broadcast_sys" where
  "bcast q r d ws e h = \<lparr>bs_queue = q, bs_runnable = r, bs_dispatching = d, bs_workers = ws, bs_enqueued = e, bs_handled = h\<rparr>"

lemma bcast_steps:
  "broadcast_step (bcast [] r False ws e h) (bcast [m] r True ws (e @ [m]) h)"
  "broadcast_step (bcast q False True ws e h) (bcast q False False (ws @ [BEnter]) e h)"
  "broadcast_step (bcast q True True ws e h) (bcast q True False ws e h)"
  "broadcast_step (bcast q False d [BEnter] e h) (bcast q True d [BLoop] e h)"
  "broadcast_step (bcast [m] r d [BLoop] e h) (bcast [] r d [BHold m] e h)"
  "broadcast_step (bcast q r d [BHold m] e h) (bcast q r d [BLoop] e (h @ [m]))"
  "broadcast_step (bcast [] r d [BLoop] e h) (bcast [] r d [BExit] e h)"
  "broadcast_step (bcast q r d [BExit] e h) (bcast q False d [] e h)"
  using broadcast_step.enqueue [of "bcast [] r False ws e h" "[m]"] broadcast_step.submit [of "bcast q False True ws e h"]
    broadcast_step.submit [of "bcast q True True ws e h"] broadcast_step.enter [of 0 "bcast q False d [BEnter] e h"]
    broadcast_step.deque [of 0 "bcast [m] r d [BLoop] e h" m "[]"] broadcast_step.consume [of 0 "bcast q r d [BHold m] e h" m]
    broadcast_step.drained [of 0 "bcast [] r d [BLoop] e h"] broadcast_step.leave [of 0 "bcast q r d [BExit] e h"]
  by (simp_all add: bcast_def remove_nth_def)

lemma bcast_run:
  "broadcast_step\<^sup>*\<^sup>* broadcast_start (bcast [m2] False False [] [m1, m2] [m1])"
proof -
  have start: "broadcast_start = bcast [] False False [] [] []" by (simp add: broadcast_start_def bcast_def)
  have "broadcast_step\<^sup>*\<^sup>* (bcast [] False False [] [] []) (bcast [] True False [BLoop] [m1] [m1])"
    using bcast_steps(1) [of False "[]" "[]" "[]" m1] bcast_steps(2) [of "[m1]" "[]" "[m1]" "[]"]
      bcast_steps(4) [of "[m1]" False "[m1]" "[]"] bcast_steps(5) [of m1 True False "[m1]" "[]"]
      bcast_steps(6) [of "[]" True False m1 "[m1]" "[]"]
    by (auto intro: converse_rtranclp_into_rtranclp)
  moreover have "broadcast_step\<^sup>*\<^sup>* (bcast [] True False [BLoop] [m1] [m1]) (bcast [m2] False False [] [m1, m2] [m1])"
    using bcast_steps(7) [of True False "[m1]" "[m1]"] bcast_steps(1) [of True "[BExit]" "[m1]" "[m1]" m2]
      bcast_steps(3) [of "[m2]" "[BExit]" "[m1, m2]" "[m1]"] bcast_steps(8) [of "[m2]" True False "[m1, m2]" "[m1]"]
    by (auto intro: converse_rtranclp_into_rtranclp)
  ultimately show ?thesis unfolding start by (rule rtranclp_trans)
qed

theorem broadcast_in_order_witness:
  "length (bs_active (bcast [demo_message ''b''] False False [] [demo_message ''a'', demo_message ''b''] [demo_message ''a''])) \<le> 1"
  using broadcast_in_order [OF bcast_run [of "demo_message ''b''" "demo_message ''a''"]] by blast

lemma broadcast_wakeup_lost:
  "\<exists>s. broadcast_step\<^sup>*\<^sup>* broadcast_start s \<and> bs_queue s = [m2] \<and> bs_workers s = [] \<and> \<not> bs_dispatching s \<and>
     (\<forall>s'. broadcast_step s s' \<longrightarrow> bs_dispatching s')"
proof -
  have "bs_dispatching s'" if "broadcast_step (bcast [m2] False False [] [m1, m2] [m1]) s'" for s' m1
    using that by (cases rule: broadcast_step.cases) (simp_all add: bcast_def)
  then show ?thesis using bcast_run [of m2] by (intro exI [of _ "bcast [m2] False False [] [m2, m2] [m2]"]) (simp add: bcast_def)
qed

end
