(* ===== verification/ClientManager.thy ===== *)
theory ClientManager
  imports Naming Sched
begin

text \<open>
  The client manager (client/ClientManagerImpl.cpp): its life cycle, the table of RPC clients, the
  periodic health check and heartbeat, and the completion handler of every remote call.  gRPC is not
  part of the repository: a handler takes what the call reports, whether the transport succeeded and
  the status code of the response.  A handler that returns \<open>None\<close> does not invoke its callback.
\<close>

section \<open>State\<close>

record rpc_client =
  rpc_ok :: bool
  rpc_need_heartbeat :: bool

text \<open>A registered client: whether it still exists, whether it is active, the hosts it uses.\<close>

record client_observer =
  ob_alive :: bool
  ob_active :: bool
  ob_endpoints :: "string set"

record client_manager =
  cm_state :: State
  cm_resource_namespace :: string
  cm_rpc_clients :: "(string \<times> rpc_client) list"
  cm_clients :: "client_observer list"
  cm_scheduler :: scheduler
  cm_pool :: "nat thread_pool"
  cm_health_check_task_id :: u32
  cm_heartbeat_task_id :: u32
  cm_stats_task_id :: u32
  cm_completion_queue_open :: bool
  cm_histogram :: histogram

definition latency_labels :: "string list" where
  "latency_labels =
     [''[000ms~020ms): '', ''[020ms~040ms): '', ''[040ms~060ms): '', ''[060ms~080ms): '', ''[080ms~100ms): '',
      ''[100ms~120ms): '', ''[120ms~140ms): '', ''[140ms~160ms): '', ''[160ms~180ms): '', ''[180ms~200ms): '',
      ''[200ms~inf): '']"

definition assignLabels :: "histogram \<Rightarrow> histogram" where
  "assignLabels h = h\<lparr>h_labels := h_labels h @ latency_labels\<rparr>"

definition ClientManager_new :: "string \<Rightarrow> nat \<Rightarrow> u32 \<Rightarrow> int \<Rightarrow> client_manager" where
  "ClientManager_new ns cores last_id now =
     \<lparr>cm_state = CREATED, cm_resource_namespace = ns, cm_rpc_clients = [], cm_clients = [],
      cm_scheduler = SchedulerImpl_new last_id now,
      cm_pool = \<lparr>tp_workers = cores, tp_state = CREATED, tp_queue = []\<rparr>,
      cm_health_check_task_id = 0, cm_heartbeat_task_id = 0, cm_stats_task_id = 0,
      cm_completion_queue_open = True,
      cm_histogram = assignLabels (Histogram_new ''Message-Latency'' 11)\<rparr>"

text \<open>The pool and the scheduler have started when their \<open>start\<close> returns.\<close>

definition cm_start :: "client_manager \<Rightarrow> client_manager" where
  "cm_start m =
     (if cm_state m \<noteq> CREATED then m
      else let sch0 = (cm_scheduler m)\<lparr>sch_state := STARTED\<rparr>;
               (health, sch1) = schedule ''health-check-task'' 5000 5000 sch0;
               (beat, sch2) = schedule ''heartbeat-task'' 1000 10000 sch1;
               (stats, sch3) = schedule ''stats-task'' 0 10000 sch2
           in m\<lparr>cm_pool := (cm_pool m)\<lparr>tp_state := STARTED\<rparr>, cm_scheduler := sch3,
                cm_health_check_task_id := health, cm_heartbeat_task_id := beat, cm_stats_task_id := stats,
                cm_state := STARTED\<rparr>)"

definition cancel_if :: "u32 \<Rightarrow> scheduler \<Rightarrow> scheduler" where
  "cancel_if task s = (if task \<noteq> 0 then cancel task s else s)"

text \<open>\<open>scheduler_->shutdown()\<close> run to its end: every task gone, the context stopped.\<close>

definition sched_shutdown :: "scheduler \<Rightarrow> scheduler" where
  "sched_shutdown s =
     (case shutdown_cas s of
        (s', ok) \<Rightarrow> if ok then s'\<lparr>sch_tasks := Map.empty, sch_stopped := True, sch_running := [], sch_state := STOPPED\<rparr> else s')"

definition cm_shutdown :: "client_manager \<Rightarrow> client_manager" where
  "cm_shutdown m =
     (if cm_state m \<noteq> STARTED then m
      else m\<lparr>cm_pool := tp_shutdown (cm_pool m),
             cm_scheduler := sched_shutdown (cancel_if (cm_stats_task_id m) (cancel_if (cm_heartbeat_task_id m)
               (cancel_if (cm_health_check_task_id m) (cm_scheduler m)))),
             cm_rpc_clients := [], cm_completion_queue_open := False, cm_state := STOPPED\<rparr>)"

section \<open>RPC clients\<close>

text \<open>\<open>rpc_clients_\<close> as an association list in iteration order, with one entry per host.\<close>

definition getRpcClient :: "string \<Rightarrow> bool \<Rightarrow> client_manager \<Rightarrow> client_manager" where
  "getRpcClient host need_heartbeat m =
     (let fresh = \<lparr>rpc_ok = True, rpc_need_heartbeat = need_heartbeat\<rparr>;
          tbl = (case map_of (cm_rpc_clients m) host of
                   None \<Rightarrow> AList.update host fresh (cm_rpc_clients m)
                 | Some c \<Rightarrow> if \<not> rpc_ok c then AList.update host fresh (cm_rpc_clients m) else cm_rpc_clients m);
          tbl' = (case map_of tbl host of
                    Some c \<Rightarrow> if need_heartbeat \<and> \<not> rpc_need_heartbeat c
                              then AList.update host (c\<lparr>rpc_need_heartbeat := need_heartbeat\<rparr>) tbl else tbl
                  | None \<Rightarrow> tbl)
      in m\<lparr>cm_rpc_clients := tbl'\<rparr>)"

definition addRpcClient :: "string \<Rightarrow> rpc_client \<Rightarrow> client_manager \<Rightarrow> client_manager" where
  "addRpcClient host c m = m\<lparr>cm_rpc_clients := AList.update host c (cm_rpc_clients m)\<rparr>"

definition cleanRpcClients :: "client_manager \<Rightarrow> client_manager" where
  "cleanRpcClients m = m\<lparr>cm_rpc_clients := []\<rparr>"

definition addClientObserver :: "client_observer \<Rightarrow> client_manager \<Rightarrow> client_manager" where
  "addClientObserver ob m = m\<lparr>cm_clients := cm_clients m @ [ob]\<rparr>"

definition hosts_in_use :: "client_observer list \<Rightarrow> string set" where
  "hosts_in_use obs = (\<Union>ob \<in> set (filter ob_alive obs). ob_endpoints ob)"

fun clean_loop ::
  "string set \<Rightarrow> (string \<times> rpc_client) list \<Rightarrow> string list \<times> (string \<times> rpc_client) list" where
  "clean_loop hosts [] = ([], [])"
| "clean_loop hosts ((host, c) # rest) =
     (let (removed, kept) = clean_loop hosts rest
      in if rpc_need_heartbeat c \<and> host \<notin> hosts then (host # removed, kept) else (removed, (host, c) # kept))"

definition cleanOfflineRpcClients :: "client_manager \<Rightarrow> string list \<times> client_manager" where
  "cleanOfflineRpcClients m =
     (let (removed, kept) = clean_loop (hosts_in_use (cm_clients m)) (cm_rpc_clients m)
      in (removed, m\<lparr>cm_rpc_clients := kept\<rparr>))"

text \<open>\<open>doHealthCheck\<close> tells every active client which hosts are gone, if any, and lets each check its
  isolated hosts; \<open>doHeartbeat\<close> lets each send a heartbeat.  The calls go out in this order.\<close>

datatype client_call = OnRemoteEndpointRemoval client_observer "string list" | HealthCheck client_observer | Heartbeat client_observer

definition active_clients :: "client_manager \<Rightarrow> client_observer list" where
  "active_clients m = filter (\<lambda>ob. ob_alive ob \<and> ob_active ob) (cm_clients m)"

definition doHealthCheck :: "client_manager \<Rightarrow> client_call list \<times> client_manager" where
  "doHealthCheck m =
     (if cm_state m \<noteq> STARTED \<and> cm_state m \<noteq> STARTING then ([], m)
      else let (removed, m') = cleanOfflineRpcClients m; cs = active_clients m'
           in ((if removed \<noteq> [] then map (\<lambda>ob. OnRemoteEndpointRemoval ob removed) cs else []) @ map HealthCheck cs, m'))"

definition doHeartbeat :: "client_manager \<Rightarrow> client_call list" where
  "doHeartbeat m =
     (if cm_state m \<noteq> STARTED \<and> cm_state m \<noteq> STARTING then [] else map Heartbeat (active_clients m))"

section \<open>Completion handlers\<close>

definition health_code :: "RpcCode \<Rightarrow> ErrorCode" where
  "health_code code =
     (case code of OK \<Rightarrow> Success | UNAUTHENTICATED \<Rightarrow> Unauthorized | PERMISSION_DENIED \<Rightarrow> Forbidden
      | INTERNAL \<Rightarrow> InternalServerError | _ \<Rightarrow> NotImplemented)"

definition healthCheck_completion :: "bool \<Rightarrow> RpcCode \<Rightarrow> ErrorCode" where
  "healthCheck_completion ok code = (if \<not> ok then RequestTimeout else health_code code)"

text \<open>The default case of \<open>heartbeat\<close> logs and does not call back.\<close>

definition heartbeat_completion :: "bool \<Rightarrow> RpcCode \<Rightarrow> ErrorCode option" where
  "heartbeat_completion ok code =
     (if \<not> ok then Some RequestTimeout
      else case code of OK \<Rightarrow> Some Success | UNAUTHENTICATED \<Rightarrow> Some Unauthorized | PERMISSION_DENIED \<Rightarrow> Some Forbidden
        | INVALID_ARGUMENT \<Rightarrow> Some BadRequest | INTERNAL \<Rightarrow> Some InternalServerError | _ \<Rightarrow> None)"

record SendResult =
  sr_message_id :: string
  sr_transaction_id :: string
  sr_message_queue :: MQMessageQueue
  sr_trace_context :: string

definition SendResult_new :: "string \<Rightarrow> string \<Rightarrow> SendResult" where
  "SendResult_new message_id transaction_id =
     \<lparr>sr_message_id = message_id, sr_transaction_id = transaction_id, sr_message_queue = empty_mq, sr_trace_context = ''''\<rparr>"

definition send_code :: "RpcCode \<Rightarrow> ErrorCode" where
  "send_code code =
     (case code of OK \<Rightarrow> Success | INVALID_ARGUMENT \<Rightarrow> BadRequest | UNAUTHENTICATED \<Rightarrow> Unauthorized
      | PERMISSION_DENIED \<Rightarrow> Forbidden | INTERNAL \<Rightarrow> InternalServerError | _ \<Rightarrow> NotImplemented)"

text \<open>The completion of \<open>send\<close> does nothing when the manager is gone or not \<open>STARTED\<close>.\<close>

definition send_completion ::
  "State option \<Rightarrow> bool \<Rightarrow> RpcCode \<Rightarrow> string \<Rightarrow> string \<Rightarrow> (ErrorCode + SendResult) option" where
  "send_completion manager ok code message_id transaction_id =
     (if manager \<noteq> Some STARTED then None
      else if \<not> ok then Some (Inl RequestTimeout)
      else if code = OK then Some (Inr (SendResult_new message_id transaction_id))
      else Some (Inl (send_code code)))"

definition ack_code :: "RpcCode \<Rightarrow> ErrorCode" where
  "ack_code code =
     (case code of OK \<Rightarrow> Success | UNAUTHENTICATED \<Rightarrow> Unauthorized | PERMISSION_DENIED \<Rightarrow> Forbidden
      | INVALID_ARGUMENT \<Rightarrow> BadRequest | INTERNAL \<Rightarrow> InternalServerError | _ \<Rightarrow> NotImplemented)"

definition ack_completion :: "bool \<Rightarrow> RpcCode \<Rightarrow> ErrorCode" where
  "ack_completion ok code = (if \<not> ok then RequestTimeout else ack_code code)"

definition nack_code :: "RpcCode \<Rightarrow> ErrorCode" where
  "nack_code code =
     (case code of OK \<Rightarrow> Success | UNAUTHENTICATED \<Rightarrow> Unauthorized | PERMISSION_DENIED \<Rightarrow> Forbidden
      | INTERNAL \<Rightarrow> InternalServerError | _ \<Rightarrow> NotImplemented)"

definition nack_completion :: "bool \<Rightarrow> RpcCode \<Rightarrow> ErrorCode" where
  "nack_completion ok code = (if \<not> ok then RequestTimeout else nack_code code)"

definition endTransaction_code :: "RpcCode \<Rightarrow> ErrorCode" where
  "endTransaction_code code =
     (case code of OK \<Rightarrow> Success | UNAUTHENTICATED \<Rightarrow> Unauthorized | PERMISSION_DENIED \<Rightarrow> Forbidden
      | INTERNAL \<Rightarrow> InternalServerError | _ \<Rightarrow> NotImplemented)"

definition endTransaction_completion :: "bool \<Rightarrow> RpcCode \<Rightarrow> ErrorCode" where
  "endTransaction_completion ok code = (if \<not> ok then BadRequest else endTransaction_code code)"

definition queryOffset_code :: "RpcCode \<Rightarrow> ErrorCode" where
  "queryOffset_code code =
     (case code of OK \<Rightarrow> Success | UNAUTHENTICATED \<Rightarrow> Unauthorized | PERMISSION_DENIED \<Rightarrow> Forbidden
      | INTERNAL \<Rightarrow> InternalServerError | _ \<Rightarrow> NotImplemented)"

definition queryOffset_completion :: "bool \<Rightarrow> RpcCode \<Rightarrow> ErrorCode" where
  "queryOffset_completion ok code = (if \<not> ok then RequestTimeout else queryOffset_code code)"

definition reportThreadStackTrace_code :: "RpcCode \<Rightarrow> ErrorCode" where
  "reportThreadStackTrace_code code =
     (case code of OK \<Rightarrow> Success | UNAUTHENTICATED \<Rightarrow> Unauthorized | PERMISSION_DENIED \<Rightarrow> Forbidden | _ \<Rightarrow> NotImplemented)"

definition reportThreadStackTrace :: "bool \<Rightarrow> RpcCode \<Rightarrow> ErrorCode" where
  "reportThreadStackTrace ok code = (if \<not> ok then RequestTimeout else reportThreadStackTrace_code code)"

definition reportMessageConsumptionResult_code :: "RpcCode \<Rightarrow> ErrorCode" where
  "reportMessageConsumptionResult_code code =
     (case code of OK \<Rightarrow> Success | UNAUTHENTICATED \<Rightarrow> Unauthorized | PERMISSION_DENIED \<Rightarrow> Forbidden | _ \<Rightarrow> NotImplemented)"

definition reportMessageConsumptionResult :: "bool \<Rightarrow> RpcCode \<Rightarrow> ErrorCode" where
  "reportMessageConsumptionResult ok code = (if \<not> ok then RequestTimeout else reportMessageConsumptionResult_code code)"

definition notifyClientTermination_code :: "RpcCode \<Rightarrow> ErrorCode" where
  "notifyClientTermination_code code =
     (case code of OK \<Rightarrow> Success | INTERNAL \<Rightarrow> InternalServerError | UNAUTHENTICATED \<Rightarrow> Unauthorized
      | PERMISSION_DENIED \<Rightarrow> Forbidden | _ \<Rightarrow> NotImplemented)"

definition notifyClientTermination :: "bool \<Rightarrow> RpcCode \<Rightarrow> ErrorCode" where
  "notifyClientTermination ok code = (if \<not> ok then RequestTimeout else notifyClientTermination_code code)"

text \<open>\<open>processSendResponse\<close> throws (\<open>None\<close>) on any code but \<open>OK\<close>.\<close>

definition processSendResponse :: "MQMessageQueue \<Rightarrow> RpcCode \<Rightarrow> string \<Rightarrow> string \<Rightarrow> SendResult option" where
  "processSendResponse mq code message_id transaction_id =
     (if code \<noteq> OK then None
      else Some ((SendResult_new message_id transaction_id)\<lparr>sr_message_queue := mq\<rparr>))"
section \<open>Received messages\<close>

text \<open>\<open>blank\<close> is the default-constructed message.  \<open>None\<close> stands for the failed assertion on the namespace or a
  throw inside \<open>wrapMessage\<close>.\<close>

fun receive_messages ::
  "'z codec \<Rightarrow> string \<Rightarrow> int \<Rightarrow> string \<Rightarrow> MQMessage \<Rightarrow> PbMessage list \<Rightarrow> histogram \<Rightarrow> (MQMessage list \<times> histogram) option"
where
  "receive_messages c ns now host blank [] h = Some ([], h)"
| "receive_messages c ns now host blank (item # items) h =
     (case wrapMessage c ns now item (setTargetEndpoint host blank) h of
        None \<Rightarrow> None
      | Some (ok, m, h') \<Rightarrow>
          map_option (\<lambda>(ms, h''). (if ok then m # ms else ms, h'')) (receive_messages c ns now host blank items h'))"

definition receive_code :: "RpcCode \<Rightarrow> ErrorCode" where
  "receive_code code =
     (case code of OK \<Rightarrow> Success | UNAUTHENTICATED \<Rightarrow> Unauthorized | PERMISSION_DENIED \<Rightarrow> Forbidden
      | INVALID_ARGUMENT \<Rightarrow> BadRequest | DEADLINE_EXCEEDED \<Rightarrow> GatewayTimeout | INTERNAL \<Rightarrow> InternalServerError
      | _ \<Rightarrow> NotImplemented)"

record ReceiveMessageResult =
  rr_source_host :: string
  rr_messages :: "MQMessage list"
  rr_min_offset :: int
  rr_next_offset :: int
  rr_max_offset :: int

definition empty_result :: ReceiveMessageResult where
  "empty_result = \<lparr>rr_source_host = '''', rr_messages = [], rr_min_offset = 0, rr_next_offset = 0, rr_max_offset = 0\<rparr>"

definition receiveMessage_completion ::
  "'z codec \<Rightarrow> string \<Rightarrow> int \<Rightarrow> string \<Rightarrow> MQMessage \<Rightarrow> bool \<Rightarrow> RpcCode \<Rightarrow> PbMessage list \<Rightarrow> histogram \<Rightarrow>
   (ErrorCode \<times> ReceiveMessageResult \<times> histogram) option" where
  "receiveMessage_completion c ns now host blank ok code items h =
     (if \<not> ok then Some (RequestTimeout, empty_result, h)
      else let r = empty_result\<lparr>rr_source_host := host\<rparr>
           in if code = OK
              then map_option (\<lambda>(ms, h'). (Success, r\<lparr>rr_messages := ms\<rparr>, h')) (receive_messages c ns now host blank items h)
              else Some (receive_code code, r, h))"

text \<open>The pull handler returns from its lambda at the first message it cannot decode: \<open>Some None\<close>, no
  callback.\<close>

fun pull_messages ::
  "'z codec \<Rightarrow> string \<Rightarrow> int \<Rightarrow> MQMessage \<Rightarrow> PbMessage list \<Rightarrow> histogram \<Rightarrow> (MQMessage list option \<times> histogram) option"
where
  "pull_messages c ns now blank [] h = Some (Some [], h)"
| "pull_messages c ns now blank (item # items) h =
     (case wrapMessage c ns now item blank h of
        None \<Rightarrow> None
      | Some (ok, m, h') \<Rightarrow>
          if \<not> ok then Some (None, h')
          else map_option (\<lambda>(ms, h''). (map_option ((#) m) ms, h'')) (pull_messages c ns now blank items h'))"

definition pull_code :: "RpcCode \<Rightarrow> ErrorCode" where
  "pull_code code =
     (case code of OK \<Rightarrow> Success | PERMISSION_DENIED \<Rightarrow> Forbidden | UNAUTHENTICATED \<Rightarrow> Unauthorized | NOT_FOUND \<Rightarrow> NotFound
      | DEADLINE_EXCEEDED \<Rightarrow> GatewayTimeout | INVALID_ARGUMENT \<Rightarrow> BadRequest | FAILED_PRECONDITION \<Rightarrow> PreconditionRequired
      | INTERNAL \<Rightarrow> InternalServerError | _ \<Rightarrow> NotImplemented)"

record PullMessageResponse =
  pr_code :: RpcCode
  pr_min_offset :: int
  pr_next_offset :: int
  pr_max_offset :: int
  pr_messages :: "PbMessage list"

definition pullMessage_completion ::
  "'z codec \<Rightarrow> string \<Rightarrow> int \<Rightarrow> string \<Rightarrow> MQMessage \<Rightarrow> bool \<Rightarrow> PullMessageResponse \<Rightarrow> histogram \<Rightarrow>
   ((ErrorCode \<times> ReceiveMessageResult) option \<times> histogram) option" where
  "pullMessage_completion c ns now host blank ok response h =
     (let r0 = empty_result\<lparr>rr_source_host := host\<rparr>
      in if \<not> ok then Some (Some (RequestTimeout, r0), h)
         else let r = r0\<lparr>rr_min_offset := pr_min_offset response, rr_next_offset := pr_next_offset response,
                        rr_max_offset := pr_max_offset response\<rparr>
              in if pr_code response = OK
                 then map_option (\<lambda>(ms, h'). (map_option (\<lambda>ms. (Success, r\<lparr>rr_messages := ms\<rparr>)) ms, h'))
                        (pull_messages c ns now blank (pr_messages response) h)
                 else Some (Some (pull_code (pr_code response), r), h))"

section \<open>Lemmas\<close>

interpretation health_status: status_mapping health_code
  by unfold_locales (simp_all add: health_code_def split: RpcCode.split)

interpretation send_status: status_mapping send_code
  by unfold_locales (simp_all add: send_code_def split: RpcCode.split)

interpretation ack_status: status_mapping ack_code
  by unfold_locales (simp_all add: ack_code_def split: RpcCode.split)

interpretation nack_status: status_mapping nack_code
  by unfold_locales (simp_all add: nack_code_def split: RpcCode.split)

interpretation endTransaction_status: status_mapping endTransaction_code
  by unfold_locales (simp_all add: endTransaction_code_def split: RpcCode.split)

interpretation queryOffset_status: status_mapping queryOffset_code
  by unfold_locales (simp_all add: queryOffset_code_def split: RpcCode.split)

interpretation stackTrace_status: status_mapping reportThreadStackTrace_code
  by unfold_locales (simp_all add: reportThreadStackTrace_code_def split: RpcCode.split)

interpretation consumption_status: status_mapping reportMessageConsumptionResult_code
  by unfold_locales (simp_all add: reportMessageConsumptionResult_code_def split: RpcCode.split)

interpretation termination_status: status_mapping notifyClientTermination_code
  by unfold_locales (simp_all add: notifyClientTermination_code_def split: RpcCode.split)

interpretation receive_status: status_mapping receive_code
  by unfold_locales (simp_all add: receive_code_def split: RpcCode.split)

interpretation pull_status: status_mapping pull_code
  by unfold_locales (simp_all add: pull_code_def split: RpcCode.split)

lemma clean_loop_filter:
  "clean_loop hosts cs =
     (map fst (filter (\<lambda>(host, c). rpc_need_heartbeat c \<and> host \<notin> hosts) cs),
      filter (\<lambda>(host, c). \<not> (rpc_need_heartbeat c \<and> host \<notin> hosts)) cs)"
  by (induction hosts cs rule: clean_loop.induct) (auto simp: Let_def split: prod.splits)

text \<open>The digest decides whether a message can be decoded.\<close>

definition intact :: "'z codec \<Rightarrow> PbMessage \<Rightarrow> bool" where
  "intact c item \<longleftrightarrow> body_digest_match c (pb_body_digest (pm_sys item)) (pm_body item)"

lemma wrapMessage_ok: "wrapMessage c ns now item m h = Some (ok, m', h') \<Longrightarrow> ok = intact c item"
  by (auto simp: wrapMessage_def intact_def Let_def split: if_splits bind_splits option.splits)

lemma receive_messages_count:
  "receive_messages c ns now host blank items h = Some (ms, h') \<Longrightarrow> length ms = length (filter (intact c) items)"
proof (induction items arbitrary: ms h h')
  case (Cons item items)
  then show ?case by (auto dest!: wrapMessage_ok split: option.splits prod.splits if_splits)
qed simp

lemma pull_messages_all:
  "pull_messages c ns now blank items h = Some (r, h') \<Longrightarrow>
   (r \<noteq> None \<longleftrightarrow> list_all (intact c) items) \<and> (\<forall>ms. r = Some ms \<longrightarrow> length ms = length items)"
proof (induction items arbitrary: r h h')
  case (Cons item items)
  then show ?case
    by (auto dest!: wrapMessage_ok split: option.splits prod.splits if_splits)
qed auto


text \<open>A health check drops exactly the connections that are kept alive by heartbeats and that no living client
  uses, reports them to every active client, and keeps the rest.\<close>

lemma doHealthCheck_exact:
  assumes "cm_state m = STARTED"
  shows "let offline = (\<lambda>(host, c). rpc_need_heartbeat c \<and> host \<notin> hosts_in_use (cm_clients m));
             removed = map fst (filter offline (cm_rpc_clients m))
    in doHealthCheck m =
       ((if removed = [] then [] else map (\<lambda>ob. OnRemoteEndpointRemoval ob removed) (active_clients m)) @
        map HealthCheck (active_clients m),
        m\<lparr>cm_rpc_clients := filter (Not \<circ> offline) (cm_rpc_clients m)\<rparr>)"
  using assms by (simp add: doHealthCheck_def cleanOfflineRpcClients_def clean_loop_filter active_clients_def Let_def
      comp_def case_prod_unfold)

lemma getRpcClient_ok:
  "\<exists>c. map_of (cm_rpc_clients (getRpcClient host need m)) host = Some c \<and> rpc_ok c \<and> (need \<longrightarrow> rpc_need_heartbeat c)"
  "other \<noteq> host \<Longrightarrow> map_of (cm_rpc_clients (getRpcClient host need m)) other = map_of (cm_rpc_clients m) other"
  by (auto simp: getRpcClient_def Let_def update_conv' split: option.split)

text \<open>After a shutdown no timer of the manager runs again.\<close>

lemma stopped_step:
  "sched_step s s' \<Longrightarrow> sch_stopped s \<Longrightarrow> sch_stopped s' \<and> sch_fired s' = sch_fired s"
  by (induction rule: sched_step.induct)
    (auto simp: schedule_def execute_begin_def execute_end_def cancel_def shutdown_cas_def Let_def split: if_splits prod.splits)

lemma cm_shutdown_silent:
  assumes "sched_step\<^sup>*\<^sup>* (cm_scheduler (cm_shutdown (cm_start (ClientManager_new ns cores last_id now)))) s"
  shows "sch_fired s = []"
proof -
  let ?s = "cm_scheduler (cm_shutdown (cm_start (ClientManager_new ns cores last_id now)))"
  have "sch_stopped ?s \<and> sch_fired ?s = []"
    by (simp add: cm_shutdown_def cm_start_def ClientManager_new_def sched_shutdown_def shutdown_cas_def schedule_def
        SchedulerImpl_new_def cancel_if_def cancel_def Let_def)
  with assms have "sch_stopped s \<and> sch_fired s = []"
    by (induction rule: rtranclp_induct) (use stopped_step in fastforce)+
  then show ?thesis by simp
qed

section \<open>Properties\<close>




definition demo_corrupt :: PbMessage where
  "demo_corrupt = \<lparr>pm_topic = \<lparr>t_resource_namespace = '''', t_name = ''T''\<rparr>, pm_user_attribute = Map.empty,
     pm_sys = empty_sys\<lparr>pb_body_digest := \<lparr>d_type = Some CRC32, d_checksum = ''bad''\<rparr>\<rparr>, pm_body = ''x''\<rparr>"

lemma demo_corrupt_wrapped:
  "\<not> intact plain_codec demo_corrupt" "\<exists>m. wrapMessage plain_codec '''' now demo_corrupt blank h = Some (False, m, h)"
proof -
  have "hex (network_bytes 0) \<noteq> ''bad''" by code_simp
  then show bad: "\<not> intact plain_codec demo_corrupt"
    by (simp add: intact_def demo_corrupt_def body_digest_match_def crc32_def plain_codec_def)
  then show "\<exists>m. wrapMessage plain_codec '''' now demo_corrupt blank h = Some (False, m, h)"
    by (simp add: wrapMessage_def intact_def Let_def) (simp add: demo_corrupt_def)
qed


end
