(* ===== verification/ClientCore.thy ===== *)
theory ClientCore
  imports ClientManager ProcessQueue
begin

text \<open>
  What every client shares (rocketmq/ClientImpl.cpp): its life cycle, the table of topic routes with the
  coalescing of concurrent route queries, the hosts in use, isolated hosts, the commands a broker sends
  back through a long poll, and the signature of requests (client/Signature.cpp).  Callbacks are numbers;
  \<open>iter\<close> is the iteration order of a hash container.
\<close>

section \<open>Signature\<close>

text \<open>\<open>format_time\<close> is \<open>absl::FormatTime\<close> on the current time and \<open>hmac\<close> is \<open>TlsHelper::sign\<close>, a wrapper of
  OpenSSL.  \<open>insert\<close> keeps an entry that is there.\<close>

record client_config =
  cc_tenant_id :: string
  cc_resource_namespace :: string
  cc_region :: string
  cc_service_name :: string
  cc_client_version :: string
  cc_credentials :: "(string \<times> string \<times> string) option"

type_synonym metadata = "string \<rightharpoonup> string"

definition meta_insert :: "string \<Rightarrow> string \<Rightarrow> metadata \<Rightarrow> metadata" where
  "meta_insert k v m = (if m k = None then m(k \<mapsto> v) else m)"

definition authorization :: "(string \<Rightarrow> string \<Rightarrow> string) \<Rightarrow> client_config \<Rightarrow> string \<Rightarrow> string \<Rightarrow> string \<Rightarrow> string" where
  "authorization hmac c key secret date_time =
     ''MQv2-HMAC-SHA1'' @ '' '' @ ''Credential'' @ ''='' @ key @ ''/'' @ cc_region c @ ''/'' @ cc_service_name c @
     '', '' @ ''SignedHeaders'' @ ''='' @ ''x-mq-date-time'' @ '', '' @ ''Signature'' @ ''='' @ hmac secret date_time"

definition sign :: "(string \<Rightarrow> string \<Rightarrow> string) \<Rightarrow> client_config \<Rightarrow> string \<Rightarrow> metadata \<Rightarrow> metadata" where
  "sign hmac c date_time metadata =
     (let m1 = meta_insert ''x-mq-protocol-version'' ''v1'' (meta_insert ''x-mq-client-version'' (cc_client_version c)
                 (meta_insert ''x-mq-language'' ''CPP'' metadata));
          m2 = (if cc_tenant_id c \<noteq> '''' then meta_insert ''x-mq-tenant-id'' (cc_tenant_id c) m1 else m1);
          m3 = (if cc_resource_namespace c \<noteq> '''' then meta_insert ''x-mq-namespace'' (cc_resource_namespace c) m2 else m2);
          m4 = meta_insert ''x-mq-date-time'' date_time m3
      in case cc_credentials c of
           None \<Rightarrow> m4
         | Some (key, secret, token) \<Rightarrow>
             if key = '''' \<or> secret = '''' then m4
             else let m5 = meta_insert ''authorization'' (authorization hmac c key secret date_time) m4
                  in if token \<noteq> '''' then meta_insert ''x-mq-session-token'' token m5 else m5)"

section \<open>Life cycle\<close>

text \<open>\<open>ClientImpl::start\<close> leaves the client \<open>STARTING\<close>; the concrete client turns this into \<open>STARTED\<close>.  A client
  without a name server resolver aborts.\<close>

definition client_start :: "bool \<Rightarrow> State \<Rightarrow> State option" where
  "client_start has_resolver st =
     (let (st', ok) = compare_exchange_strong st CREATED STARTING
      in if \<not> ok then Some st else if \<not> has_resolver then None else Some st')"

definition client_shutdown :: "State \<Rightarrow> State" where
  "client_shutdown st = fst (compare_exchange_strong st STOPPING STOPPED)"

definition active :: "State \<Rightarrow> bool" where
  "active st \<longleftrightarrow> st = STARTING \<or> st = STARTED"

section \<open>Routes\<close>

type_synonym route_table = "(string \<times> TopicRouteData) list"

definition route_hosts :: "route_table \<Rightarrow> string set" where
  "route_hosts tbl = (\<Union>(topic, route) \<in> set tbl. (mq_service_address \<circ> asMessageQueue) ` set (rd_partitions route))"

definition endpointsInUse :: "route_table \<Rightarrow> string set \<Rightarrow> string set" where
  "endpointsInUse tbl endpoints = endpoints \<union> route_hosts tbl"

definition trace_hosts :: "route_table \<Rightarrow> string set" where
  "trace_hosts tbl =
     (\<Union>(topic, route) \<in> set tbl. (mq_service_address \<circ> asMessageQueue) `
        set (filter (\<lambda>p. p_permission p \<noteq> NONE \<and> b_id (p_broker p) = MASTER_BROKER_ID) (rd_partitions route)))"

text \<open>\<open>std::set_difference\<close> on two ranges.\<close>

fun set_difference :: "string list \<Rightarrow> string list \<Rightarrow> string list" where
  "set_difference [] ys = []"
| "set_difference xs [] = xs"
| "set_difference (x # xs) (y # ys) =
     (if x < y then x # set_difference xs (y # ys)
      else if y < x then set_difference (x # xs) ys
      else set_difference xs ys)"

text \<open>The new table and the hosts to poll.\<close>

definition updateRouteCache ::
  "(string set \<Rightarrow> string list) \<Rightarrow> string \<Rightarrow> ErrorCode \<Rightarrow> TopicRouteData option \<Rightarrow> route_table \<Rightarrow> route_table \<times> string list" where
  "updateRouteCache iter topic ec route tbl =
     (case route of
        None \<Rightarrow> (tbl, [])
      | Some r \<Rightarrow>
          if ec_bool ec \<or> rd_partitions r = [] then (tbl, [])
          else let existed = route_hosts tbl;
                   tbl' = (case map_of tbl topic of
                             None \<Rightarrow> tbl @ [(topic, r)]
                           | Some cached \<Rightarrow> if \<not> route_eq cached r then AList.update topic r tbl else tbl)
               in (tbl', set_difference (iter (route_hosts tbl')) (iter existed)))"

text \<open>The route queries: \<open>rs_callers\<close> are threads between the two critical sections of \<open>getRouteFor\<close>,
  \<open>rs_inflight\<close> the callbacks waiting per topic, \<open>rs_rpcs\<close> the queries under way, \<open>rs_ready\<close> the queries
  answered whose waiting callbacks have not been taken yet, \<open>rs_issued\<close> the callbacks passed in and
  \<open>rs_answered\<close> those invoked.\<close>

record route_sys =
  rs_table :: route_table
  rs_callers :: "(string \<times> nat) list"
  rs_inflight :: "(string \<times> nat list) list"
  rs_rpcs :: "string list"
  rs_ready :: "(string \<times> ErrorCode \<times> TopicRouteData option) list"
  rs_issued :: "nat list"
  rs_answered :: "(nat \<times> ErrorCode \<times> TopicRouteData option) list"

definition route_start :: route_sys where
  "route_start = \<lparr>rs_table = [], rs_callers = [], rs_inflight = [], rs_rpcs = [], rs_ready = [], rs_issued = [],
     rs_answered = []\<rparr>"

definition answer :: "nat list \<Rightarrow> ErrorCode \<Rightarrow> TopicRouteData option \<Rightarrow> route_sys \<Rightarrow> route_sys" where
  "answer cbs ec route s = s\<lparr>rs_answered := rs_answered s @ map (\<lambda>cb. (cb, ec, route)) cbs\<rparr>"

text \<open>What one caller of \<open>getRouteFor\<close> sees: \<open>None\<close> when its callback is never invoked.\<close>

type_synonym route_answer = "(ErrorCode \<times> TopicRouteData option) option"

text \<open>The first look at the table.\<close>

definition getRouteFor_lookup :: "string \<Rightarrow> nat \<Rightarrow> route_sys \<Rightarrow> route_sys" where
  "getRouteFor_lookup topic cb s =
     (let s' = s\<lparr>rs_issued := rs_issued s @ [cb]\<rparr>
      in case map_of (rs_table s') topic of
           Some route \<Rightarrow> answer [cb] Success (Some route) s'
         | None \<Rightarrow> s'\<lparr>rs_callers := rs_callers s' @ [(topic, cb)]\<rparr>)"

text \<open>\<open>fetchRouteFor\<close> returns without a call, and without a callback, when no name server is known.\<close>

definition fetchRouteFor :: "string \<Rightarrow> string \<Rightarrow> route_sys \<Rightarrow> route_sys" where
  "fetchRouteFor name_server topic s = (if name_server = '''' then s else s\<lparr>rs_rpcs := rs_rpcs s @ [topic]\<rparr>)"

text \<open>The second critical section of \<open>getRouteFor\<close> and what follows it.\<close>

definition getRouteFor_register :: "string \<Rightarrow> string \<Rightarrow> nat \<Rightarrow> route_sys \<Rightarrow> route_sys" where
  "getRouteFor_register name_server topic cb s =
     (case map_of (rs_table s) topic of
        Some route \<Rightarrow> answer [cb] Success (Some route) s
      | None \<Rightarrow>
          (case map_of (rs_inflight s) topic of
             Some cbs \<Rightarrow> s\<lparr>rs_inflight := AList.update topic (cbs @ [cb]) (rs_inflight s)\<rparr>
           | None \<Rightarrow> fetchRouteFor name_server topic (s\<lparr>rs_inflight := rs_inflight s @ [(topic, [cb])]\<rparr>)))"

text \<open>\<open>onTopicRouteReady\<close>: first the cache, then, under the other mutex, the waiting callbacks.\<close>

definition onTopicRouteReady_cache ::
  "(string set \<Rightarrow> string list) \<Rightarrow> string \<Rightarrow> ErrorCode \<Rightarrow> TopicRouteData option \<Rightarrow> route_sys \<Rightarrow> route_sys" where
  "onTopicRouteReady_cache iter topic ec route s =
     s\<lparr>rs_table := fst (updateRouteCache iter topic ec route (rs_table s)), rs_ready := rs_ready s @ [(topic, ec, route)]\<rparr>"

definition onTopicRouteReady_flush ::
  "string \<Rightarrow> ErrorCode \<Rightarrow> TopicRouteData option \<Rightarrow> route_sys \<Rightarrow> route_sys option" where
  "onTopicRouteReady_flush topic ec route s =
     (case map_of (rs_inflight s) topic of
        None \<Rightarrow> None
      | Some cbs \<Rightarrow> Some (answer cbs ec route (s\<lparr>rs_inflight := AList.delete topic (rs_inflight s)\<rparr>)))"

text \<open>A failed query is answered without a route (\<open>fetchRouteFor\<close>'s own callback).  \<open>refreshed\<close> is the end of a
  periodic \<open>updateRouteInfo\<close> query.\<close>

inductive route_step :: "(string set \<Rightarrow> string list) \<Rightarrow> (string \<Rightarrow> bool) \<Rightarrow> route_sys \<Rightarrow> route_sys \<Rightarrow> bool" for iter resolvable where
  lookup: "route_step iter resolvable s (getRouteFor_lookup topic cb s)"
| register: "i < length (rs_callers s) \<Longrightarrow> rs_callers s ! i = (topic, cb) \<Longrightarrow> resolvable name_server \<Longrightarrow>
    route_step iter resolvable s
      (getRouteFor_register name_server topic cb (s\<lparr>rs_callers := take i (rs_callers s) @ drop (Suc i) (rs_callers s)\<rparr>))"
| completed: "i < length (rs_rpcs s) \<Longrightarrow> rs_rpcs s ! i = topic \<Longrightarrow>
    route_step iter resolvable s (onTopicRouteReady_cache iter topic ec (if ec_bool ec then None else route)
      (s\<lparr>rs_rpcs := take i (rs_rpcs s) @ drop (Suc i) (rs_rpcs s)\<rparr>))"
| flush: "i < length (rs_ready s) \<Longrightarrow> rs_ready s ! i = (topic, ec, route) \<Longrightarrow>
    onTopicRouteReady_flush topic ec route (s\<lparr>rs_ready := take i (rs_ready s) @ drop (Suc i) (rs_ready s)\<rparr>) = Some s' \<Longrightarrow>
    route_step iter resolvable s s'"
| refreshed: "map_of (rs_table s) topic \<noteq> None \<Longrightarrow>
    route_step iter resolvable s (s\<lparr>rs_table := fst (updateRouteCache iter topic ec route (rs_table s))\<rparr>)"

definition updateRouteInfo :: "State \<Rightarrow> route_table \<Rightarrow> string list" where
  "updateRouteInfo st tbl = (if st \<noteq> STARTED \<and> st \<noteq> STARTING then [] else map fst tbl)"

section \<open>Hosts\<close>

text \<open>The hosts a heartbeat and the notice of termination go to.\<close>

definition heartbeat_hosts :: "route_table \<Rightarrow> string set" where
  "heartbeat_hosts tbl = endpointsInUse tbl {}"

datatype client_group = ProducerGroup Topic | ConsumerGroup Topic

record NotifyClientTerminationRequest =
  nctr_group :: client_group
  nctr_client_id :: string

definition termination_hosts :: "route_table \<Rightarrow> string set" where
  "termination_hosts tbl = endpointsInUse tbl {}"

definition onRemoteEndpointRemoval :: "string list \<Rightarrow> string set \<Rightarrow> string set" where
  "onRemoteEndpointRemoval hosts isolated = {h \<in> isolated. h \<notin> set hosts}"

definition onHealthCheckResponse :: "ErrorCode \<Rightarrow> string \<Rightarrow> string set \<Rightarrow> string set" where
  "onHealthCheckResponse ec remote isolated = (if ec_bool ec then isolated else isolated - {remote})"
section \<open>Commands of the broker\<close>

datatype GroupType = PUBLISHER | SUBSCRIBER

record ClientResourceBundle =
  rb_client_id :: string
  rb_topics :: "string list"
  rb_resource_namespace :: string
  rb_group_type :: GroupType

record PollCommandRequest =
  pcr_client_id :: string
  pcr_producer_group :: "Topic option"
  pcr_consumer_group :: "Topic option"
  pcr_topics :: "Topic list"

definition resourceBundle :: "string \<Rightarrow> string \<Rightarrow> ClientResourceBundle" where
  "resourceBundle client_id ns =
     \<lparr>rb_client_id = client_id, rb_topics = [], rb_resource_namespace = ns, rb_group_type = PUBLISHER\<rparr>"

definition pollCommand :: "string \<Rightarrow> string \<Rightarrow> ClientResourceBundle \<Rightarrow> PollCommandRequest" where
  "pollCommand ns group_name b =
     (let grp = \<lparr>t_resource_namespace = ns, t_name = group_name\<rparr>
      in \<lparr>pcr_client_id = rb_client_id b,
          pcr_producer_group = (if rb_group_type b = PUBLISHER then Some grp else None),
          pcr_consumer_group = (if rb_group_type b = SUBSCRIBER then Some grp else None),
          pcr_topics = map (\<lambda>item. \<lparr>t_resource_namespace = ns, t_name = item\<rparr>) (rb_topics b)\<rparr>)"

datatype command =
    PrintThreadStackTrace string
  | VerifyMessageConsumption string PbMessage
  | RecoverOrphanedTransaction string PbMessage
  | NoopCommand
  | UnsupportedCommand

text \<open>What the client does in answer: a report to the broker (host, command, code, text), a task for the
  thread pool, or another poll, at once or in three seconds.\<close>

datatype reaction =
    ReportStackTrace string string string
  | ReportConsumption string string RpcCode string
  | SubmitVerify string string MQMessage
  | SubmitResolveOrphaned string MQMessage
  | PollCommand string
  | PollLater string

definition verifyMessageConsumption ::
  "MessageListenerType option \<Rightarrow> string \<Rightarrow> string \<Rightarrow> MQMessage \<Rightarrow> reaction list" where
  "verifyMessageConsumption listener remote command_id m =
     (case listener of
        None \<Rightarrow> [ReportConsumption remote command_id FAILED_PRECONDITION ''Target is not a push consumer client'']
      | Some FIFO_LISTENER \<Rightarrow>
          [ReportConsumption remote command_id FAILED_PRECONDITION
             ''FIFO message does NOT support verification of message consumption'']
      | Some STANDARD \<Rightarrow> [SubmitVerify remote command_id m])"

definition onPollCommandResponse ::
  "'z codec \<Rightarrow> string \<Rightarrow> int \<Rightarrow> MQMessage \<Rightarrow> MessageListenerType option \<Rightarrow> route_table \<Rightarrow> string \<Rightarrow> bool \<Rightarrow> command \<Rightarrow> histogram \<Rightarrow>
   reaction list option" where
  "onPollCommandResponse c ns now blank listener tbl address ok cmd h =
     (if address \<notin> endpointsInUse tbl {} then Some []
      else if \<not> ok then Some [PollLater address]
      else map_option (\<lambda>rs. rs @ [PollCommand address])
        (case cmd of
           PrintThreadStackTrace command_id \<Rightarrow>
             Some [ReportStackTrace address command_id
               ''--RocketMQ-Client-CPP does NOT support thread stack trace report--'']
         | VerifyMessageConsumption command_id data \<Rightarrow>
             (case wrapMessage c ns now data blank h of
                None \<Rightarrow> None
              | Some (good, m, _) \<Rightarrow>
                  Some ((if good then [] else [ReportConsumption address command_id INVALID_ARGUMENT ''Data corrupted'']) @
                        verifyMessageConsumption listener address command_id m))
         | RecoverOrphanedTransaction transaction_id orphan \<Rightarrow>
             (case wrapMessage c ns now orphan blank h of
                None \<Rightarrow> None
              | Some (good, m, _) \<Rightarrow>
                  Some (if good then [SubmitResolveOrphaned transaction_id (setTargetEndpoint address m)] else []))
         | NoopCommand \<Rightarrow> Some []
         | UnsupportedCommand \<Rightarrow> Some []))"

text \<open>\<open>None\<close> is an exception of the listener.  The code is left at its default, \<open>OK\<close>, on success.\<close>

definition doVerify :: "ConsumeMessageResult option \<Rightarrow> string \<Rightarrow> string \<Rightarrow> reaction" where
  "doVerify result target command_id =
     (case result of
        Some SUCCESS \<Rightarrow> ReportConsumption target command_id OK ''Consume Success''
      | Some FAILURE \<Rightarrow> ReportConsumption target command_id INTERNAL ''Consume Failed''
      | None \<Rightarrow> ReportConsumption target command_id INTERNAL
          ''Unexpected exception raised while invoking message listener provided by application developer'')"

section \<open>Route queries: lemmas\<close>

definition waiting :: "route_sys \<Rightarrow> nat multiset" where
  "waiting s = mset (concat (map snd (rs_inflight s)))"

definition route_inv :: "route_sys \<Rightarrow> bool" where
  "route_inv s \<longleftrightarrow>
     distinct (map fst (rs_inflight s)) \<and>
     mset (rs_rpcs s) + mset (map fst (rs_ready s)) = mset (map fst (rs_inflight s)) \<and>
     mset (rs_issued s) = mset (map fst (rs_answered s)) + mset (map snd (rs_callers s)) + waiting s"

lemma mset_remove_at: "i < length xs \<Longrightarrow> mset xs = add_mset (xs ! i) (mset (take i xs @ drop (Suc i) xs))"
  by (subst id_take_nth_drop [of i xs]) simp_all

lemma map_take_drop: "map f (take i xs @ drop j xs) = take i (map f xs) @ drop j (map f xs)"
  by (simp add: take_map drop_map)

lemma waiting_update:
  "distinct (map fst al) \<Longrightarrow> map_of al k = Some cbs \<Longrightarrow>
   mset (concat (map snd (AList.update k (cbs @ [cb]) al))) = add_mset cb (mset (concat (map snd al))) \<and>
   map fst (AList.update k (cbs @ [cb]) al) = map fst al"
proof (induction al)
  case (Cons a al)
  then show ?case by (cases a) (auto split: if_splits)
qed simp

lemma waiting_delete:
  "distinct (map fst al) \<Longrightarrow> map_of al k = Some cbs \<Longrightarrow>
   mset (concat (map snd al)) = mset cbs + mset (concat (map snd (AList.delete k al))) \<and>
   mset (map fst al) = add_mset k (mset (map fst (AList.delete k al))) \<and> distinct (map fst (AList.delete k al))"
proof (induction al)
  case (Cons a al)
  show ?case
  proof (cases "fst a = k")
    case True
    then have "k \<notin> fst ` set al" using Cons.prems(1) by auto
    then have "AList.delete k al = al" by (simp add: AList.delete_eq filter_id_conv) force
    with True Cons.prems show ?thesis by (cases a) (simp add: AList.delete_eq)
  next
    case False
    with Cons.prems have "map_of al k = Some cbs" "distinct (map fst al)" by (cases a; simp)+
    with Cons False show ?thesis by (cases a) (auto simp: AList.delete_eq)
  qed
qed simp

lemma route_inv_start: "route_inv route_start"
  by (simp add: route_inv_def route_start_def waiting_def)

lemma register_inv:
  assumes inv: "route_inv s" and i: "i < length (rs_callers s)" "rs_callers s ! i = (topic, cb)" and ns: "name_server \<noteq> ''''"
  shows "route_inv (getRouteFor_register name_server topic cb (s\<lparr>rs_callers := take i (rs_callers s) @ drop (Suc i) (rs_callers s)\<rparr>))"
proof -
  have callers: "mset (map snd (rs_callers s)) = add_mset cb (mset (map snd (take i (rs_callers s) @ drop (Suc i) (rs_callers s))))"
    using mset_remove_at [of i "map snd (rs_callers s)"] i by (simp add: take_map drop_map)
  show ?thesis
  proof (cases "map_of (rs_table s) topic")
    case (Some route)
    with inv callers show ?thesis by (simp add: route_inv_def getRouteFor_register_def answer_def waiting_def)
  next
    case None
    show ?thesis
    proof (cases "map_of (rs_inflight s) topic")
      case (Some cbs)
      with None inv callers waiting_update [of "rs_inflight s" topic cbs cb] show ?thesis
        by (simp add: route_inv_def getRouteFor_register_def waiting_def)
    next
      case none: None
      then have "topic \<notin> fst ` set (rs_inflight s)" by (simp add: map_of_eq_None_iff)
      with None none inv ns callers show ?thesis
        by (simp add: route_inv_def getRouteFor_register_def fetchRouteFor_def waiting_def)
    qed
  qed
qed

lemma completed_inv:
  assumes "route_inv s" "i < length (rs_rpcs s)" "rs_rpcs s ! i = topic"
  shows "route_inv (onTopicRouteReady_cache iter topic ec route (s\<lparr>rs_rpcs := take i (rs_rpcs s) @ drop (Suc i) (rs_rpcs s)\<rparr>))"
  using assms mset_remove_at [OF assms(2)]
  by (simp add: route_inv_def onTopicRouteReady_cache_def waiting_def)

lemma flush_inv:
  assumes "route_inv s" "i < length (rs_ready s)" "rs_ready s ! i = (topic, ec, route)"
    and "onTopicRouteReady_flush topic ec route (s\<lparr>rs_ready := take i (rs_ready s) @ drop (Suc i) (rs_ready s)\<rparr>) = Some s'"
  shows "route_inv s'"
proof -
  have ready: "mset (map fst (rs_ready s)) = add_mset topic (mset (map fst (take i (rs_ready s) @ drop (Suc i) (rs_ready s))))"
    using mset_remove_at [of i "map fst (rs_ready s)"] assms(2,3) by (simp add: take_map drop_map)
  obtain cbs where cbs: "map_of (rs_inflight s) topic = Some cbs"
    and s': "s' = answer cbs ec route (s\<lparr>rs_ready := take i (rs_ready s) @ drop (Suc i) (rs_ready s),
      rs_inflight := AList.delete topic (rs_inflight s)\<rparr>)"
    using assms(4) by (auto simp: onTopicRouteReady_flush_def split: option.splits)
  have "distinct (map fst (rs_inflight s))" using assms(1) by (simp add: route_inv_def)
  from waiting_delete [OF this cbs] ready assms(1) show ?thesis
    by (simp add: route_inv_def s' answer_def waiting_def comp_def)
qed

lemma route_step_inv:
  assumes "route_step iter resolvable s s'" "route_inv s" "\<not> resolvable ''''"
  shows "route_inv s'"
  using assms
proof (induction rule: route_step.induct)
  case (lookup s topic cb)
  then show ?case
    by (auto simp: route_inv_def getRouteFor_lookup_def answer_def waiting_def Let_def split: option.split)
next
  case (register i s topic cb name_server)
  then have "name_server \<noteq> ''''" by blast
  with register show ?case by (intro register_inv)
next
  case (completed i s topic ec route)
  then show ?case by (intro completed_inv)
next
  case (flush i s topic ec route s')
  then show ?case by (blast intro: flush_inv)
next
  case (refreshed s topic ec route)
  then show ?case by (simp add: route_inv_def waiting_def)
qed

lemma route_steps_inv:
  "(route_step iter resolvable)\<^sup>*\<^sup>* s s' \<Longrightarrow> route_inv s \<Longrightarrow> \<not> resolvable '''' \<Longrightarrow> route_inv s'"
  by (induction rule: rtranclp_induct) (auto intro: route_step_inv)

text \<open>A topic whose waiting callbacks have no query under way.\<close>

definition stuck :: "string \<Rightarrow> nat \<Rightarrow> route_sys \<Rightarrow> bool" where
  "stuck topic cb s \<longleftrightarrow>
     (\<exists>cbs. map_of (rs_inflight s) topic = Some cbs \<and> cb \<in> set cbs) \<and>
     topic \<notin> set (rs_rpcs s) \<and> topic \<notin> fst ` set (rs_ready s) \<and> map_of (rs_table s) topic = None"

lemma updateRouteCache_other:
  "other \<noteq> topic \<Longrightarrow> map_of (fst (updateRouteCache iter topic ec route tbl)) other = map_of tbl other"
  by (auto simp: updateRouteCache_def Let_def update_conv' map_add_def split: option.splits)

lemma set_without_nth: "x \<in> set (take i xs @ drop (Suc i) xs) \<Longrightarrow> x \<in> set xs"
  by (auto dest: in_set_takeD in_set_dropD)

lemma stuck_step:
  assumes "route_step iter resolvable s s'" "stuck topic cb s"
  shows "stuck topic cb s'"
  using assms
proof (induction rule: route_step.induct)
  case (lookup s t c)
  then show ?case by (auto simp: stuck_def getRouteFor_lookup_def answer_def Let_def split: option.split)
next
  case (register i s t c name_server)
  then show ?case
    by (cases "t = topic") (auto simp: stuck_def getRouteFor_register_def fetchRouteFor_def answer_def update_conv'
        map_add_def split: option.split)
next
  case (completed i s t ec route)
  then have "t \<noteq> topic" by (auto simp: stuck_def)
  with completed show ?case
    by (auto simp: stuck_def onTopicRouteReady_cache_def updateRouteCache_other dest: in_set_takeD in_set_dropD)
next
  case (flush i s t ec route s')
  then have "(t, ec, route) \<in> set (rs_ready s)" by (metis nth_mem)
  then have "t \<noteq> topic" using flush.prems by (force simp: stuck_def)
  moreover have "set (take i (rs_ready s) @ drop (Suc i) (rs_ready s)) \<subseteq> set (rs_ready s)"
    using set_without_nth by fast
  then have "topic \<notin> fst ` set (take i (rs_ready s) @ drop (Suc i) (rs_ready s))"
    using flush.prems image_mono unfolding stuck_def by blast
  ultimately show ?case
    using flush by (auto simp: stuck_def onTopicRouteReady_flush_def answer_def delete_conv' split: option.splits)
next
  case (refreshed s t ec route)
  then have "t \<noteq> topic" by (auto simp: stuck_def)
  with refreshed show ?case by (simp add: stuck_def updateRouteCache_other)
qed

lemma stuck_steps: "(route_step iter resolvable)\<^sup>*\<^sup>* s s' \<Longrightarrow> stuck topic cb s \<Longrightarrow> stuck topic cb s'"
  by (induction rule: rtranclp_induct) (auto intro: stuck_step)

text \<open>\<open>set_difference\<close> requires sorted ranges; hash sets are not.  It never misses a new host, but it may
  report hosts that are not new.\<close>

lemma set_difference_bounds: "set xs - set ys \<subseteq> set (set_difference xs ys) \<and> set (set_difference xs ys) \<subseteq> set xs"
  by (induction xs ys rule: set_difference.induct) (auto simp: not_less_iff_gr_or_eq)

lemma set_difference_repeats: "set_difference [''a'', ''b'', ''c''] [''b'', ''a''] = [''a'', ''c'']"
  by code_simp

text \<open>A poll goes on for ever while its host is in the route table: every answer ends in exactly one further
  poll, at once or later.\<close>

lemma poll_cycle_continues:
  assumes "address \<in> route_hosts tbl" "onPollCommandResponse c ns now blank listener tbl address ok cmd h = Some rs"
  shows "rs \<noteq> [] \<and> last rs = (if ok then PollCommand address else PollLater address)"
  using assms by (auto simp: onPollCommandResponse_def endpointsInUse_def split: command.splits option.splits prod.splits)

text \<open>A corrupted message is reported and verified all the same.\<close>

lemma corrupted_verified:
  "wrapMessage c ns now data blank h = Some (False, m, h') \<Longrightarrow> address \<in> route_hosts tbl \<Longrightarrow>
   onPollCommandResponse c ns now blank (Some STANDARD) tbl address True (VerifyMessageConsumption command_id data) h =
     Some [ReportConsumption address command_id INVALID_ARGUMENT ''Data corrupted'', SubmitVerify address command_id m,
           PollCommand address]"
  by (simp add: onPollCommandResponse_def endpointsInUse_def verifyMessageConsumption_def)

text \<open>An authorization header is sent exactly with complete credentials, and the date it signs is the one
  sent along.\<close>

lemma sign_authorization:
  "(sign hmac c date_time Map.empty ''authorization'' \<noteq> None \<longleftrightarrow>
    (\<exists>key secret token. cc_credentials c = Some (key, secret, token) \<and> key \<noteq> '''' \<and> secret \<noteq> '''')) \<and>
   sign hmac c date_time Map.empty ''x-mq-date-time'' = Some date_time"
  by (auto simp: sign_def meta_insert_def Let_def split: option.splits prod.splits if_splits)

lemma client_life_cycle:
  "client_start True CREATED = Some STARTING" "st \<noteq> CREATED \<Longrightarrow> client_start r st = Some st"
  "client_shutdown STOPPING = STOPPED" "st \<noteq> STOPPING \<Longrightarrow> client_shutdown st = st"
  by (simp_all add: client_start_def client_shutdown_def)

section \<open>Properties\<close>

text \<open>C5: Concurrent route queries are coalesced without losing anyone: whenever a name server is known, in
  every interleaving of callers, answers and refreshes each callback passed to \<open>getRouteFor\<close> is invoked
  already, at its caller, or waiting, and exactly one of these; and every topic with waiting callbacks has
  exactly one query under way or answered, so the assertion in \<open>onTopicRouteReady\<close> holds.\<close>

theorem route_callbacks_exactly_once:
  assumes "(route_step iter resolvable)\<^sup>*\<^sup>* route_start s" "\<not> resolvable ''''"
  shows "mset (rs_issued s) = mset (map fst (rs_answered s)) + mset (map snd (rs_callers s)) + waiting s \<and>
    distinct (map fst (rs_inflight s)) \<and>
    mset (rs_rpcs s) + mset (map fst (rs_ready s)) = mset (map fst (rs_inflight s))"
  using route_steps_inv [OF assms(1) route_inv_start assms(2)] by (simp add: route_inv_def)

definition demo_routes :: route_sys where
  "demo_routes = getRouteFor_register ''ipv4:10.0.0.1:9876'' ''T'' 7
     ((getRouteFor_lookup ''T'' 7 route_start)\<lparr>rs_callers := []\<rparr>)"

lemma demo_routes_eval:
  "demo_routes = \<lparr>rs_table = [], rs_callers = [], rs_inflight = [(''T'', [7])], rs_rpcs = [''T''], rs_ready = [],
     rs_issued = [7], rs_answered = []\<rparr>"
  by (simp add: demo_routes_def getRouteFor_register_def getRouteFor_lookup_def fetchRouteFor_def route_start_def Let_def)

lemma demo_routes_reach: "resolvable ''ipv4:10.0.0.1:9876'' \<Longrightarrow> (route_step iter resolvable)\<^sup>*\<^sup>* route_start demo_routes"
proof -
  assume ns: "resolvable ''ipv4:10.0.0.1:9876''"
  let ?s = "getRouteFor_lookup ''T'' 7 route_start"
  have "rs_callers ?s = [(''T'', 7)]" by (simp add: getRouteFor_lookup_def route_start_def Let_def)
  then have "route_step iter resolvable ?s demo_routes"
    using route_step.register [of 0 ?s "''T''" 7 resolvable "''ipv4:10.0.0.1:9876''" iter] ns by (simp add: demo_routes_def)
  with route_step.lookup [of iter resolvable route_start "''T''" 7] show ?thesis
    by (meson converse_rtranclp_into_rtranclp r_into_rtranclp)
qed

theorem route_callbacks_exactly_once_witness:
  "waiting demo_routes = {#7#} \<and> mset (rs_rpcs demo_routes) = {#''T''#}"
  using route_callbacks_exactly_once [OF demo_routes_reach [where resolvable = "\<lambda>ns. ns \<noteq> ''''" and iter = "\<lambda>_. []"]]
  by (simp add: demo_routes_eval)

text \<open>C40: A query that is never sent blocks its topic for good: when no name server is known at the moment of
  the first query, \<open>fetchRouteFor\<close> neither sends it nor calls back, and from then on, even with a name server,
  the callback stays waiting in every later state and so does every further one for that topic.\<close>

theorem unsent_query_blocks_topic:
  assumes "map_of (rs_table s) topic = None" "map_of (rs_inflight s) topic = None"
    and "topic \<notin> set (rs_rpcs s)" "topic \<notin> fst ` set (rs_ready s)"
    and "(route_step iter resolvable)\<^sup>*\<^sup>* (getRouteFor_register '''' topic cb s) s'"
  shows "(\<exists>cbs. map_of (rs_inflight s') topic = Some cbs \<and> cb \<in> set cbs) \<and> map_of (rs_table s') topic = None \<and>
    (\<exists>cbs. map_of (rs_inflight (getRouteFor_register name_server topic cb' s')) topic = Some cbs \<and> cb' \<in> set cbs)"
proof -
  have "stuck topic cb (getRouteFor_register '''' topic cb s)"
    using assms(1-4) by (simp add: stuck_def getRouteFor_register_def fetchRouteFor_def map_add_def)
  then have st: "stuck topic cb s'" by (rule stuck_steps [OF assms(5)])
  then show ?thesis by (auto simp: stuck_def getRouteFor_register_def update_conv')
qed

theorem unsent_query_blocks_topic_witness:
  "\<exists>cbs. map_of (rs_inflight (getRouteFor_register ''ipv4:10.0.0.1:9876'' ''T'' 8 (getRouteFor_register '''' ''T'' 7 route_start)))
     ''T'' = Some cbs \<and> 8 \<in> set cbs"
  using unsent_query_blocks_topic [of route_start "''T''" "\<lambda>_. []" "\<lambda>_. True" 7, OF _ _ _ _ rtranclp.rtrancl_refl]
  by (simp add: route_start_def)

end
