(* ===== verification/Producer.thy ===== *)
theory Producer
  imports ClientCore
begin

text \<open>
  The producer (rocketmq/ProducerImpl.cpp), its retrying send callback (rocketmq/SendCallbacks.cpp),
  transactions (rocketmq/TransactionImpl.cpp) and the queue-choosing entry points of
  rocketmq/DefaultMQProducer.cpp.  Parameters: \<open>route\<close> is what \<open>getRouteFor\<close> passes to its callback
  (\<open>None\<close>: it never calls back), \<open>deliver k target\<close> what the k-th attempt at \<open>target\<close> reports through
  the completion of \<open>ClientManagerImpl::send\<close> (\<open>None\<close>: nothing), \<open>hash\<close> is \<open>std::hash\<close>.  Tracing spans are in
  the theory Tracing.
\<close>

section \<open>State\<close>

text \<open>\<open>p_which\<close> is the round-robin counter \<open>send_which_queue_\<close> of the thread that chooses the queues.\<close>

record producer =
  p_state :: State
  p_group_name :: string
  p_resource_namespace :: string
  p_client_id :: string
  p_publish_table :: "string \<rightharpoonup> publish_info"
  p_max_attempt_times :: int
  p_isolated :: "string set"
  p_which :: u32

text \<open>\<open>start\<close> also tells whether the producer was registered with the client manager; \<open>None\<close> is the abort of a
  client without a name server resolver.  \<open>shutdown\<close> also gives the termination requests it sends.\<close>

definition producer_start :: "bool \<Rightarrow> producer \<Rightarrow> (producer \<times> bool) option" where
  "producer_start has_resolver p =
     (case client_start has_resolver (p_state p) of
        None \<Rightarrow> None
      | Some st \<Rightarrow>
          (case compare_exchange_strong st STARTING STARTED of (st', ok) \<Rightarrow> Some (p\<lparr>p_state := st'\<rparr>, ok)))"

definition producer_notifyClientTermination :: "producer \<Rightarrow> NotifyClientTerminationRequest" where
  "producer_notifyClientTermination p =
     \<lparr>nctr_group = ProducerGroup \<lparr>t_resource_namespace = p_resource_namespace p, t_name = p_group_name p\<rparr>,
      nctr_client_id = p_client_id p\<rparr>"

definition producer_shutdown ::
  "route_table \<Rightarrow> producer \<Rightarrow> producer \<times> (string \<times> NotifyClientTerminationRequest) set" where
  "producer_shutdown tbl p =
     (case compare_exchange_strong (p_state p) STARTED STOPPING of (st, ok) \<Rightarrow>
        if \<not> ok then (p, {})
        else (p\<lparr>p_state := client_shutdown st\<rparr>,
              (\<lambda>host. (host, producer_notifyClientTermination p)) ` termination_hosts tbl))"

record ProducerHeartbeat =
  phb_client_id :: string
  phb_group :: Topic

definition producer_prepareHeartbeatData :: "producer \<Rightarrow> ProducerHeartbeat" where
  "producer_prepareHeartbeatData p =
     \<lparr>phb_client_id = p_client_id p,
      phb_group = \<lparr>t_resource_namespace = p_resource_namespace p, t_name = p_group_name p\<rparr>\<rparr>"

definition isRunning :: "producer \<Rightarrow> bool" where
  "isRunning p \<longleftrightarrow> p_state p = STARTED"

definition ensureRunning :: "producer \<Rightarrow> ErrorCode \<Rightarrow> ErrorCode" where
  "ensureRunning p ec = (if \<not> isRunning p then IllegalState else ec)"

definition isEndpointIsolated :: "producer \<Rightarrow> string \<Rightarrow> bool" where
  "isEndpointIsolated p target \<longleftrightarrow> target \<in> p_isolated p"

definition isolateEndpoint :: "string \<Rightarrow> producer \<Rightarrow> producer" where
  "isolateEndpoint target p = p\<lparr>p_isolated := insert target (p_isolated p)\<rparr>"

definition isolatedEndpoints :: "producer \<Rightarrow> string set \<Rightarrow> string set" where
  "isolatedEndpoints p endpoints = endpoints \<union> p_isolated p"

section \<open>Publish information\<close>

datatype 'a reply = Reply ErrorCode 'a | NoReply | Crash

definition asyncPublishInfo ::
  "(string \<Rightarrow> route_answer) \<Rightarrow> string \<Rightarrow> producer \<Rightarrow> producer \<times> publish_info option reply" where
  "asyncPublishInfo route topic p =
     (case p_publish_table p topic of
        Some pi \<Rightarrow> (p, Reply Success (Some pi))
      | None \<Rightarrow>
          (case route topic of
             None \<Rightarrow> (p, NoReply)
           | Some (ec, r) \<Rightarrow>
               if ec_bool ec then (p, Reply ec None)
               else (case Option.bind r (TopicPublishInfo_new topic) of
                       None \<Rightarrow> (p, Crash)
                     | Some pi \<Rightarrow> (p\<lparr>p_publish_table := (p_publish_table p)(topic \<mapsto> pi)\<rparr>, Reply Success (Some pi)))))"

text \<open>The error code of the lookup is not passed on.\<close>

definition getPublishInfo ::
  "(string \<Rightarrow> route_answer) \<Rightarrow> string \<Rightarrow> producer \<Rightarrow> producer \<times> publish_info option reply" where
  "getPublishInfo route topic p =
     (case asyncPublishInfo route topic p of
        (p', Reply ec pi) \<Rightarrow> (p', Reply Success pi)
      | (p', r) \<Rightarrow> (p', r))"

definition listMessageQueue ::
  "(string \<Rightarrow> route_answer) \<Rightarrow> string \<Rightarrow> producer \<Rightarrow> producer \<times> MQMessageQueue list reply" where
  "listMessageQueue route topic p =
     (case asyncPublishInfo route topic p of
        (p', Reply ec (Some pi)) \<Rightarrow> (p', Reply ec (if ec_bool ec then [] else getMessageQueueList pi))
      | (p', Reply ec None) \<Rightarrow> (p', if ec_bool ec then Reply ec [] else Crash)
      | (p', NoReply) \<Rightarrow> (p', NoReply)
      | (p', Crash) \<Rightarrow> (p', Crash))"

definition takeMessageQueuesRoundRobin :: "publish_info \<Rightarrow> int \<Rightarrow> producer \<Rightarrow> producer \<times> MQMessageQueue list" where
  "takeMessageQueuesRoundRobin pi number p =
     (case takeMessageQueues (isolatedEndpoints p {}) (word_of_int number) (p_which p) pi [] of
        (which, _, queues) \<Rightarrow> (p\<lparr>p_which := which\<rparr>, queues))"

definition withServiceAddress ::
  "(string \<Rightarrow> route_answer) \<Rightarrow> MQMessageQueue \<Rightarrow> producer \<Rightarrow> producer \<times> MQMessageQueue reply" where
  "withServiceAddress route mq p =
     (if mq_service_address mq \<noteq> '''' then (p, Reply Success mq)
      else if mq_topic mq = '''' \<or> mq_broker_name mq = '''' \<or> mq_queue_id mq < 0 then (p, Reply BadRequest empty_mq)
      else case listMessageQueue route (mq_topic mq) p of
             (p', Reply ec qs) \<Rightarrow>
               if ec_bool ec then (p', Reply ec empty_mq)
               else (case find (\<lambda>item. mq_eq item mq) qs of
                       Some item \<Rightarrow> (p', Reply Success item)
                     | None \<Rightarrow> if qs = [] then (p', Reply NotFound empty_mq) else (p', Reply Success (hd qs)))
           | (p', NoReply) \<Rightarrow> (p', NoReply)
           | (p', Crash) \<Rightarrow> (p', Crash))"

section \<open>Sending with retries\<close>

text \<open>The outcome of a send and the hosts that were contacted, in order.  \<open>Blocked\<close>: the callback is never
  invoked.\<close>

datatype send_outcome = Sent SendResult | Failed ErrorCode | Blocked | Aborted

record retry_callback =
  rc_message :: MQMessage
  rc_attempt_times :: nat
  rc_max_attempt_times :: int
  rc_candidates :: "MQMessageQueue list"

definition rc_messageQueue :: "retry_callback \<Rightarrow> MQMessageQueue" where
  "rc_messageQueue rc = rc_candidates rc ! (rc_attempt_times rc mod length (rc_candidates rc))"

text \<open>\<open>operator=\<close> of \<open>SendResult\<close> copies everything but the trace context.\<close>

definition SendResult_assign :: "SendResult \<Rightarrow> SendResult \<Rightarrow> SendResult" where
  "SendResult_assign this other = other\<lparr>sr_trace_context := sr_trace_context this\<rparr>"

definition retry_onSuccess :: "string \<Rightarrow> retry_callback \<Rightarrow> SendResult \<Rightarrow> SendResult" where
  "retry_onSuccess trace rc r = r\<lparr>sr_message_queue := rc_messageQueue rc, sr_trace_context := trace\<rparr>"

text \<open>What \<open>RetrySendCallback::onFailure\<close> does next: give up, or try again.  \<open>alive\<close> tells whether the producer
  still exists.\<close>

definition retry_onFailure :: "bool \<Rightarrow> retry_callback \<Rightarrow> retry_callback option" where
  "retry_onFailure alive rc =
     (let rc' = rc\<lparr>rc_attempt_times := rc_attempt_times rc + 1\<rparr>
      in if rc_max_attempt_times rc \<le> int (rc_attempt_times rc') then None
         else if \<not> alive then None
         else if rc_candidates rc = [] then None
         else Some rc')"

type_synonym delivery = "nat \<Rightarrow> string \<Rightarrow> (ErrorCode + SendResult) option"

definition attempt_outcome :: "delivery \<Rightarrow> retry_callback \<Rightarrow> (ErrorCode + SendResult) option" where
  "attempt_outcome deliver rc =
     (let target = mq_service_address (rc_messageQueue rc)
      in if target = '''' then Some (Inl BadGateway) else deliver (rc_attempt_times rc) target)"

definition contacted :: "retry_callback \<Rightarrow> string list" where
  "contacted rc =
     (let target = mq_service_address (rc_messageQueue rc) in if target = '''' then [] else [target])"

function sendImpl :: "delivery \<Rightarrow> (nat \<Rightarrow> bool) \<Rightarrow> string \<Rightarrow> retry_callback \<Rightarrow> string list \<times> send_outcome" where
  "sendImpl deliver alive trace rc =
     (case attempt_outcome deliver rc of
        None \<Rightarrow> (contacted rc, Blocked)
      | Some (Inr r) \<Rightarrow> (contacted rc, Sent (retry_onSuccess trace rc r))
      | Some (Inl ec) \<Rightarrow>
          (case retry_onFailure (alive (rc_attempt_times rc)) rc of
             None \<Rightarrow> (contacted rc, Failed ec)
           | Some rc' \<Rightarrow>
               (case sendImpl deliver alive trace rc' of (hosts, out) \<Rightarrow> (contacted rc @ hosts, out))))"
  by pat_completeness auto
termination
  by (relation "measure (\<lambda>(_, _, _, rc). nat (rc_max_attempt_times rc) - rc_attempt_times rc)")
    (auto simp: retry_onFailure_def Let_def split: if_splits)

definition send0 ::
  "(MQMessage \<Rightarrow> bool) \<Rightarrow> delivery \<Rightarrow> (nat \<Rightarrow> bool) \<Rightarrow> string \<Rightarrow> MQMessage \<Rightarrow> MQMessageQueue list \<Rightarrow> int \<Rightarrow> string list \<times> send_outcome" where
  "send0 valid deliver alive trace message queues max_attempt_times =
     (if \<not> valid message then ([], Failed BadRequest)
      else if queues = [] then ([], Failed NotFound)
      else if max_attempt_times \<le> 0 then ([], Failed BadConfiguration)
      else sendImpl deliver alive trace
        \<lparr>rc_message = MQMessage_copy message, rc_attempt_times = 0, rc_max_attempt_times = max_attempt_times,
         rc_candidates = queues\<rparr>)"

section \<open>Choosing the queue\<close>

definition by_group :: "(string \<Rightarrow> u64) \<Rightarrow> string \<Rightarrow> MQMessageQueue list \<Rightarrow> MQMessageQueue" where
  "by_group hash grp qs = qs ! (unat (hash grp) mod length qs)"

definition by_queue :: "MQMessageQueue \<Rightarrow> MQMessageQueue list \<Rightarrow> MQMessageQueue list" where
  "by_queue mq qs = (case find (\<lambda>entry. mq_eq entry mq) qs of Some entry \<Rightarrow> [entry] | None \<Rightarrow> [])"

record send_params =
  sp_hash :: "string \<Rightarrow> u64"
  sp_route :: "string \<Rightarrow> route_answer"
  sp_valid :: "MQMessage \<Rightarrow> bool"
  sp_deliver :: delivery
  sp_alive :: "nat \<Rightarrow> bool"
  sp_trace :: string

definition start_send :: "send_params \<Rightarrow> MQMessage \<Rightarrow> producer \<times> MQMessageQueue list \<Rightarrow> producer \<times> string list \<times> send_outcome" where
  "start_send E m pq =
     (case pq of (p, queues) \<Rightarrow>
        if queues = [] then (p, [], Failed ServiceUnavailable)
        else (p, send0 (sp_valid E) (sp_deliver E) (sp_alive E) (sp_trace E) m queues (p_max_attempt_times p)))"

text \<open>The synchronous \<open>send\<close>.  The awaiting callback keeps a copy of the result.\<close>

definition await_result :: "send_outcome \<Rightarrow> send_outcome" where
  "await_result out =
     (case out of Sent r \<Rightarrow> Sent (SendResult_assign (SendResult_new '''' '''') r) | _ \<Rightarrow> out)"

definition send_sync :: "send_params \<Rightarrow> MQMessage \<Rightarrow> producer \<Rightarrow> producer \<times> string list \<times> send_outcome" where
  "send_sync E m p =
     (if ec_bool (ensureRunning p Success) then (p, [], Failed IllegalState)
      else case getPublishInfo (sp_route E) (m_topic m) p of
        (p1, NoReply) \<Rightarrow> (p1, [], Blocked)
      | (p1, Crash) \<Rightarrow> (p1, [], Aborted)
      | (p1, Reply _ None) \<Rightarrow> (p1, [], Failed NotFound)
      | (p1, Reply _ (Some pi)) \<Rightarrow>
          let chosen =
            (if sys_message_group (m_sys m) \<noteq> '''' \<or> mq_bool (m_message_queue m)
             then case listMessageQueue (sp_route E) (m_topic m) p1 of
                    (p2, Reply ec qs) \<Rightarrow>
                      if ec_bool ec then Inl (p2, Failed ec)
                      else if qs = [] then Inl (p2, Failed ServiceUnavailable)
                      else if sys_message_group (m_sys m) \<noteq> '''' then Inr (p2, [by_group (sp_hash E) (sys_message_group (m_sys m)) qs])
                      else Inr (p2, by_queue (m_message_queue m) qs)
                  | (p2, NoReply) \<Rightarrow> Inl (p2, Blocked)
                  | (p2, Crash) \<Rightarrow> Inl (p2, Aborted)
             else Inr (takeMessageQueuesRoundRobin pi (p_max_attempt_times p1) p1))
          in (case chosen of
                Inl (p2, out) \<Rightarrow> (p2, [], out)
              | Inr pq \<Rightarrow> (case start_send E m pq of (p3, hosts, out) \<Rightarrow> (p3, hosts, await_result out))))"

text \<open>One-way sending is the synchronous \<open>send\<close>, its result dropped.\<close>

definition sendOneway :: "send_params \<Rightarrow> MQMessage \<Rightarrow> producer \<Rightarrow> producer \<times> string list" where
  "sendOneway E m p = (case send_sync E m p of (p', hosts, _) \<Rightarrow> (p', hosts))"

text \<open>The asynchronous \<open>send\<close>: what the callback is told, in order.  It goes on after reporting that the
  producer is not running; the lambda holds a copy of the message; and the choice by group divides by the
  number of queues without looking at it (\<open>Aborted\<close> when it is zero).\<close>

definition send_async :: "send_params \<Rightarrow> MQMessage \<Rightarrow> producer \<Rightarrow> producer \<times> string list \<times> send_outcome list" where
  "send_async E message p =
     (let m = MQMessage_copy message;
          first = (if ec_bool (ensureRunning p Success) then [Failed IllegalState] else [])
      in case asyncPublishInfo (sp_route E) (m_topic message) p of
           (p1, NoReply) \<Rightarrow> (p1, [], first @ [Blocked])
         | (p1, Crash) \<Rightarrow> (p1, [], first @ [Aborted])
         | (p1, Reply ec None) \<Rightarrow> (p1, [], first @ [if ec_bool ec then Failed ec else Aborted])
         | (p1, Reply ec (Some pi)) \<Rightarrow>
             if ec_bool ec then (p1, [], first @ [Failed ec])
             else let qs = getMessageQueueList pi; grp = sys_message_group (m_sys m)
             in if grp \<noteq> '''' \<and> qs = [] then (p1, [], first @ [Aborted])
                else case start_send E m
                       (if grp \<noteq> '''' then (p1, [by_group (sp_hash E) grp qs])
                        else if mq_bool (m_message_queue m) then (p1, by_queue (m_message_queue m) qs)
                        else takeMessageQueuesRoundRobin pi (p_max_attempt_times p1) p1) of
                       (p2, hosts, out) \<Rightarrow> (p2, hosts, first @ [out]))"

section \<open>Transactions\<close>

datatype TransactionState = COMMIT | ROLLBACK

record EndTransactionRequest =
  etr_message_id :: string
  etr_transaction_id :: string
  etr_group :: Topic
  etr_resolution :: TransactionState

definition wrapEndTransactionRequest :: "producer \<Rightarrow> MQMessage \<Rightarrow> string \<Rightarrow> TransactionState \<Rightarrow> EndTransactionRequest" where
  "wrapEndTransactionRequest p m transaction_id resolution =
     \<lparr>etr_message_id = sys_message_id (m_sys m), etr_transaction_id = transaction_id,
      etr_group = \<lparr>t_resource_namespace = p_resource_namespace p, t_name = p_group_name p\<rparr>,
      etr_resolution = resolution\<rparr>"

text \<open>How the call ends: the error code given to its callback, if any, and whether the callback signals before
  the caller waits.  The wait has no predicate, so an early signal is lost (\<open>None\<close>: it does not return).\<close>

record completion =
  cp_error :: "ErrorCode option"
  cp_early :: bool

definition endTransaction0 ::
  "completion \<Rightarrow> producer \<Rightarrow> string \<Rightarrow> MQMessage \<Rightarrow> string \<Rightarrow> TransactionState \<Rightarrow>
   (string \<times> EndTransactionRequest) list \<times> bool option" where
  "endTransaction0 c p target m transaction_id resolution =
     ([(target, wrapEndTransactionRequest p m transaction_id resolution)],
      if cp_early c then None else map_option (\<lambda>ec. \<not> ec_bool ec) (cp_error c))"

record transaction =
  tx_message :: MQMessage
  tx_transaction_id :: string
  tx_endpoint :: string
  tx_trace_context :: string

definition prepare :: "send_params \<Rightarrow> MQMessage \<Rightarrow> producer \<Rightarrow> producer \<times> (send_outcome + transaction)" where
  "prepare E message p =
     (let m = setMessageType TRANSACTION message
      in case send_sync E m p of
           (p', _, Sent r) \<Rightarrow>
             (p', Inr \<lparr>tx_message = MQMessage_copy m, tx_transaction_id = sr_transaction_id r,
                       tx_endpoint = mq_service_address (sr_message_queue r), tx_trace_context = sr_trace_context r\<rparr>)
         | (p', _, out) \<Rightarrow> (p', Inl out))"

text \<open>\<open>commit\<close> and \<open>rollback\<close> of a transaction: the requests sent and the result.  \<open>None\<close> for the producer: it is gone.\<close>

definition tx_commit :: "completion \<Rightarrow> producer option \<Rightarrow> transaction \<Rightarrow> (string \<times> EndTransactionRequest) list \<times> bool option" where
  "tx_commit c producer tx =
     (case producer of
        None \<Rightarrow> ([], Some False)
      | Some p \<Rightarrow> endTransaction0 c p (tx_endpoint tx) (tx_message tx) (tx_transaction_id tx) COMMIT)"

definition tx_rollback :: "completion \<Rightarrow> producer option \<Rightarrow> transaction \<Rightarrow> (string \<times> EndTransactionRequest) list \<times> bool option" where
  "tx_rollback c producer tx =
     (case producer of
        None \<Rightarrow> ([], Some False)
      | Some p \<Rightarrow> endTransaction0 c p (tx_endpoint tx) (tx_message tx) (tx_transaction_id tx) ROLLBACK)"

definition resolveOrphanedTransactionalMessage ::
  "completion \<Rightarrow> (MQMessage \<Rightarrow> TransactionState) option \<Rightarrow> producer \<Rightarrow> string \<Rightarrow> MQMessage \<Rightarrow>
   (string \<times> EndTransactionRequest) list \<times> bool option" where
  "resolveOrphanedTransactionalMessage c checker p transaction_id m =
     (case checker of
        None \<Rightarrow> ([], Some False)
      | Some check \<Rightarrow> endTransaction0 c p (sys_target_endpoint (m_sys m)) m transaction_id (check m))"

section \<open>Entry points of DefaultMQProducer\<close>

definition send_with_group :: "send_params \<Rightarrow> MQMessage \<Rightarrow> string \<Rightarrow> producer \<Rightarrow> producer \<times> string list \<times> send_outcome" where
  "send_with_group E m grp p = send_sync E (bindMessageGroup grp m) p"

definition send_to_queue :: "send_params \<Rightarrow> MQMessage \<Rightarrow> MQMessageQueue \<Rightarrow> producer \<Rightarrow> producer \<times> string list \<times> send_outcome" where
  "send_to_queue E m mq p = send_sync E (bindMessageQueue mq m) p"

definition send_to_queue_async ::
  "send_params \<Rightarrow> MQMessage \<Rightarrow> MQMessageQueue \<Rightarrow> producer \<Rightarrow> producer \<times> string list \<times> send_outcome list" where
  "send_to_queue_async E m mq p = send_async E (bindMessageQueue mq m) p"

definition MessageGroupQueueSelector_select :: "(string \<Rightarrow> u64) \<Rightarrow> string \<Rightarrow> MQMessageQueue list \<Rightarrow> MQMessageQueue option" where
  "MessageGroupQueueSelector_select hash grp mqs = (if mqs = [] then None else Some (by_group hash grp mqs))"
text \<open>Sending with a selector (\<open>None\<close>: the selector fails).  The asynchronous variant reports an error or an empty
  list and goes on.\<close>

definition send_with_selector ::
  "send_params \<Rightarrow> (MQMessageQueue list \<Rightarrow> MQMessage \<Rightarrow> MQMessageQueue option) \<Rightarrow> MQMessage \<Rightarrow> producer \<Rightarrow>
   producer \<times> string list \<times> send_outcome" where
  "send_with_selector E select m p =
     (case listMessageQueue (sp_route E) (m_topic m) p of
        (p1, Reply ec qs) \<Rightarrow>
          if ec_bool ec then (p1, [], Failed ec)
          else (case select qs m of None \<Rightarrow> (p1, [], Aborted) | Some mq \<Rightarrow> send_to_queue E m mq p1)
      | (p1, NoReply) \<Rightarrow> (p1, [], Blocked)
      | (p1, Crash) \<Rightarrow> (p1, [], Aborted))"

definition send_with_selector_async ::
  "send_params \<Rightarrow> (MQMessageQueue list \<Rightarrow> MQMessage \<Rightarrow> MQMessageQueue option) \<Rightarrow> MQMessage \<Rightarrow> producer \<Rightarrow>
   producer \<times> string list \<times> send_outcome list" where
  "send_with_selector_async E select m p =
     (case listMessageQueue (sp_route E) (m_topic m) p of
        (p1, Reply ec qs) \<Rightarrow>
          let told = (if ec_bool ec then [Failed ec] else []) @ (if qs = [] then [Failed ServiceUnavailable] else [])
          in (case select qs m of
                None \<Rightarrow> (p1, [], told @ [Aborted])
              | Some mq \<Rightarrow> (case send_to_queue_async E m mq p1 of (p2, hosts, outs) \<Rightarrow> (p2, hosts, told @ outs)))
      | (p1, NoReply) \<Rightarrow> (p1, [], [Blocked])
      | (p1, Crash) \<Rightarrow> (p1, [], [Aborted]))"

definition sendOneway_to_queue :: "send_params \<Rightarrow> MQMessage \<Rightarrow> MQMessageQueue \<Rightarrow> producer \<Rightarrow> producer \<times> string list" where
  "sendOneway_to_queue E m mq p = sendOneway E (bindMessageQueue mq m) p"

definition sendOneway_with_selector ::
  "send_params \<Rightarrow> (MQMessageQueue list \<Rightarrow> MQMessage \<Rightarrow> MQMessageQueue option) \<Rightarrow> MQMessage \<Rightarrow> producer \<Rightarrow>
   producer \<times> string list \<times> send_outcome option" where
  "sendOneway_with_selector E select m p =
     (case listMessageQueue (sp_route E) (m_topic m) p of
        (p1, Reply ec qs) \<Rightarrow>
          if ec_bool ec then (p1, [], Some (Failed ec))
          else if qs = [] then (p1, [], Some (Failed ServiceUnavailable))
          else (case select qs m of
                  None \<Rightarrow> (p1, [], Some Aborted)
                | Some mq \<Rightarrow> (case sendOneway_to_queue E m mq p1 of (p2, hosts) \<Rightarrow> (p2, hosts, None)))
      | (p1, NoReply) \<Rightarrow> (p1, [], Some Blocked)
      | (p1, Crash) \<Rightarrow> (p1, [], Some Aborted))"

section \<open>Reference definition of the retries\<close>

text \<open>Attempt \<open>k\<close> goes to candidate \<open>k\<close> modulo their number; the first attempt that does not fail decides, and the
  last one when all fail.\<close>

definition attempt :: "delivery \<Rightarrow> MQMessageQueue list \<Rightarrow> nat \<Rightarrow> (ErrorCode + SendResult) option" where
  "attempt deliver qs k =
     (let target = mq_service_address (qs ! (k mod length qs))
      in if target = '''' then Some (Inl BadGateway) else deliver k target)"

definition attempt_hosts :: "MQMessageQueue list \<Rightarrow> nat list \<Rightarrow> string list" where
  "attempt_hosts qs ks = filter (\<lambda>h. h \<noteq> '''') (map (\<lambda>k. mq_service_address (qs ! (k mod length qs))) ks)"

fun fails :: "(ErrorCode + SendResult) option \<Rightarrow> bool" where
  "fails (Some (Inl _)) = True"
| "fails _ = False"

definition settle :: "string \<Rightarrow> MQMessageQueue \<Rightarrow> (ErrorCode + SendResult) option \<Rightarrow> send_outcome" where
  "settle trace mq a =
     (case a of None \<Rightarrow> Blocked | Some (Inl ec) \<Rightarrow> Failed ec
      | Some (Inr r) \<Rightarrow> Sent (r\<lparr>sr_message_queue := mq, sr_trace_context := trace\<rparr>))"

definition decisive :: "delivery \<Rightarrow> MQMessageQueue list \<Rightarrow> nat \<Rightarrow> nat \<Rightarrow> nat" where
  "decisive deliver qs from n =
     (case find (\<lambda>k. \<not> fails (attempt deliver qs k)) [from..<n] of Some k \<Rightarrow> k | None \<Rightarrow> n - 1)"

definition retry_reference :: "delivery \<Rightarrow> string \<Rightarrow> MQMessageQueue list \<Rightarrow> nat \<Rightarrow> nat \<Rightarrow> string list \<times> send_outcome" where
  "retry_reference deliver trace qs from n =
     (let k = decisive deliver qs from n
      in (attempt_hosts qs [from..<Suc k], settle trace (qs ! (k mod length qs)) (attempt deliver qs k)))"

section \<open>Lemmas\<close>

declare sendImpl.simps [simp del]

lemmas retry_defs = attempt_outcome_def contacted_def rc_messageQueue_def retry_onFailure_def retry_onSuccess_def
  attempt_def Let_def

lemma attempt_hosts_Cons:
  "attempt_hosts qs (k # ks) =
     (let h = mq_service_address (qs ! (k mod length qs)) in if h = '''' then [] else [h]) @ attempt_hosts qs ks"
  by (simp add: attempt_hosts_def Let_def)

lemma attempt_hosts_Nil [simp]: "attempt_hosts qs [] = []"
  by (simp add: attempt_hosts_def)

lemma sendImpl_last:
  assumes "fails (attempt deliver qs k) \<Longrightarrow> Suc k = n"
  shows "sendImpl deliver (\<lambda>_. True) trace
      \<lparr>rc_message = m, rc_attempt_times = k, rc_max_attempt_times = int n, rc_candidates = qs\<rparr> =
    (attempt_hosts qs [k], settle trace (qs ! (k mod length qs)) (attempt deliver qs k))"
  using assms
  by (subst sendImpl.simps)
    (auto simp: retry_defs settle_def attempt_hosts_Cons split: option.splits sum.splits if_splits)

lemma sendImpl_again:
  assumes "fails (attempt deliver qs k)" "Suc k < n" "qs \<noteq> []"
  shows "sendImpl deliver (\<lambda>_. True) trace
      \<lparr>rc_message = m, rc_attempt_times = k, rc_max_attempt_times = int n, rc_candidates = qs\<rparr> =
    (case sendImpl deliver (\<lambda>_. True) trace
        \<lparr>rc_message = m, rc_attempt_times = Suc k, rc_max_attempt_times = int n, rc_candidates = qs\<rparr> of
      (hosts, out) \<Rightarrow> (attempt_hosts qs [k] @ hosts, out))"
  using assms
  by (subst sendImpl.simps)
    (auto simp: retry_defs attempt_hosts_Cons split: option.splits sum.splits if_splits)

lemma decisive_bounds: "from < n \<Longrightarrow> from \<le> decisive deliver qs from n \<and> decisive deliver qs from n < n"
  by (auto simp: decisive_def find_Some_iff split: option.split)

lemma decisive_step:
  "k < n \<Longrightarrow> decisive deliver qs k n =
     (if fails (attempt deliver qs k) \<and> Suc k < n then decisive deliver qs (Suc k) n else k)"
  by (auto simp: decisive_def upt_conv_Cons)

lemma sendImpl_reference:
  assumes "qs \<noteq> []" "k < n"
  shows "sendImpl deliver (\<lambda>_. True) trace
      \<lparr>rc_message = m, rc_attempt_times = k, rc_max_attempt_times = int n, rc_candidates = qs\<rparr> =
    retry_reference deliver trace qs k n"
  using assms(2)
proof (induction "n - k" arbitrary: k)
  case (Suc d)
  show ?case
  proof (cases "fails (attempt deliver qs k) \<and> Suc k < n")
    case True
    let ?j = "decisive deliver qs (Suc k) n"
    from True have "Suc k \<le> ?j" by (simp add: decisive_bounds)
    then have "[k..<Suc ?j] = k # [Suc k..<Suc ?j]" by (simp add: upt_conv_Cons del: upt_Suc)
    with True Suc assms(1) show ?thesis
      by (simp add: sendImpl_again retry_reference_def decisive_step [of k] Let_def
          attempt_hosts_Cons [of _ k "[Suc k..<Suc ?j]"] attempt_hosts_Cons [of _ k "[]"] del: upt_Suc)
  next
    case False
    with Suc.prems have last: "fails (attempt deliver qs k) \<Longrightarrow> Suc k = n" by linarith
    from False Suc.prems have "decisive deliver qs k n = k" by (simp only: decisive_step if_False)
    then show ?thesis by (simp add: sendImpl_last [OF last] retry_reference_def)
  qed
qed simp

lemma send0_retries:
  assumes "valid m" "qs \<noteq> []" "0 < n"
  shows "send0 valid deliver (\<lambda>_. True) trace m qs (int n) = retry_reference deliver trace qs 0 n"
  using assms by (simp add: send0_def sendImpl_reference)

text \<open>Where a send goes, whatever happens to the producer meanwhile.\<close>

lemma sendImpl_hosts:
  assumes "rc_candidates rc \<noteq> []"
  shows "set (fst (sendImpl deliver alive trace rc)) \<subseteq> mq_service_address ` set (rc_candidates rc)"
  using assms
proof (induction deliver alive trace rc rule: sendImpl.induct)
  case (1 deliver alive trace rc)
  have here: "set (contacted rc) \<subseteq> mq_service_address ` set (rc_candidates rc)"
    using "1.prems" by (auto simp: contacted_def rc_messageQueue_def Let_def)
  show ?case
  proof (cases "attempt_outcome deliver rc")
    case None
    with here show ?thesis by (subst sendImpl.simps) simp
  next
    case (Some a)
    show ?thesis
    proof (cases a)
      case (Inr r)
      with here Some show ?thesis by (subst sendImpl.simps) simp
    next
      case (Inl ec)
      show ?thesis
      proof (cases "retry_onFailure (alive (rc_attempt_times rc)) rc")
        case None
        with here Some Inl show ?thesis by (subst sendImpl.simps) simp
      next
        case (Some rc')
        then have "rc_candidates rc' = rc_candidates rc" by (auto simp: retry_onFailure_def Let_def split: if_splits)
        with "1.IH" [OF \<open>attempt_outcome deliver rc = Some a\<close> Inl Some] "1.prems"
        have "set (fst (sendImpl deliver alive trace rc')) \<subseteq> mq_service_address ` set (rc_candidates rc)" by simp
        with here Some Inl \<open>attempt_outcome deliver rc = Some a\<close> show ?thesis
          by (subst sendImpl.simps) (auto split: prod.split)
      qed
    qed
  qed
qed

text \<open>A successful send ended at the host it contacted last, and reports a queue of that host.\<close>

lemma sendImpl_Sent:
  assumes "sendImpl deliver alive trace rc = (hosts, Sent r)" "rc_candidates rc \<noteq> []"
  shows "hosts \<noteq> [] \<and> last hosts = mq_service_address (sr_message_queue r) \<and>
    sr_message_queue r \<in> set (rc_candidates rc) \<and> sr_trace_context r = trace"
  using assms
proof (induction deliver alive trace rc arbitrary: hosts rule: sendImpl.induct)
  case (1 deliver alive trace rc)
  note run = "1.prems"(1) [unfolded sendImpl.simps [of deliver alive trace rc]]
  show ?case
  proof (cases "attempt_outcome deliver rc")
    case None
    with run show ?thesis by simp
  next
    case (Some a)
    show ?thesis
    proof (cases a)
      case (Inr x)
      with Some run "1.prems"(2) show ?thesis
        by (auto simp: attempt_outcome_def contacted_def retry_onSuccess_def rc_messageQueue_def Let_def split: if_splits)
    next
      case (Inl ec)
      show ?thesis
      proof (cases "retry_onFailure (alive (rc_attempt_times rc)) rc")
        case None
        with Some Inl run show ?thesis by simp
      next
        case (Some rc')
        then have cand: "rc_candidates rc' = rc_candidates rc" by (auto simp: retry_onFailure_def Let_def split: if_splits)
        from run Some Inl \<open>attempt_outcome deliver rc = Some a\<close> obtain hosts'
          where rest: "sendImpl deliver alive trace rc' = (hosts', Sent r)" and "hosts = contacted rc @ hosts'"
          by (auto split: prod.splits)
        with "1.IH" [OF \<open>attempt_outcome deliver rc = Some a\<close> Inl Some rest] "1.prems"(2) cand show ?thesis by simp
      qed
    qed
  qed
qed

lemma send0_hosts: "set (fst (send0 valid deliver alive trace m qs n)) \<subseteq> mq_service_address ` set qs"
  using sendImpl_hosts [of "\<lparr>rc_message = MQMessage_copy m, rc_attempt_times = 0, rc_max_attempt_times = n, rc_candidates = qs\<rparr>"
      deliver alive trace]
  by (simp add: send0_def)

lemma send0_Sent:
  assumes "send0 valid deliver alive trace m qs n = (hosts, Sent r)"
  shows "hosts \<noteq> [] \<and> last hosts = mq_service_address (sr_message_queue r) \<and> sr_message_queue r \<in> set qs"
  using assms sendImpl_Sent [of deliver alive trace
      "\<lparr>rc_message = MQMessage_copy m, rc_attempt_times = 0, rc_max_attempt_times = n, rc_candidates = qs\<rparr>" hosts r]
  by (simp add: send0_def split: if_splits)


lemma send0_single:
  assumes "send0 valid deliver alive trace m [mq] n = (hosts, out)"
  shows "set hosts \<subseteq> {mq_service_address mq} \<and> (\<forall>r. out = Sent r \<longrightarrow> sr_message_queue r = mq)"
  using send0_hosts [of valid deliver alive trace m "[mq]" n] send0_Sent [of valid deliver alive trace m "[mq]" n hosts] assms
  by auto

definition cached :: "producer \<Rightarrow> string \<Rightarrow> publish_info \<Rightarrow> bool" where
  "cached p topic pi \<longleftrightarrow> p_state p = STARTED \<and> p_publish_table p topic = Some pi"

lemma asyncPublishInfo_cached:
  "p_publish_table p topic = Some pi \<Longrightarrow> asyncPublishInfo route topic p = (p, Reply Success (Some pi))"
  by (simp add: asyncPublishInfo_def)

lemmas cached_simps = cached_def ensureRunning_def isRunning_def getPublishInfo_def listMessageQueue_def
  asyncPublishInfo_cached start_send_def

text \<open>The table of publish infos only grows: an entry is never replaced by a newer route.\<close>

lemma publish_table_sticky:
  assumes "p_publish_table p topic = Some pi"
  shows "p_publish_table (fst (asyncPublishInfo route t p)) topic = Some pi"
  using assms by (auto simp: asyncPublishInfo_def split: option.split)

lemma send_sync_group:
  assumes "cached p (m_topic m) pi" "getMessageQueueList pi \<noteq> []" "sys_message_group (m_sys m) \<noteq> ''''"
  shows "send_sync E m p =
    (case send0 (sp_valid E) (sp_deliver E) (sp_alive E) (sp_trace E) m
        [by_group (sp_hash E) (sys_message_group (m_sys m)) (getMessageQueueList pi)] (p_max_attempt_times p) of
      (hosts, out) \<Rightarrow> (p, hosts, await_result out))"
  using assms by (simp add: send_sync_def cached_simps)

lemma send_async_group:
  assumes "cached p (m_topic m) pi" "getMessageQueueList pi \<noteq> []" "sys_message_group (m_sys m) \<noteq> ''''"
  shows "send_async E m p =
    (case send0 (sp_valid E) (sp_deliver E) (sp_alive E) (sp_trace E) (MQMessage_copy m)
        [by_group (sp_hash E) (sys_message_group (m_sys m)) (getMessageQueueList pi)] (p_max_attempt_times p) of
      (hosts, out) \<Rightarrow> (p, hosts, [out]))"
  using assms by (simp add: send_async_def cached_simps MQMessage_copy_def Let_def)

lemma send_sync_bound:
  assumes "cached p (m_topic m) pi" "sys_message_group (m_sys m) = ''''" "mq_bool (m_message_queue m)"
    and "find (\<lambda>e. mq_eq e (m_message_queue m)) (getMessageQueueList pi) = Some entry"
  shows "send_sync E m p =
    (case send0 (sp_valid E) (sp_deliver E) (sp_alive E) (sp_trace E) m [entry] (p_max_attempt_times p) of
      (hosts, out) \<Rightarrow> (p, hosts, await_result out))"
proof -
  from assms(4) have "getMessageQueueList pi \<noteq> []" by auto
  with assms show ?thesis by (simp add: send_sync_def cached_simps by_queue_def)
qed

lemma await_result_Sent:
  "await_result out = Sent r \<longleftrightarrow> (\<exists>r'. out = Sent r' \<and> r = r'\<lparr>sr_trace_context := ''''\<rparr>)"
  by (cases out) (auto simp: await_result_def SendResult_assign_def SendResult_new_def)

lemma start_send_Sent:
  assumes "start_send E m pq = (p', hosts, Sent r)"
  shows "hosts \<noteq> [] \<and> last hosts = mq_service_address (sr_message_queue r)"
  using assms by (auto simp: start_send_def split: prod.splits if_splits dest: send0_Sent)

lemma send_sync_Sent:
  assumes "send_sync E m p = (p', hosts, Sent r)"
  shows "hosts \<noteq> [] \<and> last hosts = mq_service_address (sr_message_queue r) \<and> sr_trace_context r = ''''"
  using assms
  by (auto simp: send_sync_def Let_def await_result_Sent dest: start_send_Sent
      split: prod.splits reply.splits option.splits sum.splits if_splits)


section \<open>Properties\<close>

definition demo_target :: "string \<Rightarrow> MQMessageQueue" where
  "demo_target host = (MQMessageQueue_new ''T'' host 0)\<lparr>mq_service_address := host\<rparr>"

definition demo_delivery :: delivery where
  "demo_delivery k host = (if k < 2 then Some (Inl NotImplemented) else Some (Inr (SendResult_new ''id'' ''tx'')))"

definition demo_send :: send_params where
  "demo_send = \<lparr>sp_hash = (\<lambda>s. of_nat (length s)), sp_route = (\<lambda>_. None), sp_valid = (\<lambda>_. True), sp_deliver = demo_delivery,
     sp_alive = (\<lambda>_. True), sp_trace = ''trace''\<rparr>"

definition demo_producer :: producer where
  "demo_producer = \<lparr>p_state = STARTED, p_group_name = ''g'', p_resource_namespace = ''ns'', p_client_id = ''c'',
     p_publish_table = [''T'' \<mapsto> sample_info], p_max_attempt_times = 3, p_isolated = {}, p_which = 0\<rparr>"

definition demo_order :: MQMessage where
  "demo_order = bindMessageGroup ''order'' (MQMessage_new None 0 ''host'' ''id'' ''T'' '''' '''' ''body'')"

lemma sample_queues: "getMessageQueueList sample_info \<noteq> []"
  by code_simp

text \<open>C4: A valid message is sent to candidate \<open>k mod length\<close> in attempt \<open>k\<close>.  The first attempt that does not fail
  decides the outcome and no further host is contacted; when all \<open>n\<close> attempts fail the last error is reported.  So
  retrying always ends, after at most \<open>n\<close> attempts.\<close>

theorem send0_reference:
  assumes "valid m" "qs \<noteq> []" "0 < n"
  shows "send0 valid deliver (\<lambda>_. True) trace m qs (int n) =
    (let ok = (\<lambda>k. \<not> fails (attempt deliver qs k));
         k = (case find ok [0..<n] of Some k \<Rightarrow> k | None \<Rightarrow> n - 1)
     in (attempt_hosts qs [0..<Suc k], settle trace (qs ! (k mod length qs)) (attempt deliver qs k)))"
  using assms by (simp add: send0_retries retry_reference_def decisive_def Let_def)

theorem send0_reference_witness:
  "fst (send0 (\<lambda>_. True) demo_delivery (\<lambda>_. True) ''trace'' demo_order [demo_target ''a'', demo_target ''b''] (int 3)) =
    [''a'', ''b'', ''a'']"
proof -
  let ?qs = "[demo_target ''a'', demo_target ''b'']"
  have upto3: "[0..<3 :: nat] = [0, 1, 2]" "[0..<Suc 2] = [0, 1, 2]" by code_simp+
  have "find (\<lambda>k. \<not> fails (attempt demo_delivery ?qs k)) [0, 1, 2] = Some 2"
    by code_simp
  moreover have "attempt_hosts ?qs [0, 1, 2] = [''a'', ''b'', ''a'']"
    by code_simp
  ultimately show ?thesis by (subst send0_reference) (simp_all add: Let_def upto3 del: upt_Suc)
qed

text \<open>C18: Messages of one group keep to one queue: with the route known, every attempt of the synchronous and of the
  asynchronous send goes to the queue the group hashes to, retries included, a reported queue is that one, and the
  producer is left as it was, so the next message of the group goes there too.\<close>

theorem group_affinity:
  assumes "cached p (m_topic m) pi" "getMessageQueueList pi \<noteq> []" "sys_message_group (m_sys m) \<noteq> ''''"
    and "mq = by_group (sp_hash E) (sys_message_group (m_sys m)) (getMessageQueueList pi)"
  shows "(case send_sync E m p of (p', hosts, out) \<Rightarrow>
      p' = p \<and> set hosts \<subseteq> {mq_service_address mq} \<and> (\<forall>r. out = Sent r \<longrightarrow> sr_message_queue r = mq)) \<and>
    (case send_async E m p of (p', hosts, outs) \<Rightarrow>
      p' = p \<and> set hosts \<subseteq> {mq_service_address mq} \<and> (\<forall>r. Sent r \<in> set outs \<longrightarrow> sr_message_queue r = mq))"
proof -
  obtain h1 o1 where s: "send0 (sp_valid E) (sp_deliver E) (sp_alive E) (sp_trace E) m [mq] (p_max_attempt_times p) = (h1, o1)"
    by (rule prod.exhaust)
  obtain h2 o2 where a: "send0 (sp_valid E) (sp_deliver E) (sp_alive E) (sp_trace E) (MQMessage_copy m) [mq] (p_max_attempt_times p) = (h2, o2)"
    by (rule prod.exhaust)
  from send0_single [OF s] send0_single [OF a] show ?thesis
    unfolding send_sync_group [OF assms(1-3)] send_async_group [OF assms(1-3)] assms(4) [symmetric] s a
    by (auto simp: await_result_Sent)
qed

theorem group_affinity_witness:
  "set (fst (snd (send_sync demo_send demo_order demo_producer))) \<subseteq> {''ipv4:b:80''} \<and>
   fst (snd (send_sync demo_send demo_order demo_producer)) = replicate 3 ''ipv4:b:80''"
proof -
  have "by_group (sp_hash demo_send) (sys_message_group (m_sys demo_order)) (getMessageQueueList sample_info) =
      asMessageQueue (sample_partition ''b'' 0)" by code_simp
  moreover have "mq_service_address (asMessageQueue (sample_partition ''b'' 0)) = ''ipv4:b:80''" by code_simp
  moreover have "cached demo_producer (m_topic demo_order) sample_info"
    by (simp add: cached_def demo_producer_def demo_order_def bindMessageGroup_def setMessageType_def MQMessage_new_def)
  moreover have "getMessageQueueList sample_info \<noteq> []" "sys_message_group (m_sys demo_order) \<noteq> ''''" by code_simp+
  ultimately have "set (fst (snd (send_sync demo_send demo_order demo_producer))) \<subseteq> {''ipv4:b:80''}"
    using group_affinity [of demo_producer demo_order sample_info _ demo_send] by (simp split: prod.splits)
  moreover have "fst (snd (send_sync demo_send demo_order demo_producer)) = replicate 3 ''ipv4:b:80''" by code_simp
  ultimately show ?thesis by simp
qed

text \<open>A queue bound to the message holds for the synchronous send only.  There every attempt goes to the entry of
  the route with that topic, broker and queue id.  The asynchronous send works on a copy of the message, and the copy
  has no queue: it does the same for every bound queue as for none.\<close>

theorem bound_queue_sync_only:
  assumes "cached p (m_topic m) pi" "sys_message_group (m_sys m) = ''''" "mq_bool mq"
    and "find (\<lambda>e. mq_eq e mq) (getMessageQueueList pi) = Some entry"
  shows "set (fst (snd (send_to_queue E m mq p))) \<subseteq> {mq_service_address entry} \<and>
    send_to_queue_async E m mq p = send_async E m p"
proof
  have "send_to_queue E m mq p =
      (case send0 (sp_valid E) (sp_deliver E) (sp_alive E) (sp_trace E) (bindMessageQueue mq m) [entry] (p_max_attempt_times p) of
        (hosts, out) \<Rightarrow> (p, hosts, await_result out))"
    unfolding send_to_queue_def using assms by (intro send_sync_bound) (simp_all add: bindMessageQueue_def)
  then show "set (fst (snd (send_to_queue E m mq p))) \<subseteq> {mq_service_address entry}"
    by (auto dest: send0_single split: prod.splits)
  show "send_to_queue_async E m mq p = send_async E m p"
    by (simp add: send_to_queue_async_def send_async_def bindMessageQueue_def MQMessage_copy_def)
qed

definition demo_plain :: MQMessage where
  "demo_plain = MQMessage_new None 0 ''host'' ''id'' ''T'' '''' '''' ''body''"

theorem bound_queue_sync_only_witness:
  "set (fst (snd (send_to_queue demo_send demo_plain (demo_target ''b'') demo_producer))) \<subseteq> {''ipv4:b:80''} \<and>
   fst (snd (send_to_queue demo_send demo_plain (demo_target ''b'') demo_producer)) = replicate 3 ''ipv4:b:80'' \<and>
   ''ipv4:a:80'' \<in> set (fst (snd (send_to_queue_async demo_send demo_plain (demo_target ''b'') demo_producer)))"
proof -
  have "find (\<lambda>e. mq_eq e (demo_target ''b'')) (getMessageQueueList sample_info) = Some (asMessageQueue (sample_partition ''b'' 0))"
    by code_simp
  moreover have "mq_service_address (asMessageQueue (sample_partition ''b'' 0)) = ''ipv4:b:80''" by code_simp
  moreover have "cached demo_producer (m_topic demo_plain) sample_info"
    by (simp add: cached_def demo_producer_def demo_plain_def MQMessage_new_def)
  moreover have "mq_bool (demo_target ''b'')" "sys_message_group (m_sys demo_plain) = ''''" by code_simp+
  moreover have "fst (snd (send_to_queue demo_send demo_plain (demo_target ''b'') demo_producer)) = replicate 3 ''ipv4:b:80''"
    by code_simp
  moreover have "''ipv4:a:80'' \<in> set (fst (snd (send_async demo_send demo_plain demo_producer)))" by code_simp
  ultimately show ?thesis
    using bound_queue_sync_only [of demo_producer demo_plain sample_info "demo_target ''b''"
        "asMessageQueue (sample_partition ''b'' 0)" demo_send] by simp
qed

text \<open>C19: A prepared transaction is committed and rolled back at the host that was contacted last, the one that
  accepted the message, under the transaction id it returned and the producer's group; the trace context of the
  send is lost on the way.\<close>

theorem transaction_at_acceptor:
  assumes "prepare E m p = (p', Inr tx)"
  shows "\<exists>hosts r. send_sync E (setMessageType TRANSACTION m) p = (p', hosts, Sent r) \<and> hosts \<noteq> [] \<and>
    tx_trace_context tx = '''' \<and>
    (\<forall>c. fst (tx_commit c (Some p') tx) =
       [(last hosts, wrapEndTransactionRequest p' m (sr_transaction_id r) COMMIT)]) \<and>
    (\<forall>c. fst (tx_rollback c (Some p') tx) =
       [(last hosts, wrapEndTransactionRequest p' m (sr_transaction_id r) ROLLBACK)])"
proof -
  from assms obtain hosts r where s: "send_sync E (setMessageType TRANSACTION m) p = (p', hosts, Sent r)"
    and tx: "tx = \<lparr>tx_message = MQMessage_copy (setMessageType TRANSACTION m), tx_transaction_id = sr_transaction_id r,
      tx_endpoint = mq_service_address (sr_message_queue r), tx_trace_context = sr_trace_context r\<rparr>"
    by (auto simp: prepare_def Let_def split: prod.splits send_outcome.splits)
  from send_sync_Sent [OF s] have "hosts \<noteq> []" "last hosts = mq_service_address (sr_message_queue r)" "sr_trace_context r = ''''"
    by simp_all
  with s show ?thesis
    by (intro exI [of _ hosts] exI [of _ r])
      (simp add: tx tx_commit_def tx_rollback_def endTransaction0_def wrapEndTransactionRequest_def MQMessage_copy_def setMessageType_def)
qed

theorem transaction_at_acceptor_witness:
  "\<exists>hosts r tx. snd (send_sync demo_send (setMessageType TRANSACTION demo_order) demo_producer) = (hosts, Sent r) \<and>
     snd (prepare demo_send demo_order demo_producer) = Inr tx \<and>
     fst (tx_commit \<lparr>cp_error = Some Success, cp_early = False\<rparr> (Some demo_producer) tx) =
       [(''ipv4:b:80'', wrapEndTransactionRequest demo_producer demo_order ''tx'' COMMIT)]"
proof -
  let ?s = "send_sync demo_send (setMessageType TRANSACTION demo_order) demo_producer"
  have out: "(case snd (snd ?s) of Sent r \<Rightarrow> sr_transaction_id r = ''tx'' | _ \<Rightarrow> False)"
    and hosts: "fst (snd ?s) = replicate 3 ''ipv4:b:80''" by code_simp+
  have kept: "fst ?s = demo_producer"
    by (subst send_sync_group [where pi = sample_info])
      (simp_all add: cached_def demo_producer_def demo_order_def bindMessageGroup_def setMessageType_def MQMessage_new_def
        sample_queues split: prod.split)
  from out obtain r where r: "snd (snd ?s) = Sent r" "sr_transaction_id r = ''tx''" by (auto split: send_outcome.splits)
  with kept hosts have s: "?s = (demo_producer, replicate 3 ''ipv4:b:80'', Sent r)" by (metis prod.collapse)
  then obtain tx where p: "prepare demo_send demo_order demo_producer = (demo_producer, Inr tx)"
    by (simp add: prepare_def)
  from transaction_at_acceptor [OF p] s r(2) p show ?thesis by auto
qed

end
