(* ===== verification/PushConsumer.thy ===== *)
theory PushConsumer
  imports ClientCore ConsumeService Routes
begin

text \<open>
  The push consumer (rocketmq/PushConsumerImpl.cpp): subscriptions, the life cycle, querying the assignment of a
  topic, keeping the table of process queues in step with it, starting to receive, and the requests that end the
  handling of a message.  \<open>route\<close> answers are those of \<open>getRouteFor\<close>; the assignments a load balancer returns
  are arguments.
\<close>

section \<open>State\<close>

text \<open>\<open>topic_filter_expression_table_\<close> and \<open>process_queue_table_\<close> are association lists in iteration order.  The
  keys of the second are compared by topic, broker and queue id.\<close>

record push_consumer =
  pc_state :: State
  pc_group_name :: string
  pc_resource_namespace :: string
  pc_client_id :: string
  pc_subscriptions :: "(string \<times> FilterExpression) list"
  pc_queues :: "(MQMessageQueue \<times> process_queue) list"
  pc_listener :: "MessageListenerType option"
  pc_message_model :: MessageModel
  pc_receive_batch_size :: int
  pc_max_delivery_attempts :: int
  pc_thread_pool_size :: u32
  pc_consume_batch_size :: u32
  pc_service :: "consume_service option"
  pc_scan_handle :: u32

definition subscribe :: "string \<Rightarrow> string \<Rightarrow> ExpressionType \<Rightarrow> push_consumer \<Rightarrow> push_consumer" where
  "subscribe topic expression ty p =
     (case map_of (pc_subscriptions p) topic of
        Some _ \<Rightarrow> p
      | None \<Rightarrow> p\<lparr>pc_subscriptions := pc_subscriptions p @ [(topic, FilterExpression_new expression ty)]\<rparr>)"

definition unsubscribe :: "string \<Rightarrow> push_consumer \<Rightarrow> push_consumer" where
  "unsubscribe topic p = p\<lparr>pc_subscriptions := AList.delete topic (pc_subscriptions p)\<rparr>"

definition getFilterExpression :: "push_consumer \<Rightarrow> string \<Rightarrow> FilterExpression option" where
  "getFilterExpression p topic = map_of (pc_subscriptions p) topic"

definition set_consumeThreadPoolSize :: "int \<Rightarrow> push_consumer \<Rightarrow> push_consumer" where
  "set_consumeThreadPoolSize n p = (if n \<ge> 1 then p\<lparr>pc_thread_pool_size := word_of_int n\<rparr> else p)"

definition set_consumeBatchSize :: "u32 \<Rightarrow> push_consumer \<Rightarrow> push_consumer" where
  "set_consumeBatchSize n p =
     (if pc_listener p = Some FIFO_LISTENER then p
      else if n \<ge> 1 then p\<lparr>pc_consume_batch_size := n\<rparr> else p)"

definition registerMessageListener :: "MessageListenerType \<Rightarrow> push_consumer \<Rightarrow> push_consumer" where
  "registerMessageListener l p = p\<lparr>pc_listener := Some l\<rparr>"

text \<open>What its process queues ask the consumer.  There is a listener once it has started.\<close>

definition consumer_of :: "push_consumer \<Rightarrow> consumer_view" where
  "consumer_of p =
     \<lparr>cv_group_name = pc_group_name p, cv_resource_namespace = pc_resource_namespace p, cv_client_id = pc_client_id p,
      cv_message_model = pc_message_model p,
      cv_listener = (case pc_listener p of Some l \<Rightarrow> l | None \<Rightarrow> STANDARD),
      cv_receive_batch_size = pc_receive_batch_size p, cv_max_cached_quantity = DEFAULT_CACHED_MESSAGE_COUNT,
      cv_max_cached_memory = DEFAULT_CACHED_MESSAGE_MEMORY, cv_filter = getFilterExpression p, cv_active = active (pc_state p)\<rparr>"

section \<open>Querying assignments\<close>

text \<open>The loop counter has 32 bits and the limit 64, so the loop may never end: \<open>None\<close>.  \<open>Some None\<close>: no broker.\<close>

partial_function (option) select_loop :: "Partition list \<Rightarrow> u64 \<Rightarrow> u32 \<Rightarrow> string option option" where
  "select_loop ps limit i =
     (if ucast i < limit
      then let p = ps ! (unat i mod length ps)
           in if MASTER_BROKER_ID \<noteq> b_id (p_broker p) \<or> NONE = p_permission p then select_loop ps limit (i + 1)
              else if sa_bool (b_service_address (p_broker p)) then Some (Some (broker_serviceAddress (p_broker p)))
              else select_loop ps limit (i + 1)
      else Some None)"

definition selectBroker :: "u32 \<Rightarrow> TopicRouteData option \<Rightarrow> u32 \<times> string option option" where
  "selectBroker which route =
     (case route of
        Some r \<Rightarrow>
          if rd_partitions r \<noteq> []
          then let index = which + 1
               in (index, select_loop (rd_partitions r) (ucast index + of_nat (length (rd_partitions r))) index)
          else (which, Some None)
      | None \<Rightarrow> (which, Some None))"

record QueryAssignmentRequest =
  qar_topic :: Topic
  qar_group :: Topic
  qar_client_id :: string
  qar_endpoints :: PbEndpoints

definition wrapQueryAssignmentRequest :: "PbEndpoints \<Rightarrow> string \<Rightarrow> push_consumer \<Rightarrow> QueryAssignmentRequest" where
  "wrapQueryAssignmentRequest endpoints topic p =
     (let ns = pc_resource_namespace p
      in \<lparr>qar_topic = \<lparr>t_resource_namespace = ns, t_name = topic\<rparr>,
          qar_group = \<lparr>t_resource_namespace = ns, t_name = pc_group_name p\<rparr>,
          qar_client_id = pc_client_id p, qar_endpoints = endpoints\<rparr>)"

text \<open>What the callback of the route query does: the calls of \<open>cb\<close>, a request to a broker, a null pointer
  dereferenced, a loop that never ends.\<close>

type_synonym assignment = "ErrorCode \<times> MQMessageQueue list option"

datatype query_action = Assigned ErrorCode "MQMessageQueue list option" | Ask string QueryAssignmentRequest | NullRoute | Spin

definition queryAssignment ::
  "PbEndpoints \<Rightarrow> string \<Rightarrow> ErrorCode \<Rightarrow> TopicRouteData option \<Rightarrow> u32 \<Rightarrow> push_consumer \<Rightarrow> u32 \<times> query_action list" where
  "queryAssignment endpoints topic ec route which p =
     (if pc_message_model p = BROADCASTING
      then (which, (if ec_bool ec then [Assigned ec None] else []) @
             (case route of
                None \<Rightarrow> [NullRoute]
              | Some r \<Rightarrow> [Assigned ec (Some (TopicAssignment_of_list (map asMessageQueue (rd_partitions r))))]))
      else (case selectBroker which route of
              (which', None) \<Rightarrow> (which', [Spin])
            | (which', Some host) \<Rightarrow>
                (which', [Ask (case host of Some h \<Rightarrow> h | None \<Rightarrow> '''') (wrapQueryAssignmentRequest endpoints topic p)])))"

text \<open>The callback of the request.  \<open>None\<close>: the constructor of the assignment hit its assertion.\<close>

definition assignment_callback ::
  "(string \<Rightarrow> string option) \<Rightarrow> AddressScheme \<Rightarrow> bool \<Rightarrow> RpcCode \<Rightarrow> PbPartition list \<Rightarrow> assignment option" where
  "assignment_callback dns junk ok code partitions =
     (let ec = queryAssignment_completion ok code
      in if ec_bool ec then Some (ec, None)
         else map_option (\<lambda>qs. (ec, Some qs)) (TopicAssignment_of_response dns junk code partitions))"

section \<open>Process queues\<close>

definition find_queue :: "MQMessageQueue \<Rightarrow> push_consumer \<Rightarrow> process_queue option" where
  "find_queue mq p = map_option snd (find (\<lambda>(k, _). mq_eq k mq) (pc_queues p))"

definition put_queue :: "MQMessageQueue \<Rightarrow> process_queue \<Rightarrow> push_consumer \<Rightarrow> push_consumer" where
  "put_queue mq pq p = p\<lparr>pc_queues := map (\<lambda>(k, q). (k, if mq_eq k mq then pq else q)) (pc_queues p)\<rparr>"

definition getOrCreateProcessQueue ::
  "int \<Rightarrow> MQMessageQueue \<Rightarrow> FilterExpression \<Rightarrow> push_consumer \<Rightarrow> push_consumer \<times> process_queue option" where
  "getOrCreateProcessQueue now mq fe p =
     (if \<not> active (pc_state p) then (p, None)
      else case find_queue mq p of
             Some pq \<Rightarrow> (p, Some pq)
           | None \<Rightarrow> let pq = ProcessQueue_new mq fe now in (p\<lparr>pc_queues := pc_queues p @ [(mq, pq)]\<rparr>, Some pq))"

datatype QueryOffsetPolicy = BEGINNING | END | TIME_POINT

record QueryOffsetRequest =
  qor_topic :: Topic
  qor_partition_id :: int
  qor_broker_name :: string
  qor_policy :: QueryOffsetPolicy

datatype consumer_request = QueryOffset string QueryOffsetRequest | Receive receive_request

definition wrapQueryOffsetRequest :: "MQMessageQueue \<Rightarrow> push_consumer \<Rightarrow> QueryOffsetRequest" where
  "wrapQueryOffsetRequest mq p =
     \<lparr>qor_topic = \<lparr>t_resource_namespace = pc_resource_namespace p, t_name = mq_topic mq\<rparr>,
      qor_partition_id = mq_queue_id mq, qor_broker_name = mq_broker_name mq, qor_policy = END\<rparr>"

definition start_receiving ::
  "int \<Rightarrow> MQMessageQueue \<Rightarrow> process_queue \<Rightarrow> push_consumer \<Rightarrow> push_consumer \<times> consumer_request list" where
  "start_receiving now mq pq p =
     (case pq_receiveMessage (Some (consumer_of p)) now pq of
        (pq', req) \<Rightarrow> (put_queue mq pq' p, case req of Some r \<Rightarrow> [Receive r] | None \<Rightarrow> []))"

definition receiveMessage ::
  "int \<Rightarrow> MQMessageQueue \<Rightarrow> FilterExpression \<Rightarrow> push_consumer \<Rightarrow> push_consumer \<times> consumer_request list \<times> bool" where
  "receiveMessage now mq fe p =
     (if \<not> active (pc_state p) then (p, [], False)
      else case getOrCreateProcessQueue now mq fe p of
             (p1, None) \<Rightarrow> (p1, [], False)
           | (p1, Some pq) \<Rightarrow>
               if mq_service_address mq = '''' then (p1, [], False)
               else if pc_message_model p = BROADCASTING \<and> pq_next_offset pq < 0
               then (p1, [QueryOffset (mq_service_address mq) (wrapQueryOffsetRequest mq p1)], True)
               else (case start_receiving now mq pq p1 of (p2, reqs) \<Rightarrow> (p2, reqs, True)))"

text \<open>The callback of the offset query; it holds the process queue \<open>pq\<close>, whether or not the table still does.
  A failed query is only logged.\<close>

definition offset_callback ::
  "int \<Rightarrow> ErrorCode \<Rightarrow> int \<Rightarrow> process_queue \<Rightarrow> push_consumer \<Rightarrow> process_queue \<times> consumer_request list" where
  "offset_callback now ec offset pq p =
     (if ec_bool ec then (pq, [])
      else case pq_receiveMessage (Some (consumer_of p)) now (set_nextOffset offset pq) of
             (pq', req) \<Rightarrow> (pq', case req of Some r \<Rightarrow> [Receive r] | None \<Rightarrow> []))"

text \<open>The callback of a pull (\<open>ProcessQueueImpl::pullMessage\<close>) stores the offset before it looks at the error.\<close>

definition pull_callback ::
  "consumer_view \<Rightarrow> int \<Rightarrow> ErrorCode \<Rightarrow> ReceiveMessageResult \<Rightarrow> process_queue \<Rightarrow> consume_service \<Rightarrow>
   process_queue \<times> consume_service \<times> receive_loop" where
  "pull_callback c now ec result pq s = onCompletion c now ec (rr_messages result) (set_nextOffset (rr_next_offset result) pq) s"

section \<open>Following the assignment\<close>

fun sync_loop ::
  "string \<Rightarrow> MQMessageQueue list \<Rightarrow> int \<Rightarrow> (MQMessageQueue \<times> process_queue) list \<Rightarrow>
   (MQMessageQueue \<times> process_queue) list \<times> MQMessageQueue list" where
  "sync_loop topic assigned now [] = ([], [])"
| "sync_loop topic assigned now ((mq, pq) # rest) =
     (let (kept, current) = sync_loop topic assigned now rest
      in if topic \<noteq> mq_topic mq then ((mq, pq) # kept, current)
         else if list_all (\<lambda>q. \<not> mq_eq mq q) assigned then (kept, current)
         else if expired now pq then (kept, current)
         else ((mq, pq) # kept, mq # current))"

fun receive_new ::
  "int \<Rightarrow> FilterExpression \<Rightarrow> MQMessageQueue list \<Rightarrow> MQMessageQueue list \<Rightarrow> push_consumer \<Rightarrow> push_consumer \<times> consumer_request list"
where
  "receive_new now fe current [] p = (p, [])"
| "receive_new now fe current (mq # mqs) p =
     (if list_all (\<lambda>item. \<not> mq_eq item mq) current
      then let (p1, reqs1, _) = receiveMessage now mq fe p;
               (p2, reqs2) = receive_new now fe current mqs p1
           in (p2, reqs1 @ reqs2)
      else receive_new now fe current mqs p)"

definition syncProcessQueue ::
  "int \<Rightarrow> string \<Rightarrow> MQMessageQueue list \<Rightarrow> FilterExpression \<Rightarrow> push_consumer \<Rightarrow> push_consumer \<times> consumer_request list" where
  "syncProcessQueue now topic assigned fe p =
     (case sync_loop topic assigned now (pc_queues p) of
        (kept, current) \<Rightarrow> receive_new now fe current assigned (p\<lparr>pc_queues := kept\<rparr>))"

text \<open>\<open>scanAssignments\<close> with its callbacks run: \<open>answers\<close> gives, per topic, what its callback is called with.\<close>

definition scan_callback ::
  "int \<Rightarrow> string \<times> FilterExpression \<Rightarrow> assignment \<Rightarrow> push_consumer \<Rightarrow> push_consumer \<times> consumer_request list" where
  "scan_callback now entry a p =
     (case a of (ec, assignments) \<Rightarrow>
        if ec_bool ec then (p, [])
        else (case assignments of
                Some qs \<Rightarrow> if qs \<noteq> [] then syncProcessQueue now (fst entry) qs (snd entry) p else (p, [])
              | None \<Rightarrow> (p, [])))"

definition scanAssignments ::
  "int \<Rightarrow> (string \<Rightarrow> assignment list) \<Rightarrow> push_consumer \<Rightarrow> push_consumer \<times> consumer_request list" where
  "scanAssignments now answers p =
     (if \<not> active (pc_state p) then (p, [])
      else fold (\<lambda>(entry, a) (p, reqs). case scan_callback now entry a p of (p', reqs') \<Rightarrow> (p', reqs @ reqs'))
             (concat (map (\<lambda>entry. map (Pair entry) (answers (fst entry))) (pc_subscriptions p))) (p, []))"

section \<open>Life cycle\<close>

definition fetchRoutes :: "(string \<Rightarrow> route_answer) \<Rightarrow> push_consumer \<Rightarrow> nat option" where
  "fetchRoutes route p =
     (let answers = map (route \<circ> fst) (pc_subscriptions p)
      in if list_ex (\<lambda>a. a = None) answers then None
         else Some (length (filter (\<lambda>a. case a of Some (ec, _) \<Rightarrow> \<not> ec_bool ec | None \<Rightarrow> False) answers)))"

text \<open>\<open>start\<close>: \<open>Refused\<close> when the state is not the expected one, \<open>StartAborted\<close> without a name server resolver or
  without a listener, \<open>StartBlocked\<close> when a route callback is never invoked.\<close>

datatype 's start_outcome = Running 's | Refused 's | StartAborted | StartBlocked

definition push_start ::
  "bool \<Rightarrow> (string \<Rightarrow> route_answer) \<Rightarrow> client_observer \<Rightarrow> push_consumer \<times> client_manager \<Rightarrow>
   (push_consumer \<times> client_manager) start_outcome" where
  "push_start has_resolver route self pm =
     (case pm of (p, cm) \<Rightarrow>
        (case client_start has_resolver (pc_state p) of
           None \<Rightarrow> StartAborted
         | Some st \<Rightarrow>
             (case compare_exchange_strong st STARTING STARTED of (st', ok) \<Rightarrow>
                if \<not> ok then Refused (p\<lparr>pc_state := st'\<rparr>, cm)
                else if pc_listener p = None then StartAborted
                else if fetchRoutes route p = None then StartBlocked
                else let cm1 = addClientObserver self cm;
                         (handle, sch) = schedule ''scan-assignment-task'' 100 5000 (cm_scheduler cm1)
                     in Running (p\<lparr>pc_state := st', pc_service := Some (svc_start (ConsumeMessageService_new (unat (pc_thread_pool_size p)))),
                                   pc_scan_handle := handle\<rparr>, cm1\<lparr>cm_scheduler := sch\<rparr>))))"

definition push_shutdown :: "push_consumer \<times> client_manager \<Rightarrow> push_consumer \<times> client_manager" where
  "push_shutdown pm =
     (case pm of (p, cm) \<Rightarrow>
        (case compare_exchange_strong (pc_state p) STARTED STOPPING of (st, ok) \<Rightarrow>
           if \<not> ok then (p, cm)
           else (p\<lparr>pc_state := client_shutdown st, pc_queues := [], pc_service := map_option svc_shutdown (pc_service p)\<rparr>,
                 cm\<lparr>cm_scheduler := cancel_if (pc_scan_handle p) (cm_scheduler cm)\<rparr>)))"

section \<open>Requests\<close>

record AckMessageRequest =
  amr_group :: Topic
  amr_topic :: Topic
  amr_client_id :: string
  amr_receipt_handle :: string
  amr_message_id :: string

record NackMessageRequest =
  nmr_group :: Topic
  nmr_topic :: Topic
  nmr_client_id :: string
  nmr_receipt_handle :: string
  nmr_message_id :: string
  nmr_delivery_attempt :: int
  nmr_max_delivery_attempts :: int

definition resource_of :: "push_consumer \<Rightarrow> string \<Rightarrow> Topic" where
  "resource_of p name = \<lparr>t_resource_namespace = pc_resource_namespace p, t_name = name\<rparr>"

definition wrapAckMessageRequest :: "push_consumer \<Rightarrow> MQMessage \<Rightarrow> AckMessageRequest" where
  "wrapAckMessageRequest p m =
     \<lparr>amr_group = resource_of p (pc_group_name p), amr_topic = resource_of p (m_topic m), amr_client_id = pc_client_id p,
      amr_receipt_handle = sys_receipt_handle (m_sys m), amr_message_id = sys_message_id (m_sys m)\<rparr>"

text \<open>\<open>None\<close>: the assertion that the message has a target failed.\<close>

definition ack :: "push_consumer \<Rightarrow> MQMessage \<Rightarrow> (string \<times> AckMessageRequest) option" where
  "ack p m =
     (let host = sys_target_endpoint (m_sys m) in if host = '''' then None else Some (host, wrapAckMessageRequest p m))"

definition nack :: "push_consumer \<Rightarrow> MQMessage \<Rightarrow> string \<times> NackMessageRequest" where
  "nack p m =
     (sys_target_endpoint (m_sys m),
      \<lparr>nmr_group = resource_of p (pc_group_name p), nmr_topic = resource_of p (m_topic m), nmr_client_id = pc_client_id p,
       nmr_receipt_handle = sys_receipt_handle (m_sys m), nmr_message_id = sys_message_id (m_sys m),
       nmr_delivery_attempt = sys_attempt_times (m_sys m) + 1, nmr_max_delivery_attempts = pc_max_delivery_attempts p\<rparr>)"

text \<open>A \<open>ForwardMessageToDeadLetterQueueRequest\<close> has the same fields; its receipt handle is not set.\<close>

definition forwardToDeadLetterQueue :: "push_consumer \<Rightarrow> MQMessage \<Rightarrow> string \<times> NackMessageRequest" where
  "forwardToDeadLetterQueue p m =
     (sys_target_endpoint (m_sys m),
      \<lparr>nmr_group = resource_of p (pc_group_name p), nmr_topic = resource_of p (m_topic m), nmr_client_id = pc_client_id p,
       nmr_receipt_handle = '''', nmr_message_id = sys_message_id (m_sys m),
       nmr_delivery_attempt = sys_attempt_times (m_sys m), nmr_max_delivery_attempts = pc_max_delivery_attempts p\<rparr>)"

record ConsumerHeartbeat =
  chb_client_id :: string
  chb_fifo_flag :: bool
  chb_group :: Topic
  chb_consume_model :: MessageModel
  chb_subscriptions :: "(Topic \<times> FilterType \<times> string) list"
  chb_max_delivery_attempts :: int

text \<open>\<open>None\<close>: the assertion that there is a listener failed.\<close>

definition push_prepareHeartbeatData :: "push_consumer \<Rightarrow> ConsumerHeartbeat option" where
  "push_prepareHeartbeatData p =
     (case pc_listener p of
        None \<Rightarrow> None
      | Some l \<Rightarrow> Some
          \<lparr>chb_client_id = pc_client_id p, chb_fifo_flag = (l = FIFO_LISTENER),
           chb_group = resource_of p (pc_group_name p), chb_consume_model = pc_message_model p,
           chb_subscriptions = map (\<lambda>(topic, fe). (resource_of p topic,
             (case fe_type fe of TAG \<Rightarrow> PB_TAG | SQL92 \<Rightarrow> PB_SQL), fe_content fe)) (pc_subscriptions p),
           chb_max_delivery_attempts = pc_max_delivery_attempts p\<rparr>)"

definition push_resourceBundle :: "push_consumer \<Rightarrow> ClientResourceBundle" where
  "push_resourceBundle p =
     (let b = resourceBundle (pc_client_id p) (pc_resource_namespace p)
      in b\<lparr>rb_group_type := SUBSCRIBER, rb_topics := rb_topics b @ map fst (pc_subscriptions p)\<rparr>)"

definition push_notifyClientTermination :: "push_consumer \<Rightarrow> NotifyClientTerminationRequest" where
  "push_notifyClientTermination p =
     \<lparr>nctr_group = ConsumerGroup (resource_of p (pc_group_name p)), nctr_client_id = pc_client_id p\<rparr>"


section \<open>Lemmas on choosing a broker\<close>

definition eligible :: "Partition \<Rightarrow> bool" where
  "eligible p \<longleftrightarrow> b_id (p_broker p) = MASTER_BROKER_ID \<and> p_permission p \<noteq> NONE \<and> sa_bool (b_service_address (p_broker p))"

lemma select_loop_step:
  "select_loop ps limit i =
     (if ucast i < limit
      then if eligible (ps ! (unat i mod length ps))
           then Some (Some (broker_serviceAddress (p_broker (ps ! (unat i mod length ps)))))
           else select_loop ps limit (i + 1)
      else Some None)"
  by (subst select_loop.simps) (auto simp: eligible_def Let_def)

lemma u32_bound: "unat (i :: u32) < 4294967296"
  using unsigned_less [of i] by simp

lemma unat_ucast64: "unat (ucast (i :: u32) :: u64) = unat i"
  using u32_bound [of i] by (simp add: unsigned_ucast_eq take_bit_nat_eq_self_iff)

lemma word_limit:
  fixes index :: u32
  assumes "n < 2 ^ 63"
  shows "unat ((ucast index :: u64) + of_nat n) = unat index + n"
proof -
  from assms u32_bound [of index] have "unat index + n < 2 ^ 64" by simp
  then show ?thesis
    by (simp add: unat_word_ariths unat_of_nat unat_ucast64)
qed

lemma select_loop_from:
  fixes index :: u32
  assumes "unat index + length ps < 2 ^ 32" "k \<le> length ps"
  shows "select_loop ps (ucast index + of_nat (length ps)) (index + of_nat k) =
    Some (map_option (broker_serviceAddress \<circ> p_broker)
      (find eligible (map (\<lambda>j. ps ! ((unat index + j) mod length ps)) [k..<length ps])))"
  using assms(2)
proof (induction "length ps - k" arbitrary: k)
  case 0
  have "unat (index + of_nat (length ps)) = unat index + length ps"
    using assms(1) by (simp add: unat_word_ariths unat_of_nat)
  moreover have "unat ((ucast index :: u64) + of_nat (length ps)) = unat index + length ps"
    using assms(1) by (simp add: word_limit)
  moreover have "k = length ps" using 0 by simp
  ultimately show ?case by (subst select_loop_step) (simp add: word_less_nat_alt unat_ucast64)
next
  case (Suc d)
  have i: "unat (index + of_nat k) = unat index + k"
    using assms(1) Suc.prems by (simp add: unat_word_ariths unat_of_nat)
  have "unat ((ucast index :: u64) + of_nat (length ps)) = unat index + length ps"
    using assms(1) by (simp add: word_limit)
  then have "(ucast (index + of_nat k) :: u64) < ucast index + of_nat (length ps)"
    using i Suc by (simp add: word_less_nat_alt unat_ucast64)
  moreover have "select_loop ps (ucast index + of_nat (length ps)) (index + of_nat (Suc k)) =
      Some (map_option (broker_serviceAddress \<circ> p_broker)
        (find eligible (map (\<lambda>j. ps ! ((unat index + j) mod length ps)) [Suc k..<length ps])))"
    using Suc by (intro Suc.hyps(1)) simp_all
  moreover have "[k..<length ps] = k # [Suc k..<length ps]" using Suc by (simp add: upt_conv_Cons)
  ultimately show ?case by (subst select_loop_step) (simp add: i add.assoc add.commute [of 1])
qed

lemma select_loop_spins:
  assumes "2 ^ 32 \<le> unat limit" "ps \<noteq> []" "\<not> list_ex eligible ps"
  shows "select_loop ps limit i = None"
proof -
  have "2 ^ 32 \<le> unat limit \<longrightarrow> ps \<noteq> [] \<longrightarrow> list_ex eligible ps" if "select_loop ps limit i = Some y" for i y
  proof (rule select_loop.raw_induct [OF _ that], intro impI)
    fix loop :: "Partition list \<Rightarrow> u64 \<Rightarrow> u32 \<Rightarrow> string option option" and ps limit i y
    assume IH: "\<And>ps limit i y. loop ps limit i = Some y \<Longrightarrow> 2 ^ 32 \<le> unat limit \<longrightarrow> ps \<noteq> [] \<longrightarrow> list_ex eligible ps"
      and run: "(if ucast i < limit
         then let p = ps ! (unat i mod length ps)
              in if MASTER_BROKER_ID \<noteq> b_id (p_broker p) \<or> NONE = p_permission p then loop ps limit (i + 1)
                 else if sa_bool (b_service_address (p_broker p)) then Some (Some (broker_serviceAddress (p_broker p)))
                 else loop ps limit (i + 1)
         else Some None) = Some y"
      and large: "2 ^ 32 \<le> unat limit" "ps \<noteq> []"
    have "ucast i < limit" using large(1) u32_bound [of i] by (simp add: word_less_nat_alt unat_ucast64)
    with run IH [of ps limit "i + 1" y] large have "eligible (ps ! (unat i mod length ps)) \<or> list_ex eligible ps"
      by (auto simp: Let_def eligible_def split: if_splits)
    with large(2) show "list_ex eligible ps" by (auto simp: list_ex_iff)
  qed
  with assms have "select_loop ps limit i \<noteq> Some y" for y by blast
  then show ?thesis by (cases "select_loop ps limit i") auto
qed

section \<open>Lemmas on the table of process queues\<close>

definition queue_keys :: "push_consumer \<Rightarrow> mq_id list" where
  "queue_keys p = map (mq_key \<circ> fst) (pc_queues p)"

definition keeps :: "string \<Rightarrow> MQMessageQueue list \<Rightarrow> int \<Rightarrow> MQMessageQueue \<times> process_queue \<Rightarrow> bool" where
  "keeps topic assigned now e \<longleftrightarrow>
     mq_topic (fst e) \<noteq> topic \<or> mq_key (fst e) \<in> mq_key ` set assigned \<and> \<not> expired now (snd e)"

lemma sync_loop_eq:
  "sync_loop topic assigned now tbl =
     (filter (keeps topic assigned now) tbl,
      map fst (filter (\<lambda>e. keeps topic assigned now e \<and> mq_topic (fst e) = topic) tbl))"
  by (induction topic assigned now tbl rule: sync_loop.induct)
    (auto simp: keeps_def mq_eq_key list_all_iff Let_def)

lemma find_queue_None: "find_queue mq p = None \<longleftrightarrow> mq_key mq \<notin> set (queue_keys p)"
  by (auto simp: find_queue_def find_None_iff queue_keys_def mq_eq_key image_iff case_prod_beta)

lemma put_queue_keys: "queue_keys (put_queue mq pq p) = queue_keys p"
  by (simp add: put_queue_def queue_keys_def comp_def case_prod_beta)

lemma put_queue_others:
  "\<not> Q (mq_key mq) \<Longrightarrow> filter (\<lambda>e. Q (mq_key (fst e))) (pc_queues (put_queue mq pq p)) = filter (\<lambda>e. Q (mq_key (fst e))) (pc_queues p)"
  by (auto simp: put_queue_def filter_map comp_def case_prod_beta mq_eq_key intro!: map_idI cong: filter_cong map_cong)

lemma queues_refl [simp]: "\<exists>qs. p = p\<lparr>pc_queues := qs\<rparr>"
  by (rule exI [of _ "pc_queues p"]) simp

lemma put_queue_frame: "\<exists>qs. put_queue mq pq p = p\<lparr>pc_queues := qs\<rparr>"
  by (auto simp: put_queue_def)

lemma pq_receiveMessage_idle: "fst (pq_receiveMessage (Some c) now pq) = syncIdleState now pq"
  by (simp add: pq_receiveMessage_def popMessage_def pullMessage_def split: MessageModel.split)

definition request_host :: "consumer_request \<Rightarrow> string" where
  "request_host r = (case r of QueryOffset h _ \<Rightarrow> h | Receive (Pop h _) \<Rightarrow> h | Receive (Pull h _) \<Rightarrow> h)"

text \<open>Receiving from a queue that has a process queue, and from one that has none.\<close>

lemma receiveMessage_keys:
  assumes "receiveMessage now mq fe p = (p', reqs, ok)"
  shows "queue_keys p' = queue_keys p @ (if active (pc_state p) \<and> mq_key mq \<notin> set (queue_keys p) then [mq_key mq] else [])"
    and "\<exists>qs. p' = p\<lparr>pc_queues := qs\<rparr>"
    and "\<not> Q (mq_key mq) \<Longrightarrow> filter (\<lambda>e. Q (mq_key (fst e))) (pc_queues p') = filter (\<lambda>e. Q (mq_key (fst e))) (pc_queues p)"
proof -
  obtain p1 pq where g: "getOrCreateProcessQueue now mq fe p = (p1, pq)" by (rule prod.exhaust)
  have p1: "queue_keys p1 = queue_keys p @ (if active (pc_state p) \<and> mq_key mq \<notin> set (queue_keys p) then [mq_key mq] else [])"
      "\<exists>qs. p1 = p\<lparr>pc_queues := qs\<rparr>"
      "\<not> Q (mq_key mq) \<Longrightarrow> filter (\<lambda>e. Q (mq_key (fst e))) (pc_queues p1) = filter (\<lambda>e. Q (mq_key (fst e))) (pc_queues p)"
    using g find_queue_None [of mq p] by (auto simp: getOrCreateProcessQueue_def Let_def queue_keys_def split: if_splits option.splits)
  have "p' = p1 \<or> (\<exists>pq'. p' = put_queue mq pq' p1)"
    using assms g by (auto simp: receiveMessage_def getOrCreateProcessQueue_def start_receiving_def split: if_splits option.splits prod.splits)
  then have p': "queue_keys p' = queue_keys p1" "\<exists>qs. p' = p1\<lparr>pc_queues := qs\<rparr>"
      "\<not> Q (mq_key mq) \<Longrightarrow> filter (\<lambda>e. Q (mq_key (fst e))) (pc_queues p') = filter (\<lambda>e. Q (mq_key (fst e))) (pc_queues p1)"
    using put_queue_keys put_queue_others [of Q mq] put_queue_frame by auto
  show "queue_keys p' = queue_keys p @ (if active (pc_state p) \<and> mq_key mq \<notin> set (queue_keys p) then [mq_key mq] else [])"
    using p1(1) p'(1) by simp
  show "\<exists>qs. p' = p\<lparr>pc_queues := qs\<rparr>" using p1(2) p'(2) by auto
  show "\<not> Q (mq_key mq) \<Longrightarrow> filter (\<lambda>e. Q (mq_key (fst e))) (pc_queues p') = filter (\<lambda>e. Q (mq_key (fst e))) (pc_queues p)"
    using p1(3) p'(3) by simp
qed

lemma receiveMessage_fresh:
  assumes "active (pc_state p)" "mq_key mq \<notin> set (queue_keys p)"
  shows "\<exists>reqs ok. receiveMessage now mq fe p = (p\<lparr>pc_queues := pc_queues p @ [(mq, ProcessQueue_new mq fe now)]\<rparr>, reqs, ok) \<and>
    map request_host reqs = (if mq_service_address mq = '''' then [] else [mq_service_address mq])"
proof -
  let ?pq = "ProcessQueue_new mq fe now" let ?p1 = "p\<lparr>pc_queues := pc_queues p @ [(mq, ProcessQueue_new mq fe now)]\<rparr>"
  have new: "getOrCreateProcessQueue now mq fe p = (?p1, Some ?pq)"
    using assms find_queue_None [of mq p] by (simp add: getOrCreateProcessQueue_def Let_def)
  have "map (\<lambda>(k, q). (k, if mq_key k = mq_key mq then ?pq else q)) (pc_queues p) = pc_queues p"
    using assms(2) by (intro map_idI) (force simp: queue_keys_def)
  then have same: "put_queue mq ?pq ?p1 = ?p1" by (simp add: put_queue_def mq_eq_key)
  have idle: "syncIdleState now ?pq = ?pq" by (simp add: syncIdleState_def ProcessQueue_new_def)
  show ?thesis
    using assms(1) same idle
    by (auto simp: receiveMessage_def new start_receiving_def pq_receiveMessage_def popMessage_def pullMessage_def request_host_def
        consumer_of_def ProcessQueue_new_def split: MessageModel.split)
qed

lemma receive_new_keys:
  assumes "receive_new now fe current mqs p = (p', reqs)"
  shows "\<exists>ks. queue_keys p' = queue_keys p @ ks \<and> distinct ks \<and> set ks \<inter> set (queue_keys p) = {} \<and> set ks \<subseteq> mq_key ` set mqs"
    and "\<exists>qs. p' = p\<lparr>pc_queues := qs\<rparr>"
    and "(\<forall>mq \<in> set mqs. \<not> Q (mq_key mq)) \<Longrightarrow> filter (\<lambda>e. Q (mq_key (fst e))) (pc_queues p') = filter (\<lambda>e. Q (mq_key (fst e))) (pc_queues p)"
proof -
  have "(\<exists>ks. queue_keys p' = queue_keys p @ ks \<and> distinct ks \<and> set ks \<inter> set (queue_keys p) = {} \<and> set ks \<subseteq> mq_key ` set mqs) \<and>
    (\<exists>qs. p' = p\<lparr>pc_queues := qs\<rparr>) \<and>
    ((\<forall>mq \<in> set mqs. \<not> Q (mq_key mq)) \<longrightarrow> filter (\<lambda>e. Q (mq_key (fst e))) (pc_queues p') = filter (\<lambda>e. Q (mq_key (fst e))) (pc_queues p))"
    using assms
  proof (induction mqs arbitrary: p reqs)
    case (Cons mq mqs)
    show ?case
    proof (cases "list_all (\<lambda>item. \<not> mq_eq item mq) current")
      case False
      with Cons show ?thesis by fastforce
    next
      case True
      obtain p1 r1 ok where r: "receiveMessage now mq fe p = (p1, r1, ok)" by (rule prod_cases3)
      obtain r2 where n: "receive_new now fe current mqs p1 = (p', r2)"
        using Cons.prems True r by (auto simp: Let_def split: prod.splits)
      note one = receiveMessage_keys [OF r]
      from Cons.IH [OF n] obtain ks where ks: "queue_keys p' = queue_keys p1 @ ks" "distinct ks"
        "set ks \<inter> set (queue_keys p1) = {}" "set ks \<subseteq> mq_key ` set mqs" by blast
      define ks0 where "ks0 = (if active (pc_state p) \<and> mq_key mq \<notin> set (queue_keys p) then [mq_key mq] else [])"
      have "queue_keys p' = queue_keys p @ (ks0 @ ks)" using ks(1) one(1) by (simp add: ks0_def)
      moreover have "distinct (ks0 @ ks)" "set (ks0 @ ks) \<inter> set (queue_keys p) = {}" "set (ks0 @ ks) \<subseteq> mq_key ` set (mq # mqs)"
        using ks(2-4) one(1) by (auto simp: ks0_def)
      ultimately show ?thesis using Cons.IH [OF n] one(2,3) by auto
    qed
  qed auto
  then show "\<exists>ks. queue_keys p' = queue_keys p @ ks \<and> distinct ks \<and> set ks \<inter> set (queue_keys p) = {} \<and> set ks \<subseteq> mq_key ` set mqs"
    and "\<exists>qs. p' = p\<lparr>pc_queues := qs\<rparr>"
    and "(\<forall>mq \<in> set mqs. \<not> Q (mq_key mq)) \<Longrightarrow> filter (\<lambda>e. Q (mq_key (fst e))) (pc_queues p') = filter (\<lambda>e. Q (mq_key (fst e))) (pc_queues p)"
    by blast+
qed


lemma receive_new_fresh:
  assumes "active (pc_state p)" "distinct (map mq_key mqs)"
    and "\<And>mq. mq \<in> set mqs \<Longrightarrow> mq_key mq \<notin> mq_key ` set current \<Longrightarrow> mq_key mq \<notin> set (queue_keys p)"
    and "fresh = filter (\<lambda>mq. mq_key mq \<notin> mq_key ` set current) mqs"
  shows "\<exists>reqs. receive_new now fe current mqs p =
      (p\<lparr>pc_queues := pc_queues p @ map (\<lambda>mq. (mq, ProcessQueue_new mq fe now)) fresh\<rparr>, reqs) \<and>
    map request_host reqs = filter (\<lambda>h. h \<noteq> '''') (map mq_service_address fresh)"
  using assms
proof (induction mqs arbitrary: p fresh)
  case (Cons mq mqs)
  have none: "list_all (\<lambda>item. \<not> mq_eq item mq) current \<longleftrightarrow> mq_key mq \<notin> mq_key ` set current"
    by (simp add: list_all_iff mq_eq_key image_iff) metis
  show ?case
  proof (cases "mq_key mq \<in> mq_key ` set current")
    case True
    with Cons none show ?thesis by simp
  next
    case False
    let ?p1 = "p\<lparr>pc_queues := pc_queues p @ [(mq, ProcessQueue_new mq fe now)]\<rparr>"
    from Cons.prems False obtain r1 ok where r: "receiveMessage now mq fe p = (?p1, r1, ok)"
      "map request_host r1 = (if mq_service_address mq = '''' then [] else [mq_service_address mq])"
      using receiveMessage_fresh [of p mq now fe] by auto
    have "\<exists>reqs. receive_new now fe current mqs ?p1 =
        (?p1\<lparr>pc_queues := pc_queues ?p1 @ map (\<lambda>mq. (mq, ProcessQueue_new mq fe now)) (filter (\<lambda>mq. mq_key mq \<notin> mq_key ` set current) mqs)\<rparr>, reqs) \<and>
      map request_host reqs = filter (\<lambda>h. h \<noteq> '''') (map mq_service_address (filter (\<lambda>mq. mq_key mq \<notin> mq_key ` set current) mqs))"
      using Cons.prems by (intro Cons.IH) (simp_all add: queue_keys_def, metis imageI)
    with False none Cons.prems(4) r show ?thesis by auto
  qed
qed simp

definition live_keys :: "int \<Rightarrow> push_consumer \<Rightarrow> mq_id set" where
  "live_keys now p = {mq_key mq |mq pq. (mq, pq) \<in> set (pc_queues p) \<and> \<not> expired now pq}"

lemma syncProcessQueue_reference:
  assumes "active (pc_state p)" "distinct (queue_keys p)" "distinct (map mq_key assigned)" "\<forall>mq \<in> set assigned. mq_topic mq = topic"
    and "fresh = filter (\<lambda>mq. mq_key mq \<notin> live_keys now p) assigned"
  shows "\<exists>reqs. syncProcessQueue now topic assigned fe p =
      (p\<lparr>pc_queues := filter (keeps topic assigned now) (pc_queues p) @ map (\<lambda>mq. (mq, ProcessQueue_new mq fe now)) fresh\<rparr>, reqs) \<and>
    map request_host reqs = filter (\<lambda>h. h \<noteq> '''') (map mq_service_address fresh)"
proof -
  let ?kept = "filter (keeps topic assigned now) (pc_queues p)"
  let ?current = "map fst (filter (\<lambda>e. keeps topic assigned now e \<and> mq_topic (fst e) = topic) (pc_queues p))"
  have topic_key: "mq_key a = mq_key b \<Longrightarrow> mq_topic a = mq_topic b" for a b by (simp add: mq_key_def)
  have current: "mq_key mq \<in> mq_key ` set ?current \<longleftrightarrow> mq_key mq \<in> live_keys now p" if "mq \<in> set assigned" for mq
  proof
    assume "mq_key mq \<in> mq_key ` set ?current"
    then obtain a b where "(a, b) \<in> set (pc_queues p)" "keeps topic assigned now (a, b)" "mq_topic a = topic" "mq_key mq = mq_key a"
      by auto
    then show "mq_key mq \<in> live_keys now p" by (auto simp: live_keys_def keeps_def)
  next
    assume "mq_key mq \<in> live_keys now p"
    then obtain a b where ab: "(a, b) \<in> set (pc_queues p)" "\<not> expired now b" "mq_key mq = mq_key a" by (auto simp: live_keys_def)
    with that have "keeps topic assigned now (a, b)" by (simp add: keeps_def) (metis imageI)
    moreover have "mq_topic a = topic" using ab(3) that assms(4) topic_key by metis
    ultimately have "a \<in> set ?current" using ab(1) by force
    with ab(3) show "mq_key mq \<in> mq_key ` set ?current" by simp
  qed
  have "mq_key mq \<notin> set (queue_keys (p\<lparr>pc_queues := ?kept\<rparr>))" if "mq \<in> set assigned" "mq_key mq \<notin> mq_key ` set ?current" for mq
  proof
    assume "mq_key mq \<in> set (queue_keys (p\<lparr>pc_queues := ?kept\<rparr>))"
    then obtain a b where ab: "(a, b) \<in> set (pc_queues p)" "keeps topic assigned now (a, b)" "mq_key mq = mq_key a"
      by (auto simp: queue_keys_def)
    moreover have "mq_topic a = topic" using ab(3) that(1) assms(4) topic_key by metis
    ultimately have "a \<in> set ?current" by force
    with ab(3) that(2) show False by simp
  qed
  moreover have "fresh = filter (\<lambda>mq. mq_key mq \<notin> mq_key ` set ?current) assigned"
    unfolding assms(5) by (rule filter_cong) (simp_all only: current refl)
  ultimately have "\<exists>reqs. receive_new now fe ?current assigned (p\<lparr>pc_queues := ?kept\<rparr>) =
      (p\<lparr>pc_queues := ?kept\<rparr>\<lparr>pc_queues := pc_queues (p\<lparr>pc_queues := ?kept\<rparr>) @ map (\<lambda>mq. (mq, ProcessQueue_new mq fe now)) fresh\<rparr>, reqs) \<and>
    map request_host reqs = filter (\<lambda>h. h \<noteq> '''') (map mq_service_address fresh)"
    using assms(1,3) by (intro receive_new_fresh) simp_all
  then show ?thesis by (simp add: syncProcessQueue_def sync_loop_eq)
qed


section \<open>Well-formed consumers\<close>

definition push_ok :: "push_consumer \<Rightarrow> bool" where
  "push_ok p \<longleftrightarrow> distinct (queue_keys p) \<and> distinct (map fst (pc_subscriptions p)) \<and>
     list_all (\<lambda>(k, pq). mq_key (pq_message_queue pq) = mq_key k) (pc_queues p) \<and>
     pc_thread_pool_size p \<noteq> 0 \<and> pc_consume_batch_size p \<noteq> 0"

lemma subscribe_ok: "push_ok p \<Longrightarrow> push_ok (subscribe topic expression ty p)"
  by (auto simp: push_ok_def subscribe_def queue_keys_def map_of_eq_None_iff split: option.split)

lemma unsubscribe_ok: "push_ok p \<Longrightarrow> push_ok (unsubscribe topic p)"
  by (simp add: push_ok_def unsubscribe_def queue_keys_def distinct_delete)

lemma setters_ok:
  assumes "push_ok p"
  shows "n < 2 ^ 31 \<Longrightarrow> push_ok (set_consumeThreadPoolSize n p)" "push_ok (set_consumeBatchSize m p)"
    "push_ok (registerMessageListener l p)"
proof -
  have "(word_of_int n :: u32) \<noteq> 0" if "1 \<le> n" "n < 2 ^ 31"
  proof -
    from that have "uint (word_of_int n :: u32) = n" by (simp add: uint_word_of_int take_bit_eq_mod)
    with that show ?thesis by (metis not_one_le_zero unsigned_0)
  qed
  with assms show "n < 2 ^ 31 \<Longrightarrow> push_ok (set_consumeThreadPoolSize n p)"
    by (auto simp: push_ok_def set_consumeThreadPoolSize_def queue_keys_def)
  show "push_ok (set_consumeBatchSize m p)" "push_ok (registerMessageListener l p)"
    using assms by (auto simp: push_ok_def set_consumeBatchSize_def registerMessageListener_def queue_keys_def)
qed

lemma find_queue_key:
  assumes "push_ok p" "find_queue mq p = Some pq"
  shows "mq_key (pq_message_queue pq) = mq_key mq"
  using assms by (auto simp: push_ok_def find_queue_def find_Some_iff mq_eq_key list_all_iff dest!: nth_mem)

lemma put_queue_ok:
  "push_ok p \<Longrightarrow> mq_key (pq_message_queue pq) = mq_key mq \<Longrightarrow> push_ok (put_queue mq pq p)"
  by (auto simp: push_ok_def put_queue_keys) (auto simp: put_queue_def list_all_iff mq_eq_key)

lemma getOrCreate_ok:
  assumes "push_ok p" "getOrCreateProcessQueue now mq fe p = (p', pq)"
  shows "push_ok p' \<and> (\<forall>q. pq = Some q \<longrightarrow> mq_key (pq_message_queue q) = mq_key mq)"
  using assms find_queue_None [of mq p] find_queue_key [OF assms(1)]
  by (auto simp: getOrCreateProcessQueue_def Let_def push_ok_def queue_keys_def ProcessQueue_new_def split: if_splits option.splits)

lemma receiveMessage_ok:
  assumes "push_ok p"
  shows "push_ok (fst (receiveMessage now mq fe p))"
proof -
  obtain p1 pq where g: "getOrCreateProcessQueue now mq fe p = (p1, pq)" by (rule prod.exhaust)
  note ok = getOrCreate_ok [OF assms g]
  have "push_ok (put_queue mq (syncIdleState now q) p1)" if "pq = Some q" for q
    using that ok by (intro put_queue_ok) (simp_all add: syncIdleState_def)
  then show ?thesis
    using g ok assms
    by (auto simp: receiveMessage_def start_receiving_def pq_receiveMessage_idle split_beta split: option.split)
qed

lemma receive_new_ok: "push_ok p \<Longrightarrow> push_ok (fst (receive_new now fe current mqs p))"
proof (induction mqs arbitrary: p)
  case (Cons mq mqs)
  from Cons.prems have "push_ok (fst (receiveMessage now mq fe p))" by (rule receiveMessage_ok)
  with Cons show ?case by (auto simp: Let_def split: prod.split) (metis fst_conv)+
qed simp

lemma syncProcessQueue_ok:
  assumes "push_ok p"
  shows "push_ok (fst (syncProcessQueue now topic assigned fe p))"
proof -
  from assms have "push_ok (p\<lparr>pc_queues := filter (keeps topic assigned now) (pc_queues p)\<rparr>)"
    by (auto simp: push_ok_def queue_keys_def list_all_iff distinct_map_filter)
  then show ?thesis by (simp add: syncProcessQueue_def sync_loop_eq receive_new_ok)
qed

lemma scan_invariant:
  assumes "P p" "\<And>entry a p. entry \<in> set (pc_subscriptions q) \<Longrightarrow> a \<in> set (answers (fst entry)) \<Longrightarrow> P p \<Longrightarrow> P (fst (scan_callback now entry a p))"
    and "q = p"
  shows "P (fst (scanAssignments now answers p))"
proof -
  have "P (fst (fold (\<lambda>(entry, a) (p, reqs). case scan_callback now entry a p of (p', reqs') \<Rightarrow> (p', reqs @ reqs')) todo (p, reqs)))"
    if "set todo \<subseteq> {(entry, a). entry \<in> set (pc_subscriptions q) \<and> a \<in> set (answers (fst entry))}" "P p" for todo p reqs
    using that
  proof (induction todo arbitrary: p reqs)
    case (Cons x todo)
    obtain entry a where x: "x = (entry, a)" by (rule prod.exhaust)
    obtain p' reqs' where s: "scan_callback now entry a p = (p', reqs')" by (rule prod.exhaust)
    with Cons.prems x assms(2) [of entry a p] have "P p'" by simp
    with Cons x s show ?case by simp
  qed simp
  from this [of "concat (map (\<lambda>entry. map (Pair entry) (answers (fst entry))) (pc_subscriptions p))" p] assms show ?thesis
    by (auto simp: scanAssignments_def)
qed

lemma scan_ok: "push_ok p \<Longrightarrow> push_ok (fst (scanAssignments now answers p))"
  by (rule scan_invariant [where q = p]) (auto simp: scan_callback_def syncProcessQueue_ok split: option.split)

lemma start_ok: "push_ok p \<Longrightarrow> push_start has_resolver route self (p, cm) = Running (p', cm') \<Longrightarrow> push_ok p'"
  by (auto simp: push_start_def push_ok_def queue_keys_def Let_def split: option.splits prod.splits if_splits)

lemma shutdown_ok: "push_ok p \<Longrightarrow> push_ok (fst (push_shutdown (p, cm)))"
  by (auto simp: push_shutdown_def push_ok_def queue_keys_def split: prod.split)


lemma sync_other_topic:
  assumes "\<forall>mq \<in> set assigned. mq_topic mq = topic" "topic \<noteq> t"
  shows "filter (\<lambda>e. mq_topic (fst e) = t) (pc_queues (fst (syncProcessQueue now topic assigned fe p))) =
    filter (\<lambda>e. mq_topic (fst e) = t) (pc_queues p)"
proof -
  let ?kept = "filter (keeps topic assigned now) (pc_queues p)"
  obtain p' reqs where r: "receive_new now fe (map fst (filter (\<lambda>e. keeps topic assigned now e \<and> mq_topic (fst e) = topic) (pc_queues p)))
      assigned (p\<lparr>pc_queues := ?kept\<rparr>) = (p', reqs)" by (rule prod.exhaust)
  have "\<forall>mq \<in> set assigned. \<not> fst (mq_key mq) = t" using assms by (auto simp: mq_key_def)
  from receive_new_keys(3) [OF r this] have "filter (\<lambda>e. mq_topic (fst e) = t) (pc_queues p') = filter (\<lambda>e. mq_topic (fst e) = t) ?kept"
    by (simp add: mq_key_def)
  also have "\<dots> = filter (\<lambda>e. mq_topic (fst e) = t) (pc_queues p)"
    using assms(2) by (auto simp: keeps_def intro: filter_cong)
  finally show ?thesis by (simp add: syncProcessQueue_def sync_loop_eq r)
qed


text \<open>A queue without an address, and a broadcast queue whose offset query failed, are in the table with nothing
  under way.  The next scans leave them so until they expire.\<close>

lemma silent_until_expired:
  assumes "active (pc_state p)" "push_ok p" "(mq, pq) \<in> set (pc_queues p)" "\<not> expired now pq"
  shows "snd (syncProcessQueue now (mq_topic mq) [mq] fe p) = []"
proof -
  have "mq_key mq \<in> live_keys now p" using assms(3,4) by (auto simp: live_keys_def)
  moreover have "distinct (queue_keys p)" using assms(2) by (simp add: push_ok_def)
  ultimately show ?thesis
    using syncProcessQueue_reference [OF assms(1), of "[mq]" "mq_topic mq" "[]" now fe] by auto
qed

text \<open>The batch size of a FIFO listener is one only when the listener is registered first.\<close>

lemma fifo_batch_size:
  "pc_consume_batch_size (set_consumeBatchSize 32 (registerMessageListener FIFO_LISTENER p)) = pc_consume_batch_size p"
  "pc_listener p = None \<Longrightarrow> pc_consume_batch_size (registerMessageListener FIFO_LISTENER (set_consumeBatchSize 32 p)) = 32"
  by (simp_all add: set_consumeBatchSize_def registerMessageListener_def)

text \<open>A second subscription to a topic is ignored.\<close>

lemma subscribe_first_wins:
  "getFilterExpression (subscribe t e2 ty2 (subscribe t e1 ty1 p)) t = getFilterExpression (subscribe t e1 ty1 p) t"
  by (auto simp: subscribe_def getFilterExpression_def split: option.split)

text \<open>A queue assigned twice, as when a master and its slave both carry it, has two receive cycles.\<close>

lemma duplicate_assignment_twice:
  assumes "active (pc_state p)" "pc_message_model p = CLUSTERING" "mq_service_address mq \<noteq> ''''" "mq_key mq \<notin> set (queue_keys p)"
  shows "length (snd (receive_new now fe [] [mq, mq] p)) = 2"
proof -
  let ?p1 = "p\<lparr>pc_queues := pc_queues p @ [(mq, ProcessQueue_new mq fe now)]\<rparr>"
  from receiveMessage_fresh [OF assms(1,4), of now fe] obtain reqs ok where r: "receiveMessage now mq fe p = (?p1, reqs, ok)"
    and "map request_host reqs = [mq_service_address mq]" using assms(3) by auto
  then have "length reqs = 1" by (metis length_map length_Cons list.size(3) One_nat_def)
  moreover obtain pq where "find_queue mq ?p1 = Some pq"
    using find_queue_None [of mq ?p1] by (fastforce simp: queue_keys_def)
  ultimately show ?thesis
    using assms r by (simp add: Let_def receiveMessage_def [of now mq fe ?p1] getOrCreateProcessQueue_def start_receiving_def
        pq_receiveMessage_def popMessage_def consumer_of_def)
qed

section \<open>Properties\<close>

definition demo_consumer :: push_consumer where
  "demo_consumer = \<lparr>pc_state = STARTED, pc_group_name = ''g'', pc_resource_namespace = ''ns'', pc_client_id = ''c'',
     pc_subscriptions = [(''T'', FilterExpression_new ''*'' TAG)], pc_queues = [], pc_listener = Some STANDARD,
     pc_message_model = CLUSTERING, pc_receive_batch_size = 32,
     pc_max_delivery_attempts = 16, pc_thread_pool_size = 20, pc_consume_batch_size = 1, pc_service = None,
     pc_scan_handle = 0\<rparr>"

definition queue_named :: "string \<Rightarrow> int \<Rightarrow> MQMessageQueue" where
  "queue_named broker i = (MQMessageQueue_new ''T'' broker i)\<lparr>mq_service_address := broker @ '':80''\<rparr>"



text \<open>C16: The life of a push consumer keeps it well formed: one process queue per message queue, filed under its own
  queue, one filter per topic, and a thread pool and a batch of at least one.\<close>

theorem push_consumer_ok:
  assumes "push_ok p"
  shows "push_ok (subscribe topic expression ty p) \<and> push_ok (unsubscribe topic p) \<and>
    (n < 2 ^ 31 \<longrightarrow> push_ok (set_consumeThreadPoolSize n p)) \<and> push_ok (set_consumeBatchSize m p) \<and>
    push_ok (registerMessageListener l p) \<and>
    push_ok (fst (receiveMessage now mq fe p)) \<and> push_ok (fst (syncProcessQueue now topic assigned fe p)) \<and>
    push_ok (fst (scanAssignments now answers p)) \<and> push_ok (fst (push_shutdown (p, cm))) \<and>
    (push_start has_resolver route self (p, cm) = Running (p', cm') \<longrightarrow> push_ok p')"
  using assms by (simp add: subscribe_ok unsubscribe_ok setters_ok receiveMessage_ok syncProcessQueue_ok scan_ok shutdown_ok start_ok [of p])

theorem push_consumer_ok_witness:
  "push_ok demo_consumer \<and> push_ok (set_consumeThreadPoolSize 8 demo_consumer) \<and>
   push_ok (fst (push_shutdown (demo_consumer, ClientManager_new ''ns'' 1 0 0)))"
proof -
  have "push_ok demo_consumer" by (simp add: push_ok_def queue_keys_def demo_consumer_def)
  with push_consumer_ok [of demo_consumer, where n = 8 and cm = "ClientManager_new ''ns'' 1 0 0"] show ?thesis by simp
qed

text \<open>A scan changes no process queue of a topic for which no non-empty assignment came back, subscribed or not.
  So a consumer from which the load balancer takes the last queue of a topic goes on receiving from it, as does one
  that unsubscribed.\<close>

theorem unreported_queues_stay:
  assumes "\<And>topic ec qs mq. (ec, Some qs) \<in> set (answers topic) \<Longrightarrow> mq \<in> set qs \<Longrightarrow> mq_topic mq = topic"
    and "t \<in> fst ` set (pc_subscriptions p) \<Longrightarrow> \<forall>(ec, a) \<in> set (answers t). ec \<noteq> Success \<or> a = None \<or> a = Some []"
  shows "filter (\<lambda>e. mq_topic (fst e) = t) (pc_queues (fst (scanAssignments now answers p))) =
    filter (\<lambda>e. mq_topic (fst e) = t) (pc_queues p)"
proof (rule scan_invariant [where q = p])
  fix entry a and p' :: push_consumer
  assume entry: "entry \<in> set (pc_subscriptions p)" "a \<in> set (answers (fst entry))"
    and same: "filter (\<lambda>e. mq_topic (fst e) = t) (pc_queues p') = filter (\<lambda>e. mq_topic (fst e) = t) (pc_queues p)"
  show "filter (\<lambda>e. mq_topic (fst e) = t) (pc_queues (fst (scan_callback now entry a p'))) = filter (\<lambda>e. mq_topic (fst e) = t) (pc_queues p)"
  proof (cases "fst entry = t")
    case True
    with entry assms(2) same show ?thesis by (force simp: scan_callback_def split: prod.split option.split)
  next
    case False
    have "filter (\<lambda>e. mq_topic (fst e) = t) (pc_queues (fst (syncProcessQueue now (fst entry) qs (snd entry) p'))) =
        filter (\<lambda>e. mq_topic (fst e) = t) (pc_queues p')" if "a = (Success, Some qs)" for qs
      using sync_other_topic [where topic = "fst entry" and t = t and assigned = qs and p = p'] False entry(2) that assms(1) by blast
    with same show ?thesis by (auto simp: scan_callback_def split: prod.split option.split)
  qed
qed simp_all

theorem unreported_queues_stay_witness:
  "map fst (pc_queues (fst (scanAssignments 5 (\<lambda>_. [(Success, Some [])])
     (demo_consumer\<lparr>pc_queues := [(queue_named ''a'' 0, ProcessQueue_new (queue_named ''a'' 0) (FilterExpression_new ''*'' TAG) 0)]\<rparr>)))) =
   [queue_named ''a'' 0]"
proof -
  let ?p = "demo_consumer\<lparr>pc_queues := [(queue_named ''a'' 0, ProcessQueue_new (queue_named ''a'' 0) (FilterExpression_new ''*'' TAG) 0)]\<rparr>"
  have "filter (\<lambda>e. mq_topic (fst e) = ''T'') (pc_queues (fst (scanAssignments 5 (\<lambda>_. [(Success, Some [])]) ?p))) =
      filter (\<lambda>e. mq_topic (fst e) = ''T'') (pc_queues ?p)"
    by (rule unreported_queues_stay) auto
  also have "\<dots> = pc_queues ?p" by (simp add: queue_named_def MQMessageQueue_new_def)
  finally show ?thesis
    by (simp add: scanAssignments_def scan_callback_def demo_consumer_def active_def)
qed

text \<open>\<open>selectBroker\<close> takes the first addressable master partition that has a permission, starting at its counter,
  while the counter is far enough from 32 bits.  Near them, and when no partition qualifies, its loop never ends: the
  32-bit index never reaches the 64-bit limit.\<close>

theorem selectBroker_result:
  assumes "rd_partitions r \<noteq> []" "length (rd_partitions r) < 2 ^ 63"
  shows "(unat (which + 1) + length (rd_partitions r) < 2 ^ 32 \<longrightarrow>
      selectBroker which (Some r) = (which + 1, Some (map_option (broker_serviceAddress \<circ> p_broker)
        (find eligible (rotate (unat (which + 1)) (rd_partitions r)))))) \<and>
    (2 ^ 32 \<le> unat (which + 1) + length (rd_partitions r) \<and> \<not> list_ex eligible (rd_partitions r) \<longrightarrow>
      selectBroker which (Some r) = (which + 1, None))"
proof (intro conjI impI)
  let ?ps = "rd_partitions r" let ?i = "which + 1"
  assume "unat ?i + length ?ps < 2 ^ 32"
  then have "select_loop ?ps (ucast ?i + of_nat (length ?ps)) ?i =
      Some (map_option (broker_serviceAddress \<circ> p_broker) (find eligible (map (\<lambda>j. ?ps ! ((unat ?i + j) mod length ?ps)) [0..<length ?ps])))"
    using select_loop_from [of ?i ?ps 0] by simp
  moreover have "map (\<lambda>j. ?ps ! ((unat ?i + j) mod length ?ps)) [0..<length ?ps] = rotate (unat ?i) ?ps"
    by (rule nth_equalityI) (simp_all add: nth_rotate)
  ultimately show "selectBroker which (Some r) = (?i, Some (map_option (broker_serviceAddress \<circ> p_broker) (find eligible (rotate (unat ?i) ?ps))))"
    using assms(1) by (simp add: selectBroker_def Let_def)
next
  let ?ps = "rd_partitions r" let ?i = "which + 1"
  assume "2 ^ 32 \<le> unat ?i + length ?ps \<and> \<not> list_ex eligible ?ps"
  then have "select_loop ?ps (ucast ?i + of_nat (length ?ps)) ?i = None"
    using assms by (intro select_loop_spins) (simp_all add: word_limit)
  with assms(1) show "selectBroker which (Some r) = (?i, None)" by (simp add: selectBroker_def Let_def)
qed

definition slave_route :: TopicRouteData where
  "slave_route = TopicRouteData_new
     [\<lparr>p_topic = \<lparr>t_resource_namespace = [], t_name = ''T''\<rparr>,
       p_broker = \<lparr>b_name = ''a'', b_id = 1, b_service_address = ServiceAddress_new IPv4 [\<lparr>a_host = ''h'', a_port = 80\<rparr>]\<rparr>,
       p_id = 0, p_permission = READ_WRITE\<rparr>] []"

theorem selectBroker_result_witness:
  "selectBroker 0 (Some slave_route) = (1, Some None) \<and> selectBroker (- 2) (Some slave_route) = (- 1, None)"
proof -
  have ps: "length (rd_partitions slave_route) = 1" "\<not> list_ex eligible (rd_partitions slave_route)"
    by (simp_all add: slave_route_def TopicRouteData_new_def eligible_def)
  then have ne: "rd_partitions slave_route \<noteq> []" by auto
  have "find eligible (rotate 1 (rd_partitions slave_route)) = None" using ps(2) by (auto simp: find_None_iff list_ex_iff)
  moreover have "unat (- 1 :: u32) = 4294967295" by code_simp
  ultimately show ?thesis
    using selectBroker_result [OF ne, of 0] selectBroker_result [OF ne, of "- 2"] ps by simp
qed

text \<open>A pull that fails in transport sets the offset of its process queue to 0, whatever it was.  The consumer
  asks again later, from offset 0: every message of the queue is delivered once more.\<close>

theorem failed_pull_rewinds:
  assumes "pullMessage_completion z ns t host blank False response h = Some (Some (ec, result), h')"
    and "pull_callback c now ec result pq svc = (pq', svc', loop)" "cv_active c" "cv_message_model c = BROADCASTING"
  shows "loop = Later \<and> svc' = svc \<and> pq' = pq\<lparr>pq_next_offset := 0\<rparr> \<and>
    (\<exists>req. snd (pq_receiveMessage (Some c) later pq') = Some (Pull (mq_service_address (pq_message_queue pq)) req) \<and> pmr_offset req = 0)"
  using assms
  by (auto simp: pullMessage_completion_def pull_callback_def onCompletion_def empty_result_def set_nextOffset_def
      pq_receiveMessage_def pullMessage_def wrapPullMessageRequest_def Let_def)


theorem failed_pull_rewinds_witness:
  "\<exists>req. snd (pq_receiveMessage (Some (demo_view\<lparr>cv_message_model := BROADCASTING\<rparr>)) 9
      (fst (pull_callback (demo_view\<lparr>cv_message_model := BROADCASTING\<rparr>) 5 RequestTimeout (empty_result\<lparr>rr_source_host := ''h''\<rparr>)
        (ProcessQueue_new demo_queue (FilterExpression_new ''*'' TAG) 0\<lparr>pq_next_offset := 500\<rparr>) (ConsumeMessageService_new 1)))) =
    Some (Pull ''ipv4:10.0.0.1:80'' req) \<and> pmr_offset req = 0"
proof -
  let ?c = "demo_view\<lparr>cv_message_model := BROADCASTING\<rparr>" and ?r = "empty_result\<lparr>rr_source_host := ''h''\<rparr>"
  let ?pq = "ProcessQueue_new demo_queue (FilterExpression_new ''*'' TAG) 0\<lparr>pq_next_offset := 500\<rparr>"
  let ?resp = "\<lparr>pr_code = OK, pr_min_offset = 0, pr_next_offset = 0, pr_max_offset = 0, pr_messages = []\<rparr>"
  obtain pq' svc' loop where run: "pull_callback ?c 5 RequestTimeout ?r ?pq (ConsumeMessageService_new 1) = (pq', svc', loop)"
    by (rule prod_cases3)
  have "pullMessage_completion plain_codec [] 0 ''h'' blank False ?resp h = Some (Some (RequestTimeout, ?r), h)" for blank h
    by (simp add: pullMessage_completion_def)
  moreover have "cv_active ?c" "cv_message_model ?c = BROADCASTING" by (simp_all add: demo_view_def)
  ultimately have "\<exists>req. snd (pq_receiveMessage (Some ?c) 9 pq') = Some (Pull (mq_service_address (pq_message_queue ?pq)) req) \<and> pmr_offset req = 0"
    using failed_pull_rewinds [OF _ run] by blast
  moreover have "mq_service_address (pq_message_queue ?pq) = ''ipv4:10.0.0.1:80''" by (simp add: ProcessQueue_new_def demo_queue_def)
  ultimately show ?thesis unfolding run fst_conv by simp
qed

end
