(* ===== verification/PullConsumer.thy ===== *)
theory PullConsumer
  imports PushConsumer
begin

text \<open>
  The pull consumer (rocketmq/PullConsumerImpl.cpp, rocketmq/AwaitPullCallback.cpp): its life cycle, the queues of a
  topic, offset queries and pulls.  Times are in nanoseconds.
\<close>

section \<open>State and life cycle\<close>

record pull_consumer =
  pl_state :: State
  pl_group_name :: string
  pl_resource_namespace :: string
  pl_client_id :: string
  pl_message_model :: MessageModel

text \<open>\<open>None\<close>: the abort of a client without a name server resolver.  The flag tells whether the consumer was
  registered with the client manager.\<close>

definition pull_start :: "bool \<Rightarrow> pull_consumer \<Rightarrow> (pull_consumer \<times> bool) option" where
  "pull_start has_resolver p =
     (case client_start has_resolver (pl_state p) of
        None \<Rightarrow> None
      | Some st \<Rightarrow> Some (p\<lparr>pl_state := st\<rparr>, st = STARTED))"

definition pull_notifyClientTermination :: "pull_consumer \<Rightarrow> NotifyClientTerminationRequest" where
  "pull_notifyClientTermination p =
     \<lparr>nctr_group = ConsumerGroup \<lparr>t_resource_namespace = pl_resource_namespace p, t_name = pl_group_name p\<rparr>,
      nctr_client_id = pl_client_id p\<rparr>"

definition pull_shutdown :: "route_table \<Rightarrow> pull_consumer \<Rightarrow> pull_consumer \<times> (string \<times> NotifyClientTerminationRequest) set" where
  "pull_shutdown tbl p =
     (p\<lparr>pl_state := fst (compare_exchange_strong (client_shutdown (pl_state p)) STOPPING STOPPED)\<rparr>,
      (\<lambda>host. (host, pull_notifyClientTermination p)) ` termination_hosts tbl)"

record PullHeartbeat =
  plhb_client_id :: string
  plhb_group :: Topic
  plhb_consume_model :: MessageModel

definition pull_prepareHeartbeatData :: "pull_consumer \<Rightarrow> PullHeartbeat" where
  "pull_prepareHeartbeatData p =
     \<lparr>plhb_client_id = pl_client_id p,
      plhb_group = \<lparr>t_resource_namespace = pl_resource_namespace p, t_name = pl_group_name p\<rparr>,
      plhb_consume_model = pl_message_model p\<rparr>"

section \<open>Queues, offsets and pulls\<close>

text \<open>The value of the future: an exception with an error code, or the result; \<open>None\<close> when it is never set or a
  null route is dereferenced.\<close>

definition queuesFor :: "route_table \<Rightarrow> (string \<Rightarrow> route_answer) \<Rightarrow> string \<Rightarrow> (ErrorCode + MQMessageQueue list) option" where
  "queuesFor tbl route topic =
     (case map_of tbl topic of
        Some r \<Rightarrow> Some (Inr (map asMessageQueue (rd_partitions r)))
      | None \<Rightarrow>
          (case route topic of
             None \<Rightarrow> None
           | Some (ec, r) \<Rightarrow>
               if ec_bool ec then Some (Inl ec)
               else map_option (\<lambda>r. Inr (map asMessageQueue (rd_partitions r))) r))"

definition ToInt64Seconds :: "int \<Rightarrow> int" where
  "ToInt64Seconds ns = (if ns < 0 then - (- ns div 1000000000) else ns div 1000000000)"

definition set_duration :: "int \<Rightarrow> int \<times> int" where
  "set_duration ns = (let seconds = ToInt64Seconds ns in (seconds, ns - seconds * 1000000000))"

record OffsetQuery =
  oq_message_queue :: MQMessageQueue
  oq_policy :: QueryOffsetPolicy
  oq_time_point :: int

record PullOffsetRequest =
  por_topic :: Topic
  por_partition_id :: int
  por_policy :: QueryOffsetPolicy
  por_time_point :: "(int \<times> int) option"

definition queryOffset :: "pull_consumer \<Rightarrow> OffsetQuery \<Rightarrow> string \<times> PullOffsetRequest" where
  "queryOffset p q =
     (mq_service_address (oq_message_queue q),
      \<lparr>por_topic = \<lparr>t_resource_namespace = pl_resource_namespace p, t_name = mq_topic (oq_message_queue q)\<rparr>,
       por_partition_id = mq_queue_id (oq_message_queue q), por_policy = oq_policy q,
       por_time_point = (case oq_policy q of TIME_POINT \<Rightarrow> Some (set_duration (oq_time_point q)) | _ \<Rightarrow> None)\<rparr>)"

definition queryOffset_future :: "bool \<Rightarrow> RpcCode \<Rightarrow> int \<Rightarrow> ErrorCode + int" where
  "queryOffset_future ok code offset =
     (let ec = queryOffset_completion ok code in if ec_bool ec then Inl ec else Inr offset)"

record PullMessageQuery =
  pmq_message_queue :: MQMessageQueue
  pmq_offset :: int
  pmq_batch_size :: int
  pmq_await_time :: int
  pmq_timeout :: int

record PullRequest =
  plr_group :: Topic
  plr_topic :: Topic
  plr_partition_id :: int
  plr_offset :: int
  plr_await_time :: "int \<times> int"
  plr_client_id :: string

text \<open>\<open>None\<close>: the assertion on the address failed.  The batch size and the timeout of the query are not used.\<close>

definition pull :: "pull_consumer \<Rightarrow> PullMessageQuery \<Rightarrow> (string \<times> PullRequest) option" where
  "pull p q =
     (let mq = pmq_message_queue q; ns = pl_resource_namespace p
      in if mq_service_address mq = '''' then None
         else Some (mq_service_address mq,
           \<lparr>plr_group = \<lparr>t_resource_namespace = ns, t_name = pl_group_name p\<rparr>,
            plr_topic = \<lparr>t_resource_namespace = ns, t_name = mq_topic mq\<rparr>,
            plr_partition_id = mq_queue_id mq, plr_offset = pmq_offset q,
            plr_await_time = set_duration (pmq_await_time q), plr_client_id = pl_client_id p\<rparr>))"

record PullResult =
  plres_min :: int
  plres_max :: int
  plres_next :: int
  plres_messages :: "MQMessage list"

definition on_pulled :: "ErrorCode \<Rightarrow> ReceiveMessageResult \<Rightarrow> ErrorCode + PullResult" where
  "on_pulled ec r =
     (if ec_bool ec then Inl ec
      else Inr \<lparr>plres_min = rr_min_offset r, plres_max = rr_max_offset r, plres_next = rr_next_offset r,
                plres_messages = rr_messages r\<rparr>)"

text \<open>The synchronous \<open>pull\<close>: the callback's argument becomes the out parameter and the return value.  \<open>None\<close>: it
  waits for ever.\<close>

definition pull_sync :: "PullResult \<Rightarrow> (ErrorCode + PullResult) option \<Rightarrow> (PullResult \<times> bool) option" where
  "pull_sync out outcome = map_option (\<lambda>o1. case o1 of Inl _ \<Rightarrow> (out, False) | Inr r \<Rightarrow> (r, True)) outcome"

section \<open>Lemmas\<close>

lemma set_duration_exact:
  assumes "set_duration ns = (s, n)"
  shows "s * 1000000000 + n = ns \<and> \<bar>n\<bar> < 1000000000 \<and> (n < 0 \<longrightarrow> ns < 0)"
proof (cases "ns < 0")
  case True
  with assms have "s = - (- ns div 1000000000)" "n = ns - s * 1000000000"
    by (auto simp: set_duration_def ToInt64Seconds_def Let_def)
  with True show ?thesis
    using div_mult_mod_eq [of "- ns" 1000000000] pos_mod_sign [of 1000000000 "- ns"] pos_mod_bound [of 1000000000 "- ns"] by linarith
next
  case False
  with assms have "s = ns div 1000000000" "n = ns mod 1000000000"
    using div_mult_mod_eq [of ns 1000000000] by (auto simp: set_duration_def ToInt64Seconds_def Let_def)
  then show ?thesis
    using div_mult_mod_eq [of ns 1000000000] pos_mod_sign [of 1000000000 ns] pos_mod_bound [of 1000000000 ns] by linarith
qed

text \<open>A pull consumer never becomes \<open>STARTED\<close>, is never registered and never \<open>STOPPED\<close>.\<close>

lemma pull_consumer_life_cycle:
  assumes "pl_state p = CREATED" "pull_start True p = Some (p', registered)"
  shows "pl_state p' = STARTING \<and> \<not> registered \<and> pl_state (fst (pull_shutdown tbl p')) = STARTING"
  using assms by (auto simp: pull_start_def client_start_def compare_exchange_strong_def pull_shutdown_def client_shutdown_def)

end
