(* ===== verification/OnsProperty.thy ===== *)
theory OnsProperty
  imports ProcessQueue
begin

text \<open>
  Configuration of the ONS layer: the properties of a factory (ons/ONSFactoryProperty.cpp and
  ons/ONSEnvironmentVariableFactoryProperty.cpp), access points (ons/AccessPoint.cpp, ons/InstanceUtil.cpp), the
  constructors that turn properties into the options of a client (ons/ProducerImpl.cpp, ons/OrderProducerImpl.cpp,
  ons/TransactionProducerImpl.cpp, ons/ONSConsumerAbstract.cpp) and the factory (ons/ONSFactoryInstance.cpp).  The
  parsed configuration file and the environment are arguments.
\<close>

section \<open>Parameters: more of Abseil\<close>

record absl_text = absl_strings +
  AsciiStrToLower :: "string \<Rightarrow> string"
  StrReplaceAll :: "string \<Rightarrow> (string \<times> string) list \<Rightarrow> string"
  StripAsciiWhitespace :: "string \<Rightarrow> string"

definition ascii_lower :: "char \<Rightarrow> char" where
  "ascii_lower c = (if 65 \<le> (of_char c :: nat) \<and> (of_char c :: nat) \<le> 90 then char_of (of_char c + 32 :: nat) else c)"

definition strip_space :: "string \<Rightarrow> string" where
  "strip_space s = rev (dropWhile is_space (rev (dropWhile is_space s)))"

definition absl_text_ok :: "absl_text \<Rightarrow> bool" where
  "absl_text_ok A \<longleftrightarrow>
     absl_ok (absl_strings.truncate A) \<and>
     (\<forall>s. AsciiStrToLower A s = map ascii_lower s) \<and>
     (\<forall>s c d. StrReplaceAll A s [([c], [d])] = map (\<lambda>x. if x = c then d else x) s) \<and>
     (\<forall>s. StripAsciiWhitespace A s = strip_space s)"

definition absl_text_ref :: absl_text where
  "absl_text_ref = absl_strings.extend absl_ref
     \<lparr>AsciiStrToLower = map ascii_lower,
      StrReplaceAll = (\<lambda>s rs. case rs of [([c], [d])] \<Rightarrow> map (\<lambda>x. if x = c then d else x) s | _ \<Rightarrow> s),
      StripAsciiWhitespace = strip_space\<rparr>"

section \<open>Properties\<close>

abbreviation AccessKey :: string where "AccessKey \<equiv> ''AccessKey''"
abbreviation SecretKey :: string where "SecretKey \<equiv> ''SecretKey''"
abbreviation GroupId :: string where "GroupId \<equiv> ''GroupId''"
abbreviation ProducerId :: string where "ProducerId \<equiv> ''ProducerId''"
abbreviation ConsumerId :: string where "ConsumerId \<equiv> ''ConsumerId''"
abbreviation KeyMessageModel :: string where "KeyMessageModel \<equiv> ''MessageModel''"
abbreviation SendMsgTimeoutMillis :: string where "SendMsgTimeoutMillis \<equiv> ''SendMsgTimeoutMillis''"
abbreviation SuspendTimeMillis :: string where "SuspendTimeMillis \<equiv> ''SuspendTimeMillis''"
abbreviation SendMsgRetryTimes :: string where "SendMsgRetryTimes \<equiv> ''SendMsgRetryTimes''"
abbreviation MaxMsgCacheSize :: string where "MaxMsgCacheSize \<equiv> ''MaxMsgCacheSize''"
abbreviation MaxCachedMessageSizeInMiB :: string where "MaxCachedMessageSizeInMiB \<equiv> ''MaxCachedMessageSizeInMiB''"
abbreviation ONSAddr :: string where "ONSAddr \<equiv> ''ONSAddr''"
abbreviation NAMESRV_ADDR :: string where "NAMESRV_ADDR \<equiv> ''NAMESRV_ADDR''"
abbreviation ConsumeThreadNums :: string where "ConsumeThreadNums \<equiv> ''ConsumeThreadNums''"
abbreviation OnsChannel :: string where "OnsChannel \<equiv> ''OnsChannel''"
abbreviation OnsTraceSwitch :: string where "OnsTraceSwitch \<equiv> ''OnsTraceSwitch''"
abbreviation InstanceId :: string where "InstanceId \<equiv> ''InstanceId''"

datatype ONSChannel = CLOUD | ALIYUN | ALL_CHANNELS | LOCAL | INNER

text \<open>What leaves a call as an exception; the link to the FAQ that ends the message is left out.\<close>

datatype ons_exception = ONSClientException string | StoiException stoi_error

record factory_property =
  fp_property_map :: "string \<rightharpoonup> string"
  fp_throttle :: "string \<rightharpoonup> u32"

definition and_then :: "'e + 'a \<Rightarrow> ('a \<Rightarrow> 'e + 'b) \<Rightarrow> 'e + 'b" where
  "and_then x f = (case x of Inl e \<Rightarrow> Inl e | Inr a \<Rightarrow> f a)"

definition validate_property :: "string \<Rightarrow> string \<Rightarrow> ons_exception option" where
  "validate_property key v =
     (if key = KeyMessageModel \<and> v \<noteq> ''BROADCASTING'' \<and> v \<noteq> ''CLUSTERING''
      then Some (ONSClientException ''MessageModel could only be set to BROADCASTING or CLUSTERING, please set it.'')
      else if key = AccessKey \<and> v = '''' then Some (ONSClientException ''AccessKey must be set.'')
      else if key = SecretKey \<and> v = '''' then Some (ONSClientException ''SecretKey must be set.'')
      else None)"

definition setFactoryProperty :: "string \<Rightarrow> string \<Rightarrow> factory_property \<Rightarrow> ons_exception + factory_property" where
  "setFactoryProperty key v p =
     (case validate_property key v of
        Some e \<Rightarrow> Inl e
      | None \<Rightarrow> Inr (p\<lparr>fp_property_map := (fp_property_map p)(key \<mapsto> v)\<rparr>))"

definition setMessageModel :: "MessageModel \<Rightarrow> factory_property \<Rightarrow> ons_exception + factory_property" where
  "setMessageModel model p =
     (case model of
        CLUSTERING \<Rightarrow> setFactoryProperty KeyMessageModel ''CLUSTERING'' p
      | BROADCASTING \<Rightarrow> setFactoryProperty KeyMessageModel ''BROADCASTING'' p)"

definition setSendMsgTimeout :: "int \<Rightarrow> factory_property \<Rightarrow> ons_exception + factory_property" where
  "setSendMsgTimeout ms p = setFactoryProperty SendMsgTimeoutMillis (to_string ms) p"

definition setSuspendDuration :: "int \<Rightarrow> factory_property \<Rightarrow> ons_exception + factory_property" where
  "setSuspendDuration ms p = (if ms = 0 then Inr p else setFactoryProperty SuspendTimeMillis (to_string ms) p)"

definition setSendMsgRetryTimes :: "int \<Rightarrow> factory_property \<Rightarrow> ons_exception + factory_property" where
  "setSendMsgRetryTimes n p = setFactoryProperty SendMsgRetryTimes (to_string n) p"

definition setMaxMsgCacheSize :: "int \<Rightarrow> factory_property \<Rightarrow> ons_exception + factory_property" where
  "setMaxMsgCacheSize n p = setFactoryProperty MaxMsgCacheSize (to_string n) p"

definition setOnsTraceSwitch :: "bool \<Rightarrow> factory_property \<Rightarrow> ons_exception + factory_property" where
  "setOnsTraceSwitch on p = setFactoryProperty OnsTraceSwitch (if on then ''true'' else ''false'') p"

definition channel_name :: "ONSChannel \<Rightarrow> string" where
  "channel_name ch =
     (case ch of CLOUD \<Rightarrow> ''CLOUD'' | ALIYUN \<Rightarrow> ''ALIYUN'' | ALL_CHANNELS \<Rightarrow> ''ALL'' | LOCAL \<Rightarrow> ''LOCAL'' | INNER \<Rightarrow> ''INNER'')"

definition setOnsChannel :: "ONSChannel \<Rightarrow> factory_property \<Rightarrow> ons_exception + factory_property" where
  "setOnsChannel ch p = setFactoryProperty OnsChannel (channel_name ch) p"

text \<open>\<open>throttle\<close> inserts, so the first threshold of a topic stays.\<close>

definition throttle :: "string \<Rightarrow> u32 \<Rightarrow> factory_property \<Rightarrow> factory_property" where
  "throttle topic qps p =
     (case fp_throttle p topic of
        Some _ \<Rightarrow> p
      | None \<Rightarrow> p\<lparr>fp_throttle := (fp_throttle p)(topic \<mapsto> qps)\<rparr>)"

section \<open>Construction\<close>

definition setDefaults :: "factory_property \<Rightarrow> ons_exception + factory_property" where
  "setDefaults p0 =
     and_then (setMessageModel CLUSTERING p0) (\<lambda>p1.
     and_then (setSendMsgTimeout 3000 p1) (\<lambda>p2.
     and_then (setSuspendDuration 3000 p2) (\<lambda>p3.
     and_then (setFactoryProperty MaxMsgCacheSize ''1000'' p3) (\<lambda>p4.
     setOnsTraceSwitch True p4))))"

text \<open>Set the keys for which there is a value, in this order.\<close>

fun set_each :: "(string \<Rightarrow> string option) \<Rightarrow> string list \<Rightarrow> factory_property \<Rightarrow> ons_exception + factory_property" where
  "set_each vals [] p = Inr p"
| "set_each vals (k # ks) p =
     (case vals k of
        None \<Rightarrow> set_each vals ks p
      | Some v \<Rightarrow> and_then (setFactoryProperty k v p) (set_each vals ks))"

text \<open>\<open>config\<close>: the fields of the configuration file as strings, \<open>None\<close> when there is no file or it cannot be
  parsed.  A field that is not a string reads as the empty string.\<close>

definition loadConfigFile :: "(string \<rightharpoonup> string) option \<Rightarrow> factory_property \<Rightarrow> ons_exception + factory_property" where
  "loadConfigFile config p =
     (case config of
        None \<Rightarrow> Inr p
      | Some vals \<Rightarrow> set_each vals [AccessKey, SecretKey, NAMESRV_ADDR, GroupId] p)"

definition ONSFactoryProperty_new :: "(string \<rightharpoonup> string) option \<Rightarrow> ons_exception + factory_property" where
  "ONSFactoryProperty_new config =
     and_then (setDefaults \<lparr>fp_property_map = Map.empty, fp_throttle = Map.empty\<rparr>) (loadConfigFile config)"

definition parseEnvironmentVariables :: "(string \<rightharpoonup> string) \<Rightarrow> factory_property \<Rightarrow> ons_exception + factory_property" where
  "parseEnvironmentVariables getenv p =
     set_each (\<lambda>k. case getenv k of None \<Rightarrow> None | Some v \<Rightarrow> if v = '''' then None else Some v)
       [AccessKey, SecretKey, GroupId, NAMESRV_ADDR] p"

definition ONSEnvironmentVariableFactoryProperty_new ::
  "(string \<rightharpoonup> string) option \<Rightarrow> (string \<rightharpoonup> string) \<Rightarrow> ons_exception + factory_property" where
  "ONSEnvironmentVariableFactoryProperty_new config getenv =
     and_then (ONSFactoryProperty_new config) (\<lambda>p1. and_then (setDefaults p1) (parseEnvironmentVariables getenv))"

section \<open>Getters\<close>

definition fp_getProperty :: "factory_property \<Rightarrow> string \<Rightarrow> string" where
  "fp_getProperty p key = (case fp_property_map p key of None \<Rightarrow> '''' | Some v \<Rightarrow> v)"

definition getProperty_or :: "factory_property \<Rightarrow> string \<Rightarrow> string \<Rightarrow> string" where
  "getProperty_or p key default_value = (let v = fp_getProperty p key in if v = '''' then default_value else v)"

definition getProducerId :: "factory_property \<Rightarrow> string" where
  "getProducerId p =
     (let group_id = fp_getProperty p GroupId in if group_id \<noteq> '''' then group_id else getProperty_or p ProducerId '''')"

definition getConsumerId :: "factory_property \<Rightarrow> string" where
  "getConsumerId p =
     (let group_id = fp_getProperty p GroupId in if group_id \<noteq> '''' then group_id else getProperty_or p ConsumerId '''')"

definition getGroupId :: "factory_property \<Rightarrow> string" where
  "getGroupId p = getProperty_or p GroupId ''''"

definition atoi_or :: "absl_text \<Rightarrow> string \<Rightarrow> int \<Rightarrow> int" where
  "atoi_or A s d = (if s \<noteq> '''' then (case SimpleAtoi A s of Some v \<Rightarrow> v | None \<Rightarrow> d) else d)"

definition getSendMsgTimeout :: "absl_text \<Rightarrow> factory_property \<Rightarrow> int" where
  "getSendMsgTimeout A p = atoi_or A (fp_getProperty p SendMsgTimeoutMillis) 3000"

definition getSuspendTimeMillis :: "absl_text \<Rightarrow> factory_property \<Rightarrow> int" where
  "getSuspendTimeMillis A p = atoi_or A (fp_getProperty p SuspendTimeMillis) 0"

text \<open>The numeric properties read with \<open>std::stoi\<close>: -1 when absent, an exception when not a number.\<close>

definition stoi_property :: "factory_property \<Rightarrow> string \<Rightarrow> ons_exception + int" where
  "stoi_property p key =
     (case fp_property_map p key of
        None \<Rightarrow> Inr (- 1)
      | Some v \<Rightarrow> (case stoi v of Inl e \<Rightarrow> Inl (StoiException e) | Inr n \<Rightarrow> Inr n))"

definition getSendMsgRetryTimes :: "factory_property \<Rightarrow> ons_exception + int" where
  "getSendMsgRetryTimes p = stoi_property p SendMsgRetryTimes"

definition getConsumeThreadNums :: "factory_property \<Rightarrow> ons_exception + int" where
  "getConsumeThreadNums p = stoi_property p ConsumeThreadNums"

definition getMaxMsgCacheSize :: "factory_property \<Rightarrow> ons_exception + int" where
  "getMaxMsgCacheSize p = stoi_property p MaxMsgCacheSize"

definition getMaxMsgCacheSizeInMiB :: "factory_property \<Rightarrow> ons_exception + int" where
  "getMaxMsgCacheSizeInMiB p = stoi_property p MaxCachedMessageSizeInMiB"

definition getOnsChannel :: "factory_property \<Rightarrow> ONSChannel" where
  "getOnsChannel p =
     (let v = getProperty_or p OnsChannel ''ALIYUN''
      in if v = ''CLOUD'' then CLOUD else if v = ''ALIYUN'' then ALIYUN else if v = ''ALL'' then ALL_CHANNELS
         else if v = ''LOCAL'' then LOCAL else if v = ''INNER'' then INNER else ALIYUN)"

definition getOnsTraceSwitch :: "factory_property \<Rightarrow> bool" where
  "getOnsTraceSwitch p \<longleftrightarrow> getProperty_or p OnsTraceSwitch ''true'' = ''true''"

definition fp_bool :: "factory_property \<Rightarrow> bool" where
  "fp_bool p \<longleftrightarrow>
     (case getOnsChannel p of
        ALIYUN \<Rightarrow> getProperty_or p AccessKey '''' \<noteq> '''' \<and> getProperty_or p SecretKey '''' \<noteq> ''''
      | _ \<Rightarrow> True)"

section \<open>Access points\<close>

record access_point =
  ap_access_point :: string
  ap_resource_namespace :: string

definition AccessPoint_new :: "absl_text \<Rightarrow> string \<Rightarrow> access_point" where
  "AccessPoint_new A s =
     \<lparr>ap_access_point = s, ap_resource_namespace = hd (StrSplit A (StripPrefix A s ''http://'') (CHR ''.''))\<rparr>"

definition ap_bool :: "absl_text \<Rightarrow> access_point \<Rightarrow> bool" where
  "ap_bool A ap \<longleftrightarrow> StartsWith A (ap_access_point ap) ''http://MQ_INST_'' \<and> StrContains A (ap_access_point ap) (CHR ''.'')"

definition nameServerAddress :: "absl_text \<Rightarrow> access_point \<Rightarrow> string" where
  "nameServerAddress A ap =
     AsciiStrToLower A (StrReplaceAll A (StripPrefix A (ap_access_point ap) ''http://'') [(''_'', ''-'')])"

text \<open>\<open>std::string::find\<close> of a character, and of a prefix at position 0.\<close>

definition find_char :: "char \<Rightarrow> string \<Rightarrow> nat option" where
  "find_char c s = (if c \<in> set s then Some (length (takeWhile (\<lambda>x. x \<noteq> c) s)) else None)"

definition validateInstanceEndpoint :: "string \<Rightarrow> bool" where
  "validateInstanceEndpoint endpoint =
     (if starts_with endpoint ''http://MQ_INST_''
      then (case find_char (CHR ''.'') endpoint of Some i \<Rightarrow> length ''http://MQ_INST_'' < i | None \<Rightarrow> False)
      else False)"

text \<open>\<open>substr\<close> throws \<open>std::out_of_range\<close> (\<open>None\<close>) when the endpoint is shorter than the scheme.  The length
  argument wraps to a huge one when the dot is missing or inside the scheme, and the rest of the endpoint is taken.\<close>

definition parseInstanceIdFromEndpoint :: "string \<Rightarrow> string option" where
  "parseInstanceIdFromEndpoint endpoint =
     (if endpoint = '''' then Some ''''
      else if length endpoint < 7 then None
      else (case find_char (CHR ''.'') endpoint of
              Some i \<Rightarrow> if 7 \<le> i then Some (take (i - 7) (drop 7 endpoint)) else Some (drop 7 endpoint)
            | None \<Rightarrow> Some (drop 7 endpoint)))"

definition validateNameSrvAddr :: "string \<Rightarrow> bool" where
  "validateNameSrvAddr s \<longleftrightarrow> starts_with s ''http://'' \<and> length ''http://'' < length s"

section \<open>Clients\<close>

datatype name_server_option = NamesrvAddr string | DiscoveryEndpoint string

record client_options =
  co_group :: string
  co_timeout :: "int option"
  co_instance_name :: string
  co_max_attempt_times :: "int option"
  co_credentials :: "string \<times> string"
  co_resource_namespace :: "string option"
  co_name_server :: "name_server_option option"
  co_tracing :: "bool option"
  co_message_model :: "MessageModel option"
  co_thread_count :: "int option"

definition instance_name :: "absl_text \<Rightarrow> factory_property \<Rightarrow> string" where
  "instance_name A p =
     (let name = StripAsciiWhitespace A (getProperty_or p InstanceId '''')
      in if name = '''' then ''DefaultInstanceName'' else name)"

definition name_server_option_of :: "absl_text \<Rightarrow> factory_property \<Rightarrow> string option \<times> name_server_option option" where
  "name_server_option_of A p =
     (let ap = AccessPoint_new A (getProperty_or p NAMESRV_ADDR '''')
      in if ap_bool A ap then (Some (ap_resource_namespace ap), Some (NamesrvAddr (nameServerAddress A ap)))
         else if getProperty_or p NAMESRV_ADDR '''' \<noteq> '''' then (None, Some (NamesrvAddr (getProperty_or p NAMESRV_ADDR '''')))
         else if getProperty_or p ONSAddr '''' \<noteq> '''' then (None, Some (DiscoveryEndpoint (getProperty_or p ONSAddr '''')))
         else (None, None))"

text \<open>The three producers differ in the property their group comes from and in whether they set tracing.\<close>

definition producer_options ::
  "absl_text \<Rightarrow> string \<Rightarrow> bool option \<Rightarrow> factory_property \<Rightarrow> ons_exception + client_options" where
  "producer_options A grp tracing p =
     and_then (getSendMsgRetryTimes p) (\<lambda>retries.
       let ms = getSendMsgTimeout A p; (ns, server) = name_server_option_of A p
       in Inr \<lparr>co_group = grp, co_timeout = (if ms \<noteq> 0 then Some ms else None), co_instance_name = instance_name A p,
            co_max_attempt_times = (if retries > 0 then Some retries else None),
            co_credentials = (getProperty_or p AccessKey '''', getProperty_or p SecretKey ''''),
            co_resource_namespace = ns, co_name_server = server, co_tracing = tracing,
            co_message_model = None, co_thread_count = None\<rparr>)"

definition ProducerImpl_options :: "absl_text \<Rightarrow> factory_property \<Rightarrow> ons_exception + client_options" where
  "ProducerImpl_options A p = producer_options A (getProducerId p) (Some (getOnsTraceSwitch p)) p"

definition OrderProducerImpl_options :: "absl_text \<Rightarrow> factory_property \<Rightarrow> ons_exception + client_options" where
  "OrderProducerImpl_options A p = producer_options A (getGroupId p) None p"

definition TransactionProducerImpl_options :: "absl_text \<Rightarrow> factory_property \<Rightarrow> ons_exception + client_options" where
  "TransactionProducerImpl_options A p = producer_options A (getGroupId p) None p"

text \<open>The consumer sets the thread count whenever it is positive; the later check against 1024 only sets it again.
  The name server is first set from the access point, valid or not, and then replaced.\<close>

definition ONSConsumerAbstract_options :: "absl_text \<Rightarrow> factory_property \<Rightarrow> ons_exception + client_options" where
  "ONSConsumerAbstract_options A p =
     and_then (getConsumeThreadNums p) (\<lambda>n.
       let first = (if n > 0 then Some n else None);
           (ns, server) = name_server_option_of A p;
           server' = (case server of
             None \<Rightarrow> Some (NamesrvAddr (nameServerAddress A (AccessPoint_new A (getProperty_or p NAMESRV_ADDR ''''))))
           | Some s \<Rightarrow> Some s)
       in Inr \<lparr>co_group = getConsumerId p, co_timeout = None, co_instance_name = instance_name A p, co_max_attempt_times = None,
            co_credentials = (getProperty_or p AccessKey '''', getProperty_or p SecretKey ''''),
            co_resource_namespace = ns, co_name_server = server', co_tracing = Some (getOnsTraceSwitch p),
            co_message_model = Some (if getProperty_or p KeyMessageModel '''' = ''BROADCASTING'' then BROADCASTING else CLUSTERING),
            co_thread_count = (if n > 0 \<and> n \<le> 1024 then Some n else first)\<rparr>)"

section \<open>The factory\<close>

text \<open>Every \<open>create\<close> function of \<open>ONSFactoryInstance\<close> begins with this: the properties of the inner channel are
  overwritten in the caller's object, then the required ones are checked.\<close>

definition inner_defaults :: "factory_property \<Rightarrow> ons_exception + factory_property" where
  "inner_defaults p =
     (if getOnsChannel p = INNER
      then and_then (setOnsTraceSwitch False p) (\<lambda>p1.
           and_then (setFactoryProperty AccessKey ''DefaultKey'' p1) (\<lambda>p2.
           and_then (setFactoryProperty SecretKey ''DefaultKey'' p2) (\<lambda>p3.
           setFactoryProperty NAMESRV_ADDR ''LocalDefault'' p3)))
      else Inr p)"

record factory =
  fa_producers :: "client_options list"
  fa_order_producers :: "client_options list"
  fa_transaction_producers :: "client_options list"
  fa_consumers :: "client_options list"
  fa_order_consumers :: "client_options list"

text \<open>The caller's properties are returned as well, since they may have been overwritten, also when the creation fails.\<close>

definition create_client ::
  "(factory_property \<Rightarrow> ons_exception + client_options) \<Rightarrow> (client_options \<Rightarrow> factory \<Rightarrow> factory) \<Rightarrow>
   factory_property \<Rightarrow> factory \<Rightarrow> factory_property \<times> (ons_exception + factory)" where
  "create_client options add p f =
     (case inner_defaults p of
        Inl e \<Rightarrow> (p, Inl e)
      | Inr p' \<Rightarrow>
          (p', if \<not> fp_bool p' then Inl (ONSClientException ''Required configuration items are missing'')
               else and_then (options p') (\<lambda>c. Inr (add c f))))"

definition createProducer :: "absl_text \<Rightarrow> factory_property \<Rightarrow> factory \<Rightarrow> factory_property \<times> (ons_exception + factory)" where
  "createProducer A = create_client (ProducerImpl_options A) (\<lambda>c f. f\<lparr>fa_producers := fa_producers f @ [c]\<rparr>)"

definition createOrderProducer :: "absl_text \<Rightarrow> factory_property \<Rightarrow> factory \<Rightarrow> factory_property \<times> (ons_exception + factory)" where
  "createOrderProducer A = create_client (OrderProducerImpl_options A) (\<lambda>c f. f\<lparr>fa_order_producers := fa_order_producers f @ [c]\<rparr>)"

definition createTransactionProducer ::
  "absl_text \<Rightarrow> bool \<Rightarrow> factory_property \<Rightarrow> factory \<Rightarrow> factory_property \<times> (ons_exception + factory)" where
  "createTransactionProducer A has_checker = create_client
     (\<lambda>p. if \<not> has_checker
       then Inl (ONSClientException ''Transaction Checker cannot be NULL. Please check your ONS property set.'')
       else TransactionProducerImpl_options A p)
     (\<lambda>c f. f\<lparr>fa_transaction_producers := fa_transaction_producers f @ [c]\<rparr>)"

definition createPullConsumer :: "factory_property \<Rightarrow> factory \<Rightarrow> factory_property \<times> (ons_exception + factory)" where
  "createPullConsumer p f = (p, Inl (ONSClientException ''Pull is not supported for now.''))"

definition createPushConsumer :: "absl_text \<Rightarrow> factory_property \<Rightarrow> factory \<Rightarrow> factory_property \<times> (ons_exception + factory)" where
  "createPushConsumer A = create_client (ONSConsumerAbstract_options A) (\<lambda>c f. f\<lparr>fa_consumers := fa_consumers f @ [c]\<rparr>)"

definition createOrderConsumer :: "absl_text \<Rightarrow> factory_property \<Rightarrow> factory \<Rightarrow> factory_property \<times> (ons_exception + factory)" where
  "createOrderConsumer A = create_client (ONSConsumerAbstract_options A) (\<lambda>c f. f\<lparr>fa_order_consumers := fa_order_consumers f @ [c]\<rparr>)"

section \<open>Lemmas on properties\<close>

lemma absl_text_ref_ok: "absl_text_ok absl_text_ref"
  using absl_ref_ok by (simp add: absl_text_ok_def absl_text_ref_def absl_strings.defs absl_ok_def)

lemma and_then_simps [simp]:
  "and_then (Inl e) f = Inl e" "and_then (Inr a) f = f a"
  by (simp_all add: and_then_def)

lemma and_then_Inr: "and_then x f = Inr b \<longleftrightarrow> (\<exists>a. x = Inr a \<and> f a = Inr b)"
  by (cases x) simp_all

text \<open>The vals that pass validation, and the invariant they give.\<close>

definition accepted :: "string \<Rightarrow> string \<Rightarrow> bool" where
  "accepted key v \<longleftrightarrow> (key = KeyMessageModel \<longrightarrow> v = ''BROADCASTING'' \<or> v = ''CLUSTERING'') \<and>
     (key = AccessKey \<or> key = SecretKey \<longrightarrow> v \<noteq> '''')"

definition fp_ok :: "factory_property \<Rightarrow> bool" where
  "fp_ok p \<longleftrightarrow> (\<forall>key v. fp_property_map p key = Some v \<longrightarrow> accepted key v)"

lemma setFactoryProperty_cases:
  "setFactoryProperty key v p =
     (if accepted key v then Inr (p\<lparr>fp_property_map := (fp_property_map p)(key \<mapsto> v)\<rparr>)
      else Inl (the (validate_property key v)))"
  by (auto simp: setFactoryProperty_def validate_property_def accepted_def)

lemma setFactoryProperty_ok: "fp_ok p \<Longrightarrow> setFactoryProperty key v p = Inr p' \<Longrightarrow> fp_ok p'"
  by (auto simp: setFactoryProperty_cases fp_ok_def split: if_splits)

lemma setDefaults_eq:
  "setDefaults p = Inr (p\<lparr>fp_property_map := (fp_property_map p)(KeyMessageModel \<mapsto> ''CLUSTERING'',
     SendMsgTimeoutMillis \<mapsto> to_string 3000, SuspendTimeMillis \<mapsto> to_string 3000, MaxMsgCacheSize \<mapsto> ''1000'',
     OnsTraceSwitch \<mapsto> ''true'')\<rparr>)"
  by (simp add: setDefaults_def setMessageModel_def setSendMsgTimeout_def setSuspendDuration_def setOnsTraceSwitch_def
      setFactoryProperty_cases accepted_def)

lemma set_each_cases:
  assumes "distinct ks"
  shows "(case set_each vals ks p of
      Inl e \<Rightarrow> \<exists>k \<in> set ks. \<exists>v. vals k = Some v \<and> \<not> accepted k v
    | Inr p' \<Rightarrow> (\<forall>k \<in> set ks. \<forall>v. vals k = Some v \<longrightarrow> accepted k v) \<and>
        fp_throttle p' = fp_throttle p \<and>
        (\<forall>k. fp_property_map p' k = (if k \<in> set ks \<and> vals k \<noteq> None then vals k else fp_property_map p k)))"
  using assms
proof (induction ks arbitrary: p)
  case (Cons k ks)
  show ?case
  proof (cases "vals k")
    case None
    with Cons.prems Cons.IH [of p] show ?thesis by (auto split: sum.splits)
  next
    case (Some v)
    show ?thesis
    proof (cases "accepted k v")
      case True
      with Some Cons.prems Cons.IH [of "p\<lparr>fp_property_map := (fp_property_map p)(k \<mapsto> v)\<rparr>"] show ?thesis
        by (auto simp: setFactoryProperty_cases fun_eq_iff split: sum.splits)
    qed (use Some in \<open>auto simp: setFactoryProperty_cases\<close>)
  qed
qed auto


lemma set_each_accepts:
  assumes "distinct ks" "\<And>k v. k \<in> set ks \<Longrightarrow> vals k = Some v \<Longrightarrow> accepted k v" "fp_ok p"
  obtains p' where "set_each vals ks p = Inr p'" "fp_ok p'"
    "\<And>k. fp_property_map p' k = (if k \<in> set ks \<and> vals k \<noteq> None then vals k else fp_property_map p k)"
proof (cases "set_each vals ks p")
  case (Inl e)
  with set_each_cases [OF assms(1), of vals p] assms(2) have False by auto
  then show ?thesis ..
next
  case (Inr p')
  with set_each_cases [OF assms(1), of vals p]
  have upd: "fp_property_map p' k = (if k \<in> set ks \<and> vals k \<noteq> None then vals k else fp_property_map p k)" for k by simp
  then have "fp_ok p'" using assms(2,3) by (simp add: fp_ok_def split: if_splits)
  with Inr upd show ?thesis by (intro that)
qed

definition from_file :: "(string \<rightharpoonup> string) option \<Rightarrow> string \<Rightarrow> string option" where
  "from_file config k = Option.bind config (\<lambda>vals. vals k)"

definition file_keys :: "string list" where "file_keys = [AccessKey, SecretKey, NAMESRV_ADDR, GroupId]"

lemma ONSFactoryProperty_new_cases:
  "(case ONSFactoryProperty_new config of
     Inl e \<Rightarrow> from_file config AccessKey = Some '''' \<or> from_file config SecretKey = Some ''''
   | Inr p \<Rightarrow> from_file config AccessKey \<noteq> Some '''' \<and> from_file config SecretKey \<noteq> Some '''' \<and> fp_ok p \<and>
       (\<forall>k \<in> set file_keys. fp_property_map p k = from_file config k))"
proof (cases config)
  case None
  then show ?thesis
    by (simp add: ONSFactoryProperty_new_def setDefaults_eq loadConfigFile_def from_file_def file_keys_def fp_ok_def accepted_def)
next
  case (Some vals)
  let ?p0 = "\<lparr>fp_property_map = Map.empty, fp_throttle = Map.empty\<rparr>"
  obtain p1 where p1: "setDefaults ?p0 = Inr p1" by (simp add: setDefaults_eq)
  then have ok: "fp_ok p1" and blank: "\<forall>k \<in> set file_keys. fp_property_map p1 k = None"
    by (auto simp: setDefaults_eq fp_ok_def accepted_def file_keys_def split: if_splits)
  have run: "ONSFactoryProperty_new (Some vals) = set_each vals file_keys p1"
    using Some p1 by (simp add: ONSFactoryProperty_new_def loadConfigFile_def file_keys_def)
  have "distinct file_keys" by (simp add: file_keys_def)
  from set_each_cases [OF this, of vals p1] show ?thesis
  proof (cases "set_each vals file_keys p1")
    case (Inl e)
    with set_each_cases [OF \<open>distinct file_keys\<close>, of vals p1]
    obtain k v where "k \<in> set file_keys" "vals k = Some v" "\<not> accepted k v" by auto
    then have "vals AccessKey = Some [] \<or> vals SecretKey = Some []" by (auto simp: file_keys_def accepted_def)
    with Some Inl show ?thesis by (simp add: run from_file_def)
  next
    case (Inr p2)
    with set_each_cases [OF \<open>distinct file_keys\<close>, of vals p1]
    have acc: "\<forall>k \<in> set file_keys. \<forall>v. vals k = Some v \<longrightarrow> accepted k v"
      and map: "\<forall>k. fp_property_map p2 k = (if k \<in> set file_keys \<and> vals k \<noteq> None then vals k else fp_property_map p1 k)" by simp_all
    have "fp_ok p2" using ok acc map by (auto simp: fp_ok_def split: if_splits)
    moreover have "\<forall>k \<in> set file_keys. fp_property_map p2 k = vals k" using map blank by auto
    moreover have "vals AccessKey \<noteq> Some ''''" "vals SecretKey \<noteq> Some ''''"
      using acc by (auto simp: file_keys_def accepted_def)
    ultimately show ?thesis using Some Inr by (simp add: run from_file_def)
  qed
qed

text \<open>A number that was set is read back.\<close>

lemma timeout_roundtrip:
  assumes "absl_text_ok A" "- (2 ^ 31) \<le> ms" "ms < 2 ^ 31" "setSendMsgTimeout ms p = Inr p'"
  shows "getSendMsgTimeout A p' = ms"
proof -
  have "SimpleAtoi A (to_string ms) = Some ms"
    using absl_SimpleAtoi [of "absl_strings.truncate A" ms] assms by (simp add: absl_text_ok_def absl_strings.defs)
  moreover have "to_string ms \<noteq> ''''" by (simp add: to_string_def nat_digits.simps [of "nat _"])
  ultimately show ?thesis
    using assms(4) by (auto simp: setSendMsgTimeout_def setFactoryProperty_cases getSendMsgTimeout_def atoi_or_def fp_getProperty_def split: if_splits)
qed

lemma channel_roundtrip: "setOnsChannel ch p = Inr p' \<Longrightarrow> getOnsChannel p' = ch"
  by (cases ch) (auto simp: setOnsChannel_def setFactoryProperty_cases accepted_def channel_name_def getOnsChannel_def
      getProperty_or_def fp_getProperty_def)

text \<open>A client of the default channel is created only with both keys; a failure creates none.\<close>

lemma inner_defaults_eq:
  "inner_defaults p = Inr (if getOnsChannel p = INNER
     then p\<lparr>fp_property_map := (fp_property_map p)(OnsTraceSwitch \<mapsto> ''false'', AccessKey \<mapsto> ''DefaultKey'',
       SecretKey \<mapsto> ''DefaultKey'', NAMESRV_ADDR \<mapsto> ''LocalDefault'')\<rparr> else p)"
  by (simp add: inner_defaults_def setOnsTraceSwitch_def setFactoryProperty_cases accepted_def)

lemma create_client_keys:
  assumes "create_client options add p f = (p', Inr f')" "getOnsChannel p' = ALIYUN"
  shows "fp_getProperty p' AccessKey \<noteq> [] \<and> fp_getProperty p' SecretKey \<noteq> []"
proof -
  have "fp_bool p'" using assms(1) by (simp add: create_client_def inner_defaults_eq split: if_split_asm)
  then show ?thesis using assms(2) by (simp add: fp_bool_def getProperty_or_def Let_def split: if_split_asm)
qed

text \<open>On the inner channel the caller's credentials are overwritten, whatever becomes of the creation.\<close>

lemma inner_overwrites:
  assumes "getOnsChannel p = INNER"
  shows "fp_getProperty (fst (create_client options add p f)) AccessKey = ''DefaultKey''"
  using assms by (simp add: create_client_def inner_defaults_eq fp_getProperty_def)

text \<open>The check against 1024 threads has no effect.\<close>

lemma thread_limit_ignored:
  assumes "getConsumeThreadNums p = Inr n" "0 < n" "ONSConsumerAbstract_options A p = Inr c"
  shows "co_thread_count c = Some n"
  using assms by (auto simp: ONSConsumerAbstract_options_def Let_def split: prod.splits)

section \<open>Lemmas on access points\<close>

lemma access_point_parts:
  assumes "absl_text_ok A" "CHR ''.'' \<notin> set ns" "starts_with ns ''MQ_INST_''"
    and "ap = AccessPoint_new A (''http://'' @ ns @ ''.'' @ rest)"
  shows "ap_bool A ap \<and> ap_resource_namespace ap = ns \<and>
    nameServerAddress A ap = map (ascii_lower \<circ> (\<lambda>c. if c = CHR ''_'' then CHR ''-'' else c)) (ns @ ''.'' @ rest)"
proof -
  let ?B = "absl_strings.truncate A"
  have B: "absl_ok ?B" "StartsWith A = StartsWith ?B" "StripPrefix A = StripPrefix ?B" "StrSplit A = StrSplit ?B" "StrContains A = StrContains ?B"
    using assms(1) by (simp_all add: absl_text_ok_def absl_strings.defs)
  have strip: "StripPrefix A (''http://'' @ ns @ ''.'' @ rest) ''http://'' = ns @ ''.'' @ rest"
    by (simp add: B absl_StripPrefix [OF B(1)] starts_with_def)
  have split: "hd (split_on (CHR ''.'') (ns @ CHR ''.'' # rest)) = ns"
    using assms(2) by (induction ns) (auto split: list.split)
  from assms(3) have "take 8 ns = ''MQ_INST_''" by (simp add: starts_with_def eval_nat_numeral)
  then have "''MQ_INST_'' @ drop 8 ns = ns" using append_take_drop_id [of 8 ns] by simp
  then obtain more where "ns = ''MQ_INST_'' @ more" by (rule that [OF sym])
  then have "starts_with (''http://'' @ ns @ ''.'' @ rest) ''http://MQ_INST_''" by (simp add: starts_with_def)
  with strip split assms show ?thesis
    by (simp add: AccessPoint_new_def ap_bool_def nameServerAddress_def absl_text_ok_def B absl_StartsWith [OF B(1)]
        absl_StrContains [OF B(1)] absl_StrSplit [OF B(1)])
qed

lemma takeWhile_until: "c \<notin> set xs \<Longrightarrow> takeWhile (\<lambda>x. x \<noteq> c) (xs @ c # ys) = xs"
  by (induction xs) auto

text \<open>The older parser finds the same namespace.\<close>

lemma parse_agrees:
  assumes "CHR ''.'' \<notin> set ns"
  shows "parseInstanceIdFromEndpoint (''http://'' @ ns @ ''.'' @ rest) = Some ns"
proof -
  have "takeWhile (\<lambda>x. x \<noteq> CHR ''.'') (''http://'' @ ns @ ''.'' @ rest) = ''http://'' @ ns"
    using assms by (simp add: takeWhile_until)
  then have "find_char (CHR ''.'') (''http://'' @ ns @ ''.'' @ rest) = Some (7 + length ns)"
    by (simp add: find_char_def)
  then show ?thesis by (simp add: parseInstanceIdFromEndpoint_def)
qed

section \<open>Properties of the configuration\<close>




end
