(* ===== verification/OnsMessage.thy ===== *)
theory OnsMessage
  imports OnsProperty Wire Producer PushConsumer
begin

text \<open>
  Messages of the ONS layer (ons/Message.cpp), their translation to and from messages of the client
  (ons/ONSUtil.cpp), the listeners that are wrapped for the client (ons/MessageListenerWrapper.cpp,
  ons/include/OrderListenerWrapper.h), message queues and the selector (ons/MessageQueueONS.cpp,
  ons/ONSMessageQueueSelector.cpp) and the sends of the three producers.  Times are in nanoseconds.
\<close>

section \<open>Messages\<close>

record ons_message =
  om_topic :: string
  om_tag :: string
  om_body :: string
  om_message_id :: string
  om_store_timestamp :: int
  om_born_timestamp :: int
  om_delivery_timestamp :: int
  om_queue_offset :: int
  om_user_properties :: "string \<rightharpoonup> string"
  om_keys :: "string list"
  om_reconsume_times :: int

text \<open>A new message reads the clock three times, once per time stamp.\<close>

type_synonym readings = "int \<times> int \<times> int"

definition Message_default :: "readings \<Rightarrow> ons_message" where
  "Message_default r = (case r of (t1, t2, t3) \<Rightarrow>
     \<lparr>om_topic = [], om_tag = [], om_body = [], om_message_id = [], om_store_timestamp = t1,
      om_born_timestamp = t2, om_delivery_timestamp = t3, om_queue_offset = 0,
      om_user_properties = Map.empty, om_keys = [], om_reconsume_times = 0\<rparr>)"

definition om_setTopic :: "string \<Rightarrow> ons_message \<Rightarrow> ons_message" where
  "om_setTopic topic m = (if topic = '''' then m else m\<lparr>om_topic := topic\<rparr>)"

definition om_setTag :: "string \<Rightarrow> ons_message \<Rightarrow> ons_message" where
  "om_setTag tag m = (if tag = '''' then m else m\<lparr>om_tag := tag\<rparr>)"

definition om_setMsgID :: "string \<Rightarrow> ons_message \<Rightarrow> ons_message" where
  "om_setMsgID message_id m = (if message_id = '''' then m else m\<lparr>om_message_id := message_id\<rparr>)"

definition om_attachKey :: "string \<Rightarrow> ons_message \<Rightarrow> ons_message" where
  "om_attachKey key m = (if key = '''' then m else m\<lparr>om_keys := om_keys m @ [key]\<rparr>)"

definition om_setBody :: "string \<Rightarrow> ons_message \<Rightarrow> ons_message" where
  "om_setBody body m = m\<lparr>om_body := body\<rparr>"

definition om_setStartDeliverTime :: "int \<Rightarrow> ons_message \<Rightarrow> ons_message" where
  "om_setStartDeliverTime t m = m\<lparr>om_delivery_timestamp := t\<rparr>"

definition putUserProperty :: "string \<Rightarrow> string \<Rightarrow> ons_message \<Rightarrow> ons_message" where
  "putUserProperty k v m =
     (case om_user_properties m k of
        Some old \<Rightarrow> if old = v then m else m\<lparr>om_user_properties := ((om_user_properties m)(k := None))(k \<mapsto> v)\<rparr>
      | None \<Rightarrow> m\<lparr>om_user_properties := (om_user_properties m)(k \<mapsto> v)\<rparr>)"

definition getUserProperty :: "ons_message \<Rightarrow> string \<Rightarrow> string" where
  "getUserProperty m k = (case om_user_properties m k of Some v \<Rightarrow> v | None \<Rightarrow> '''')"

text \<open>\<open>setUserProperties\<close> puts the entries of a map, here a list of its pairs, one by one.\<close>

definition setUserProperties :: "(string \<times> string) list \<Rightarrow> ons_message \<Rightarrow> ons_message" where
  "setUserProperties properties m = fold (\<lambda>(k, v). putUserProperty k v) properties m"

text \<open>The printed forms; \<open>entries\<close> are the user properties in the order of the map.\<close>

definition om_toString :: "ons_message \<Rightarrow> string" where
  "om_toString m = ''Message [topic='' @ om_topic m @ '', body='' @ om_body m @ '']''"

definition om_toUserString :: "absl_text \<Rightarrow> (string \<times> string) list \<Rightarrow> string" where
  "om_toUserString A entries = StrJoin A (map (\<lambda>(k, v). k @ ''='' @ v) entries) '',''"

definition Message_new :: "readings \<Rightarrow> string \<Rightarrow> string \<Rightarrow> string \<Rightarrow> string \<Rightarrow> ons_message" where
  "Message_new r topic tag key body =
     (let m1 = (Message_default r)\<lparr>om_topic := topic, om_body := body\<rparr>;
          m2 = (if tag \<noteq> '''' then om_setTag tag m1 else m1)
      in if key \<noteq> '''' then om_attachKey key m2 else m2)"

section \<open>Translation\<close>

definition reserved_key_set_ext :: "string list" where
  "reserved_key_set_ext = [''__TAG'', ''__MSGID'', ''__RECONSUMETIMES'', ''__STARTDELIVERTIME'']"

text \<open>To the client: \<open>blank\<close> is a default-constructed message, \<open>now\<close> the clock.  A delivery time becomes a user
  property.\<close>

definition msgConvert_out :: "int \<Rightarrow> MQMessage \<Rightarrow> ons_message \<Rightarrow> MQMessage" where
  "msgConvert_out now blank msg =
     (let m1 = (if om_topic msg \<noteq> '''' then blank\<lparr>m_topic := om_topic msg\<rparr> else blank);
          m2 = (if om_keys msg \<noteq> [] then setKeys (om_keys msg) m1 else m1);
          m3 = (if om_tag msg \<noteq> '''' then setTags (om_tag msg) m2 else m2);
          m4 = (if om_delivery_timestamp msg > now
                then setProperty ''__STARTDELIVERTIME'' (to_string (cdiv (om_delivery_timestamp msg) 1000000)) m3 else m3);
          m5 = (if om_body msg \<noteq> '''' then setBody (om_body msg) m4 else m4)
      in m5\<lparr>m_user_attribute_map := (\<lambda>k. if k \<in> set reserved_key_set_ext then m_user_attribute_map m5 k
              else (case om_user_properties msg k of Some v \<Rightarrow> Some v | None \<Rightarrow> m_user_attribute_map m5 k))\<rparr>)"

text \<open>From the client.  The loop over the properties visits each key once.\<close>

definition msgConvert_in :: "absl_text \<Rightarrow> readings \<Rightarrow> MQMessage \<Rightarrow> ons_message" where
  "msgConvert_in A r ext =
     (let m1 = om_setTopic (m_topic ext) (Message_default r);
          m2 = fold om_attachKey (sys_keys (m_sys ext)) m1;
          m3 = om_setTag (sys_tag (m_sys ext)) m2;
          m4 = (if m_body ext \<noteq> '''' then om_setBody (m_body ext) m3 else m3);
          m5 = (om_setMsgID (sys_message_id (m_sys ext)) m4)
                 \<lparr>om_reconsume_times := sys_attempt_times (m_sys ext), om_store_timestamp := getStoreTimestamp ext * 1000000,
                  om_born_timestamp := sys_born_timestamp (m_sys ext), om_queue_offset := sys_partition_offset (m_sys ext)\<rparr>;
          properties = m_user_attribute_map ext;
          m6 = (case properties ''__TAG'' of Some v \<Rightarrow> om_setTag v m5 | None \<Rightarrow> m5);
          m7 = (case properties ''__MSGID'' of Some v \<Rightarrow> om_setMsgID v m6 | None \<Rightarrow> m6);
          m8 = (case properties ''__RECONSUMETIMES'' of
                  Some v \<Rightarrow> (case SimpleAtoi A v of Some n \<Rightarrow> m7\<lparr>om_reconsume_times := n\<rparr> | None \<Rightarrow> m7)
                | None \<Rightarrow> m7)
      in m8\<lparr>om_user_properties := (\<lambda>k. if k \<in> set reserved_key_set_ext then om_user_properties m8 k
              else (case properties k of Some v \<Rightarrow> Some v | None \<Rightarrow> om_user_properties m8 k))\<rparr>)"

section \<open>Listeners\<close>

datatype Action = CommitMessage | ReconsumeLater

datatype OrderAction = OrderSuccess | Suspend

text \<open>Only the first message of a batch reaches the listener.  \<open>None\<close>: the batch is empty.\<close>

definition MessageListenerWrapper_consumeMessage ::
  "absl_text \<Rightarrow> readings \<Rightarrow> (ons_message \<Rightarrow> Action) \<Rightarrow> MQMessage list \<Rightarrow> (ons_message \<times> ConsumeMessageResult) option" where
  "MessageListenerWrapper_consumeMessage A r consume msgs =
     (case msgs of
        [] \<Rightarrow> None
      | m # _ \<Rightarrow>
          let message = msgConvert_in A r (MQMessage_copy m)
          in Some (message, case consume message of CommitMessage \<Rightarrow> SUCCESS | ReconsumeLater \<Rightarrow> FAILURE))"

definition OrderListenerWrapper_consumeMessage ::
  "absl_text \<Rightarrow> readings \<Rightarrow> (ons_message \<Rightarrow> OrderAction) \<Rightarrow> MQMessage \<Rightarrow> ons_message \<times> ConsumeMessageResult" where
  "OrderListenerWrapper_consumeMessage A r consume m =
     (let message = msgConvert_in A r m
      in (message, case consume message of OrderSuccess \<Rightarrow> SUCCESS | Suspend \<Rightarrow> FAILURE))"

section \<open>Queues\<close>

record MessageQueueONS =
  moq_topic :: string
  moq_broker_name :: string
  moq_queue_id :: int

definition moq_eq :: "MessageQueueONS \<Rightarrow> MessageQueueONS \<Rightarrow> bool" where
  "moq_eq a b = (if moq_broker_name a \<noteq> moq_broker_name b then False
     else if moq_queue_id a \<noteq> moq_queue_id b then False else if moq_topic a \<noteq> moq_topic b then False else True)"

definition string_compare :: "string \<Rightarrow> string \<Rightarrow> int" where
  "string_compare s t = (if s = t then 0 else if s < t then - 1 else 1)"

text \<open>The difference of two queue identifiers is taken in 32 bits.\<close>

definition moq_compareTo :: "MessageQueueONS \<Rightarrow> MessageQueueONS \<Rightarrow> int" where
  "moq_compareTo a b =
     (let r1 = string_compare (moq_topic a) (moq_topic b); r2 = string_compare (moq_broker_name a) (moq_broker_name b)
      in if r1 \<noteq> 0 then r1 else if r2 \<noteq> 0 then r2 else to_int32 (moq_queue_id a - moq_queue_id b))"

definition moq_less :: "MessageQueueONS \<Rightarrow> MessageQueueONS \<Rightarrow> bool" where
  "moq_less a b \<longleftrightarrow> moq_compareTo a b < 0"

definition messageQueueConvert :: "MessageQueueONS \<Rightarrow> MQMessageQueue" where
  "messageQueueConvert q = empty_mq\<lparr>mq_broker_name := moq_broker_name q, mq_queue_id := moq_queue_id q, mq_topic := moq_topic q\<rparr>"

definition ONSMessageQueueSelector_select ::
  "(string \<Rightarrow> u64) \<Rightarrow> string \<Rightarrow> MQMessageQueue list \<Rightarrow> ons_exception + MQMessageQueue" where
  "ONSMessageQueueSelector_select hash message_group mqs =
     (if mqs = [] then Inl (ONSClientException ''Message queue to select from is empty'')
      else Inr (mqs ! (unat (hash message_group) mod length mqs)))"

section \<open>Producers\<close>

text \<open>What the caller of a send sees: the identifier in a \<open>SendResultONS\<close>, or an exception with the error.\<close>

datatype ons_sent = OnsSent string | OnsThrows ErrorCode | OnsBlocked | OnsAborted

fun ons_result :: "send_outcome \<Rightarrow> ons_sent" where
  "ons_result (Sent r) = OnsSent (sr_message_id r)"
| "ons_result (Failed e) = OnsThrows e"
| "ons_result Blocked = OnsBlocked"
| "ons_result Aborted = OnsAborted"

text \<open>\<open>now\<close> and \<open>blank\<close> as for \<open>msgConvert_out\<close>.\<close>

definition ons_send ::
  "send_params \<Rightarrow> int \<Rightarrow> MQMessage \<Rightarrow> ons_message \<Rightarrow> producer \<Rightarrow> producer \<times> string list \<times> ons_sent" where
  "ons_send E now blank msg p =
     (case send_sync E (msgConvert_out now blank msg) p of (p', hosts, out) \<Rightarrow> (p', hosts, ons_result out))"

definition ons_sendOneway :: "send_params \<Rightarrow> int \<Rightarrow> MQMessage \<Rightarrow> ons_message \<Rightarrow> producer \<Rightarrow> producer \<times> string list" where
  "ons_sendOneway E now blank msg p = sendOneway E (msgConvert_out now blank msg) p"

definition ons_order_send ::
  "send_params \<Rightarrow> int \<Rightarrow> MQMessage \<Rightarrow> ons_message \<Rightarrow> string \<Rightarrow> producer \<Rightarrow> producer \<times> string list \<times> ons_sent" where
  "ons_order_send E now blank msg message_group p =
     (case send_with_group E (msgConvert_out now blank msg) message_group p of
        (p', hosts, out) \<Rightarrow> (p', hosts, ons_result out))"

text \<open>The wrapper of an asynchronous callback, and the table that keeps one wrapper per callback.  \<open>None\<close>: the process aborts,
  because there is no callback.\<close>

datatype callback_event = OnSuccess string | OnException ErrorCode

fun wrapper_event :: "send_outcome \<Rightarrow> callback_event option" where
  "wrapper_event (Sent r) = Some (OnSuccess (sr_message_id r))"
| "wrapper_event (Failed e) = Some (OnException e)"
| "wrapper_event Blocked = None"
| "wrapper_event Aborted = None"

definition ons_sendAsync ::
  "send_params \<Rightarrow> int \<Rightarrow> MQMessage \<Rightarrow> ons_message \<Rightarrow> 'cb option \<Rightarrow> 'cb list \<Rightarrow> producer \<Rightarrow>
   ('cb list \<times> producer \<times> string list \<times> ('cb \<times> callback_event) list) option" where
  "ons_sendAsync E now blank msg callback callbacks p =
     (case callback of
        None \<Rightarrow> None
      | Some cb \<Rightarrow>
          (case send_async E (msgConvert_out now blank msg) p of
             (p', hosts, outs) \<Rightarrow>
               Some (if cb \<in> set callbacks then callbacks else cb # callbacks, p', hosts,
                     map (Pair cb) (List.map_filter wrapper_event outs))))"

datatype TransactionStatus = CommitTransaction | RollbackTransaction | Unknow

text \<open>The transaction producer: prepare (an exception leaves before the local transaction runs), run the local transaction,
  resolve.  The result of \<open>commit\<close> or \<open>rollback\<close> is ignored.  The requests come with the identifier reported.\<close>

definition ons_transaction_send ::
  "send_params \<Rightarrow> completion \<Rightarrow> int \<Rightarrow> MQMessage \<Rightarrow> (ons_message \<Rightarrow> TransactionStatus) \<Rightarrow> ons_message \<Rightarrow> producer \<Rightarrow>
   producer \<times> (string \<times> EndTransactionRequest) list \<times> ons_sent" where
  "ons_transaction_send E c now blank execute msg p =
     (case prepare E (msgConvert_out now blank msg) p of
        (p', Inl out) \<Rightarrow> (p', [], ons_result out)
      | (p', Inr tx) \<Rightarrow>
          (p', (case execute msg of
               CommitTransaction \<Rightarrow> fst (tx_commit c (Some p') tx)
             | RollbackTransaction \<Rightarrow> fst (tx_rollback c (Some p') tx)
             | Unknow \<Rightarrow> []), OnsSent (sys_message_id (m_sys (tx_message tx)))))"

section \<open>Consumers\<close>

definition ons_subscribe :: "string \<Rightarrow> string \<Rightarrow> push_consumer \<Rightarrow> ons_exception + push_consumer" where
  "ons_subscribe topic sub_expression p =
     (if topic = [] then Inl (ONSClientException ''Subscribed topic is null'')
      else if sub_expression = [] then Inl (ONSClientException ''SubExpression topic is null'')
      else Inr (subscribe topic sub_expression TAG p))"

definition ons_order_subscribe :: "string \<Rightarrow> string \<Rightarrow> push_consumer \<Rightarrow> push_consumer" where
  "ons_order_subscribe topic expression p = subscribe topic expression TAG p"

text \<open>The wrapped listeners are of the standard and of the first-in-first-out kind.\<close>

definition ons_registerMessageListener :: "'l option \<Rightarrow> push_consumer \<Rightarrow> ons_exception + push_consumer" where
  "ons_registerMessageListener listener p =
     (case listener of
        None \<Rightarrow> Inl (ONSClientException ''MessageListener may not be nullptr.'')
      | Some _ \<Rightarrow> Inr (registerMessageListener STANDARD p))"

definition ons_order_registerMessageListener :: "push_consumer \<Rightarrow> push_consumer" where
  "ons_order_registerMessageListener p = registerMessageListener FIFO_LISTENER p"

text \<open>The adaptor of an offset store of the application: offsets are kept under the simple name of a queue.\<close>

definition adaptor_updateOffset :: "(string \<Rightarrow> int \<Rightarrow> 's \<Rightarrow> 's) \<Rightarrow> MQMessageQueue \<Rightarrow> int \<Rightarrow> 's \<Rightarrow> 's" where
  "adaptor_updateOffset writeOffset mq off store = writeOffset (simpleName mq) off store"

definition adaptor_readOffset :: "(string \<Rightarrow> 's \<Rightarrow> int option) \<Rightarrow> MQMessageQueue \<Rightarrow> 's \<Rightarrow> int option" where
  "adaptor_readOffset readOffset mq store = readOffset (simpleName mq) store"

section \<open>Lemmas\<close>

text \<open>No operation attaches an empty key.\<close>

definition om_ok :: "ons_message \<Rightarrow> bool" where
  "om_ok m \<longleftrightarrow> [] \<notin> set (om_keys m)"

lemmas om_ops = om_setTopic_def om_setTag_def om_setMsgID_def om_attachKey_def om_setBody_def om_setStartDeliverTime_def
  putUserProperty_def

lemma om_ops_ok:
  "om_ok (Message_default r)"
  "om_ok m \<Longrightarrow> om_ok (om_setTopic s m)" "om_ok m \<Longrightarrow> om_ok (om_setTag s m)" "om_ok m \<Longrightarrow> om_ok (om_setMsgID s m)"
  "om_ok m \<Longrightarrow> om_ok (om_attachKey s m)" "om_ok m \<Longrightarrow> om_ok (om_setBody s m)"
  "om_ok m \<Longrightarrow> om_ok (om_setStartDeliverTime t m)" "om_ok m \<Longrightarrow> om_ok (putUserProperty k v m)"
  by (auto simp: om_ok_def om_ops Message_default_def split: option.split prod.split)

lemma putUserProperty_map: "om_user_properties (putUserProperty k v m) = (om_user_properties m)(k \<mapsto> v)"
  by (auto simp: putUserProperty_def fun_eq_iff split: option.split)

lemma putUserProperty_get: "getUserProperty (putUserProperty k v m) k' = (if k' = k then v else getUserProperty m k')"
  by (simp add: getUserProperty_def putUserProperty_map)

lemma setUserProperties_map:
  "om_user_properties (setUserProperties properties m) = om_user_properties m ++ map_of (rev properties)"
  by (induction properties arbitrary: m) (auto simp: setUserProperties_def putUserProperty_map map_add_def fun_eq_iff split: option.split)

lemma Message_new_ok: "om_ok (Message_new r topic tag key body)"
  by (simp add: Message_new_def Let_def om_ok_def om_ops Message_default_def split: prod.split)

lemma attachKeys:
  "fold om_attachKey ks m = m\<lparr>om_keys := om_keys m @ filter (\<lambda>k. k \<noteq> []) ks\<rparr>"
  by (induction ks arbitrary: m) (simp_all add: om_attachKey_def)

text \<open>The translations, field by field.\<close>

lemma msgConvert_out_simps:
  "m_topic (msgConvert_out now blank msg) = (if om_topic msg = [] then m_topic blank else om_topic msg)"
  "m_body (msgConvert_out now blank msg) = (if om_body msg = [] then m_body blank else om_body msg)"
  "sys_tag (m_sys (msgConvert_out now blank msg)) = (if om_tag msg = [] then sys_tag (m_sys blank) else om_tag msg)"
  "sys_keys (m_sys (msgConvert_out now blank msg)) = (if om_keys msg = [] then sys_keys (m_sys blank) else om_keys msg)"
  "sys_message_id (m_sys (msgConvert_out now blank msg)) = sys_message_id (m_sys blank)"
  "sys_delivery_timestamp (m_sys (msgConvert_out now blank msg)) = sys_delivery_timestamp (m_sys blank)"
  "sys_message_group (m_sys (msgConvert_out now blank msg)) = sys_message_group (m_sys blank)"
  "m_message_queue (msgConvert_out now blank msg) = m_message_queue blank"
  by (simp_all add: msgConvert_out_def Let_def setKeys_def setTags_def setProperty_def setBody_def)

lemma msgConvert_out_attributes:
  assumes "m_user_attribute_map blank = Map.empty"
  shows "m_user_attribute_map (msgConvert_out now blank msg) k =
    (if k \<notin> set reserved_key_set_ext then om_user_properties msg k
     else if k = ''__STARTDELIVERTIME'' \<and> om_delivery_timestamp msg > now
     then Some (to_string (cdiv (om_delivery_timestamp msg) 1000000)) else None)"
  using assms by (simp add: msgConvert_out_def Let_def setKeys_def setTags_def setProperty_def setBody_def
      reserved_key_set_ext_def split: option.split)

lemma om_set_fresh:
  "om_topic m = [] \<Longrightarrow> om_setTopic s m = m\<lparr>om_topic := s\<rparr>"
  "om_tag m = [] \<Longrightarrow> om_setTag s m = m\<lparr>om_tag := s\<rparr>"
  "om_message_id m = [] \<Longrightarrow> om_setMsgID s m = m\<lparr>om_message_id := s\<rparr>"
  "om_body m = [] \<Longrightarrow> (if s \<noteq> [] then om_setBody s m else m) = m\<lparr>om_body := s\<rparr>"
  by (cases m; simp add: om_setTopic_def om_setTag_def om_setMsgID_def om_setBody_def)+

lemma Message_default_fields:
  "om_topic (Message_default r) = []" "om_tag (Message_default r) = []" "om_message_id (Message_default r) = []"
  "om_body (Message_default r) = []" "om_keys (Message_default r) = []" "om_user_properties (Message_default r) = Map.empty"
  "om_delivery_timestamp (Message_default r) = snd (snd r)"
  by (simp_all add: Message_default_def split: prod.split)

lemma msgConvert_in_simps:
  assumes "m_user_attribute_map ext ''__TAG'' = None" "m_user_attribute_map ext ''__MSGID'' = None"
    "m_user_attribute_map ext ''__RECONSUMETIMES'' = None"
  shows "msgConvert_in A r ext = (Message_default r)\<lparr>om_topic := m_topic ext, om_keys := filter (\<lambda>k. k \<noteq> []) (sys_keys (m_sys ext)),
    om_tag := sys_tag (m_sys ext), om_body := m_body ext, om_message_id := sys_message_id (m_sys ext),
    om_reconsume_times := sys_attempt_times (m_sys ext), om_store_timestamp := getStoreTimestamp ext * 1000000,
    om_born_timestamp := sys_born_timestamp (m_sys ext), om_queue_offset := sys_partition_offset (m_sys ext),
    om_user_properties := m_user_attribute_map ext |` (- set reserved_key_set_ext)\<rparr>"
proof -
  have props: "(\<lambda>k. if k \<in> set reserved_key_set_ext then None
      else case m_user_attribute_map ext k of None \<Rightarrow> None | Some v \<Rightarrow> Some v) =
    m_user_attribute_map ext |` (- set reserved_key_set_ext)"
    by (simp add: restrict_map_def fun_eq_iff split: option.split)
  have m2: "fold om_attachKey ks (om_setTopic t (Message_default r)) =
      (Message_default r)\<lparr>om_topic := t, om_keys := filter (\<lambda>k. k \<noteq> []) ks\<rparr>" for t ks
    by (simp add: attachKeys om_set_fresh(1) Message_default_fields)
  have m3: "om_setTag g ((Message_default r)\<lparr>om_topic := t, om_keys := ks\<rparr>) =
      (Message_default r)\<lparr>om_topic := t, om_keys := ks, om_tag := g\<rparr>" for t ks g
    by (simp add: om_set_fresh(2) Message_default_fields)
  have m4: "(if b \<noteq> [] then om_setBody b ((Message_default r)\<lparr>om_topic := t, om_keys := ks, om_tag := g\<rparr>)
        else (Message_default r)\<lparr>om_topic := t, om_keys := ks, om_tag := g\<rparr>) =
      (Message_default r)\<lparr>om_topic := t, om_keys := ks, om_tag := g, om_body := b\<rparr>" for t ks g b
    by (rule om_set_fresh(4)) (simp add: Message_default_fields)
  have m5: "om_setMsgID i ((Message_default r)\<lparr>om_topic := t, om_keys := ks, om_tag := g, om_body := b\<rparr>) =
      (Message_default r)\<lparr>om_topic := t, om_keys := ks, om_tag := g, om_body := b, om_message_id := i\<rparr>" for t ks g b i
    by (simp add: om_set_fresh(3) Message_default_fields)
  show ?thesis
    unfolding msgConvert_in_def Let_def assms option.case m2 m3 m4 m5
    by (simp add: Message_default_fields props cong: if_cong option.case_cong)
qed

text \<open>A message that is translated to the client and back.\<close>

lemma convert_back:
  assumes "m_user_attribute_map m' = m_user_attribute_map (msgConvert_out now blank msg)"
    and "m_user_attribute_map blank = Map.empty"
    and "m_topic m' = om_topic msg" "m_body m' = om_body msg" "sys_tag (m_sys m') = om_tag msg"
    and "sys_keys (m_sys m') = om_keys msg" "om_ok msg"
  shows "msgConvert_in A r m' = (Message_default r)\<lparr>om_topic := om_topic msg, om_keys := om_keys msg,
    om_tag := om_tag msg, om_body := om_body msg, om_message_id := sys_message_id (m_sys m'),
    om_reconsume_times := sys_attempt_times (m_sys m'), om_store_timestamp := getStoreTimestamp m' * 1000000,
    om_born_timestamp := sys_born_timestamp (m_sys m'), om_queue_offset := sys_partition_offset (m_sys m'),
    om_user_properties := om_user_properties msg |` (- set reserved_key_set_ext)\<rparr>"
proof -
  have reserved: "m_user_attribute_map m' ''__TAG'' = None" "m_user_attribute_map m' ''__MSGID'' = None"
    "m_user_attribute_map m' ''__RECONSUMETIMES'' = None"
    unfolding assms(1) msgConvert_out_attributes [OF assms(2)] by (simp_all add: reserved_key_set_ext_def)
  have attrs: "m_user_attribute_map m' |` (- set reserved_key_set_ext) = om_user_properties msg |` (- set reserved_key_set_ext)"
    by (auto simp: assms(1) msgConvert_out_attributes [OF assms(2)] restrict_map_def)
  have "filter (\<lambda>k. k \<noteq> []) (om_keys msg) = om_keys msg"
    using assms(7) by (simp add: om_ok_def filter_id_conv) metis
  then show ?thesis
    using msgConvert_in_simps [OF reserved, of A r] by (simp add: assms(3-6) attrs)
qed

lemma to_int32_id: "- (2 ^ 31) \<le> i \<Longrightarrow> i < 2 ^ 31 \<Longrightarrow> to_int32 i = i"
  by (simp add: to_int32_def signed_of_int signed_take_bit_int_eq_self)

text \<open>The queues: the comparison is the lexicographic order as long as no difference of identifiers overflows, and
  no order at all where one does.\<close>

lemma moq_eq_iff: "moq_eq a b \<longleftrightarrow> a = b"
  by (cases a; cases b) (auto simp: moq_eq_def)

lemma moq_less_lexicographic:
  assumes "0 \<le> moq_queue_id a" "moq_queue_id a < 2 ^ 31" "0 \<le> moq_queue_id b" "moq_queue_id b < 2 ^ 31"
  shows "moq_less a b \<longleftrightarrow> moq_topic a < moq_topic b \<or> moq_topic a = moq_topic b \<and>
    (moq_broker_name a < moq_broker_name b \<or> moq_broker_name a = moq_broker_name b \<and> moq_queue_id a < moq_queue_id b)"
proof -
  have "to_int32 (moq_queue_id a - moq_queue_id b) = moq_queue_id a - moq_queue_id b"
    using assms by (intro to_int32_id) auto
  then show ?thesis by (auto simp: moq_less_def moq_compareTo_def Let_def string_compare_def)
qed

lemma moq_less_overflow:
  "moq_less \<lparr>moq_topic = t, moq_broker_name = b, moq_queue_id = 2 ^ 31 - 1\<rparr>
            \<lparr>moq_topic = t, moq_broker_name = b, moq_queue_id = - 1\<rparr>"
  by (simp add: moq_less_def moq_compareTo_def string_compare_def to_int32_def)

text \<open>Two queues can share a simple name, and with it a stored offset.\<close>

lemma simpleName_collides:
  "simpleName (MQMessageQueue_new ''a_b'' ''c'' 0) = simpleName (MQMessageQueue_new ''a'' ''b_c'' 0)"
  by (simp add: simpleName_def MQMessageQueue_new_def)

lemma select_in: "ONSMessageQueueSelector_select hash grp mqs = Inr mq \<Longrightarrow> mq \<in> set mqs"
  by (auto simp: ONSMessageQueueSelector_select_def split: if_splits)

lemma select_total: "mqs \<noteq> [] \<Longrightarrow> \<exists>mq. ONSMessageQueueSelector_select hash grp mqs = Inr mq"
  by (simp add: ONSMessageQueueSelector_select_def)

lemma wrapper_first_only:
  "MessageListenerWrapper_consumeMessage A r consume (m # rest) = MessageListenerWrapper_consumeMessage A r consume [m]"
  by (simp add: MessageListenerWrapper_consumeMessage_def)

text \<open>An undecided local transaction sends nothing; a failed preparation neither runs it nor sends anything.\<close>

lemma transaction_unknown_silent:
  "execute msg = Unknow \<Longrightarrow> fst (snd (ons_transaction_send E c now blank execute msg p)) = []"
  by (auto simp: ons_transaction_send_def split: prod.split sum.split)

lemma transaction_not_prepared:
  "prepare E (msgConvert_out now blank msg) p = (p', Inl out) \<Longrightarrow>
     ons_transaction_send E c now blank execute msg p = (p', [], ons_result out)"
  by (simp add: ons_transaction_send_def)

text \<open>The identifier reported for a transaction is the one the message got when it was made.\<close>

lemma transaction_id_reported:
  assumes "ons_transaction_send E c now blank execute msg p = (p', reqs, OnsSent i)"
    and "prepare E (msgConvert_out now blank msg) p = (p', Inr tx)"
  shows "i = sys_message_id (m_sys blank)"
  using assms
  by (auto simp: ons_transaction_send_def prepare_def Let_def MQMessage_copy_def setMessageType_def msgConvert_out_simps
      split: prod.splits send_outcome.splits)

end
