(* ===== verification/Refinement.thy ===== *)
theory Refinement
  imports ConsumeService
begin

text \<open>
  What consuming promises, as two small abstract machines, and that the detailed models of \<^theory_text>\<open>ConsumeService\<close>
  implement them: a mailbox with flow control for the clustering model, a first-in-first-out queue for the broadcast task.
\<close>

section \<open>Simulation\<close>

text \<open>A forward simulation with stuttering, under an invariant of the detailed machine.\<close>

locale simulation =
  fixes cstep :: "'s \<Rightarrow> 's \<Rightarrow> bool" and astep :: "'a \<Rightarrow> 'a \<Rightarrow> bool" and abs :: "'s \<Rightarrow> 'a" and inv :: "'s \<Rightarrow> bool"
  assumes step: "inv s \<Longrightarrow> cstep s s' \<Longrightarrow> astep\<^sup>=\<^sup>= (abs s) (abs s')"
    and kept: "inv s \<Longrightarrow> cstep s s' \<Longrightarrow> inv s'"
begin

lemma reachable_inv: "cstep\<^sup>*\<^sup>* s s' \<Longrightarrow> inv s \<Longrightarrow> inv s'"
  by (induction rule: rtranclp_induct) (auto intro: kept)

lemma refines: "cstep\<^sup>*\<^sup>* s s' \<Longrightarrow> inv s \<Longrightarrow> astep\<^sup>*\<^sup>* (abs s) (abs s')"
proof (induction rule: rtranclp_induct)
  case (step s' s'')
  have "astep\<^sup>=\<^sup>= (abs s') (abs s'')"
    using simulation_axioms reachable_inv [OF step(1,4)] step(2) unfolding simulation_def by blast
  with step(3) [OF step(4)] show ?case by (auto intro: rtranclp.rtrancl_into_rtrancl)
qed simp

text \<open>Invariants of the abstract machine hold of the detailed one.\<close>

lemma transfer:
  assumes "cstep\<^sup>*\<^sup>* s s'" "inv s" "I (abs s)" "\<And>a a'. I a \<Longrightarrow> astep a a' \<Longrightarrow> I a'"
  shows "I (abs s')"
proof -
  have "astep\<^sup>*\<^sup>* a b \<Longrightarrow> I a \<Longrightarrow> I b" for a b by (induction rule: rtranclp_induct) (auto intro: assms(4))
  then show ?thesis using refines [OF assms(1,2)] assms(3) by blast
qed

end

section \<open>A mailbox with flow control\<close>

text \<open>A mailbox holds messages that are pending or done.  While it is open, up to \<open>batch\<close> messages arrive if fewer than
  \<open>limit\<close> are pending (fewer than one, if the limit is zero), and one pending message at a time gets done.  A closed mailbox
  does not change.\<close>

record 'k mailbox =
  mb_open :: bool
  mb_pending :: "'k multiset"
  mb_done :: "'k multiset"

inductive mailbox_step :: "nat \<Rightarrow> nat \<Rightarrow> 'k mailbox \<Rightarrow> 'k mailbox \<Rightarrow> bool" for limit batch where
  deliver: "mb_open b \<Longrightarrow> size (mb_pending b) < max 1 limit \<Longrightarrow> size M \<le> batch \<Longrightarrow>
    mailbox_step limit batch b (b\<lparr>mb_pending := mb_pending b + M\<rparr>)"
| complete: "mb_open b \<Longrightarrow> k \<in># mb_pending b \<Longrightarrow>
    mailbox_step limit batch b (b\<lparr>mb_pending := mb_pending b - {#k#}, mb_done := mb_done b + {#k#}\<rparr>)"
| close: "mailbox_step limit batch b (b\<lparr>mb_open := False\<rparr>)"

inductive_cases mailbox_stepE: "mailbox_step limit batch b b'"

text \<open>Invariants of the mailbox, proved on the abstract machine.\<close>

lemma mailbox_bounded:
  "size (mb_pending b) < max 1 limit + batch \<Longrightarrow> mailbox_step limit batch b b' \<Longrightarrow> size (mb_pending b') < max 1 limit + batch"
  by (erule mailbox_stepE) (auto simp: size_Diff_singleton intro: le_less_trans [OF diff_le_self])

lemma mailbox_done_grows: "mailbox_step limit batch b b' \<Longrightarrow> mb_done b \<subseteq># mb_done b'"
  by (erule mailbox_stepE) auto

lemma mailbox_closed: "mailbox_step limit batch b b' \<Longrightarrow> \<not> mb_open b \<Longrightarrow> b' = b"
  by (erule mailbox_stepE) auto

definition mailbox_of :: "consume_sys \<Rightarrow> (string \<times> nat) mailbox" where
  "mailbox_of s = \<lparr>mb_open = (cs_pq s \<noteq> None), mb_pending = held_keys s, mb_done = keys_of (cs_completed s)\<rparr>"

definition consume_ok :: "consumer_view \<Rightarrow> nat \<Rightarrow> consume_sys \<Rightarrow> bool" where
  "consume_ok c batch s \<longleftrightarrow>
     consume_inv c batch s \<and> cv_message_model c = CLUSTERING \<and> unat (cv_max_cached_quantity c) + batch < 2 ^ 32"

lemma consume_ok_step: "consume_ok c batch s \<Longrightarrow> consume_step c batch s s' \<Longrightarrow> consume_ok c batch s'"
  by (auto simp: consume_ok_def intro: consume_step_inv)

lemma consume_balance:
  "consume_ok c batch s \<Longrightarrow> keys_of (cs_received s) = held_keys s + keys_of (cs_completed s)"
  by (simp add: consume_ok_def consume_inv_def)

text \<open>A step that receives nothing and completes at most one message, and that only while the queue lives.\<close>

lemma quiet_step:
  assumes "consume_ok c batch s" "consume_ok c batch s'"
    and "cs_received s' = cs_received s" "cs_completed s' = cs_completed s @ popped"
    and "cs_pq s' = None \<longleftrightarrow> cs_pq s = None" "popped = [] \<or> (\<exists>m. popped = [m]) \<and> cs_pq s \<noteq> None"
  shows "(mailbox_step limit batch)\<^sup>=\<^sup>= (mailbox_of s) (mailbox_of s')"
proof -
  have bal: "held_keys s = held_keys s' + keys_of popped"
    using consume_balance [OF assms(1)] consume_balance [OF assms(2)] assms(3,4) by (simp add: ac_simps)
  show ?thesis
  proof (cases popped)
    case Nil
    then show ?thesis using bal assms(4,5) by (simp add: mailbox_of_def)
  next
    case (Cons m ms)
    then have m: "popped = [m]" "cs_pq s \<noteq> None" using assms(6) by auto
    have "mailbox_of s' = (mailbox_of s)\<lparr>mb_pending := mb_pending (mailbox_of s) - {#msg_key m#},
        mb_done := mb_done (mailbox_of s) + {#msg_key m#}\<rparr>"
      using m bal assms(4,5) by (simp add: mailbox_of_def)
    moreover have "msg_key m \<in># mb_pending (mailbox_of s)" "mb_open (mailbox_of s)"
      using m bal by (simp_all add: mailbox_of_def)
    ultimately show ?thesis using mailbox_step.complete by fastforce
  qed
qed

lemma finish_frame:
  "cs_received (finish r popped s) = cs_received s" "cs_completed (finish r popped s) = cs_completed s @ popped"
  "cs_pq (finish r popped s) = fst r"
  by (simp_all add: finish_def Let_def split: prod.split follow_up.split)

lemma task_result_pq: "task_result pq t popped r \<Longrightarrow> fst r = None \<longleftrightarrow> pq = None"
  by (auto simp: task_result_def split: prod.splits option.splits)

lemma popped_by_cases: "popped_by s ok t = [] \<or> (\<exists>m. popped_by s ok t = [m]) \<and> cs_pq s \<noteq> None"
  by (simp add: popped_by_def)

lemma mailbox_received:
  assumes ok: "consume_ok c batch s" "consume_ok c batch s'"
    and s: "cs_loop s = InFlight" "cs_pq s = Some pq" "length ms \<le> batch"
    and s': "cs_pq s' = Some pq'" "cs_received s' = cs_received s @ ms" "cs_completed s' = cs_completed s"
  shows "(mailbox_step (unat (cv_max_cached_quantity c)) batch)\<^sup>=\<^sup>= (mailbox_of s) (mailbox_of s')"
proof -
  have "held_keys s' = held_keys s + keys_of ms"
    using consume_balance [OF ok(1)] consume_balance [OF ok(2)] s' by (simp add: ac_simps)
  then have new: "mailbox_of s' = (mailbox_of s)\<lparr>mb_pending := mb_pending (mailbox_of s) + keys_of ms\<rparr>"
    using s s' by (simp add: mailbox_of_def)
  have "size (held_keys s) \<le> max 1 (unat (cv_max_cached_quantity c)) - 1"
    using ok(1) s by (simp add: consume_ok_def consume_inv_def)
  then have "size (mb_pending (mailbox_of s)) < max 1 (unat (cv_max_cached_quantity c))" "mb_open (mailbox_of s)"
    using s by (auto simp: mailbox_of_def)
  then show ?thesis
    using s(3) mailbox_step.deliver [of "mailbox_of s" "unat (cv_max_cached_quantity c)" "keys_of ms" batch]
    unfolding new by (simp add: size_keys_of)
qed

lemma run_frame:
  assumes "run_task c result s = Some s'"
  shows "cs_received s' = cs_received s" "cs_completed s' = cs_completed s" "cs_pq s' = cs_pq s"
  using assms by (auto simp: run_task_def Let_def split: list.splits prod.splits task_action.splits)

lemma consume_simulates:
  assumes ok: "consume_ok c batch s" and step: "consume_step c batch s s'"
  shows "(mailbox_step (unat (cv_max_cached_quantity c)) batch)\<^sup>=\<^sup>= (mailbox_of s) (mailbox_of s')"
  using step consume_ok_step [OF ok step] ok
proof cases
  case (received pq ms now pq' svc' loop)
  then show ?thesis
    using consume_ok_step [OF ok step]
    by (intro mailbox_received [OF ok, where ms = "if cv_active c then ms else []"]) simp_all
next
  case (receive_failed pq ec now pq' svc' loop)
  then show ?thesis by (intro quiet_step [OF ok consume_ok_step [OF ok step], where popped = "[]"]) simp_all
next
  case (timer pq now pq' loop)
  then show ?thesis by (intro quiet_step [OF ok consume_ok_step [OF ok step], where popped = "[]"]) simp_all
next
  case (run result)
  then show ?thesis
    using run_frame [OF run] by (intro quiet_step [OF ok consume_ok_step [OF ok step], where popped = "[]"]) simp_all
next
  case (acked i t ec)
  have "ct_messages t \<noteq> []" using ok acked by (auto simp: consume_ok_def consume_inv_def)
  from task_result_pq [OF onAck_result [OF this, of s ec c]] show ?thesis
    using popped_by_cases [of s "\<not> ec_bool ec" t] acked(1)
    by (intro quiet_step [OF ok consume_ok_step [OF ok step], where popped = "popped_by s (\<not> ec_bool ec) t"])
      (simp_all add: finish_frame)
next
  case (nacked i t ec)
  have "ct_messages t \<noteq> []" using ok nacked by (auto simp: consume_ok_def consume_inv_def)
  from task_result_pq [OF onNack_result [OF this, of s ec c]] show ?thesis
    using popped_by_cases [of s "\<not> ec_bool ec" t] nacked(1)
    by (intro quiet_step [OF ok consume_ok_step [OF ok step], where popped = "popped_by s (\<not> ec_bool ec) t"])
      (simp_all add: finish_frame)
next
  case (forwarded i t okay)
  then show ?thesis using ok by (simp add: consume_ok_def consume_inv_def)
next
  case rebalanced
  have "held_keys (s\<lparr>cs_pq := None, cs_loop := Stopped\<rparr>) = held_keys s" by (simp add: held_keys_def held_tasks_def)
  then have "mailbox_of s' = (mailbox_of s)\<lparr>mb_open := False\<rparr>" using rebalanced by (simp add: mailbox_of_def)
  then show ?thesis using mailbox_step.close [of _ batch "mailbox_of s"] by simp
qed

interpretation consume: simulation "consume_step c batch" "mailbox_step (unat (cv_max_cached_quantity c)) batch" mailbox_of
  "consume_ok c batch" for c batch
  by unfold_locales (rule consume_simulates, assumption+, rule consume_ok_step, assumption+)

text \<open>Two consequences: completed messages stay completed, and once a queue is gone nothing is completed any more.\<close>

lemma completed_stays:
  assumes "(consume_step c batch)\<^sup>*\<^sup>* s s'" "consume_ok c batch s"
  shows "keys_of (cs_completed s) \<subseteq># keys_of (cs_completed s')"
  using consume.transfer [OF assms, of "\<lambda>b. keys_of (cs_completed s) \<subseteq># mb_done b"]
  by (auto simp: mailbox_of_def dest: mailbox_done_grows subset_mset.order_trans)

lemma gone_queue_frozen:
  assumes "(consume_step c batch)\<^sup>*\<^sup>* s s'" "consume_ok c batch s" "cs_pq s = None"
  shows "held_keys s' = held_keys s \<and> keys_of (cs_completed s') = keys_of (cs_completed s)"
proof -
  have "mailbox_of s' = mailbox_of s"
  proof (rule consume.transfer [OF assms(1,2), of "\<lambda>b. b = mailbox_of s"])
    fix a a'
    assume a: "a = mailbox_of s" "mailbox_step (unat (cv_max_cached_quantity c)) batch a a'"
    have "\<not> mb_open a" using a(1) assms(3) by (simp add: mailbox_of_def)
    with mailbox_closed [OF a(2)] a(1) show "a' = mailbox_of s" by simp
  qed simp
  then show ?thesis by (simp add: mailbox_of_def)
qed

section \<open>A first-in-first-out queue\<close>

record 'm fifo =
  ff_queue :: "'m list"
  ff_taken :: "'m list"

inductive fifo_step :: "'m fifo \<Rightarrow> 'm fifo \<Rightarrow> bool" where
  put: "fifo_step f (f\<lparr>ff_queue := ff_queue f @ ms\<rparr>)"
| take: "ff_queue f = m # ms \<Longrightarrow> fifo_step f (f\<lparr>ff_queue := ms, ff_taken := ff_taken f @ [m]\<rparr>)"

definition fifo_of :: "broadcast_sys \<Rightarrow> MQMessage fifo" where
  "fifo_of s = \<lparr>ff_queue = held_by (bs_active s) @ bs_queue s, ff_taken = bs_handled s\<rparr>"

lemma fifo_of_update: "fifo_of (s\<lparr>bs_workers := ws\<rparr>) =
    \<lparr>ff_queue = held_by (filter (\<lambda>w. w \<noteq> BEnter) ws) @ bs_queue s, ff_taken = bs_handled s\<rparr>"
  by (simp add: fifo_of_def bs_active_def)

text \<open>The one active worker holds the oldest message that is not handled.\<close>

lemma sole_worker:
  assumes "broadcast_inv s" "i < length (bs_workers s)" "bs_workers s ! i \<noteq> BEnter"
  shows "bs_active s = [bs_workers s ! i]"
    "\<And>w. filter (\<lambda>w. w \<noteq> BEnter) ((bs_workers s)[i := w]) = (if w \<noteq> BEnter then [w] else [])"
    "filter (\<lambda>w. w \<noteq> BEnter) (remove_nth i (bs_workers s)) = []"
proof -
  obtain A B where AB: "bs_active s = A @ (if bs_workers s ! i \<noteq> BEnter then [bs_workers s ! i] else []) @ B"
    "\<And>w. filter (\<lambda>w. w \<noteq> BEnter) ((bs_workers s)[i := w]) = A @ (if w \<noteq> BEnter then [w] else []) @ B"
    "filter (\<lambda>w. w \<noteq> BEnter) (remove_nth i (bs_workers s)) = A @ B"
    by (rule active_at [OF assms(2)], rule that)
  have "length (bs_active s) \<le> 1" using assms(1) by (simp add: broadcast_inv_def)
  then have "A = []" "B = []" using AB(1) assms(3) by (simp_all add: Suc_le_eq)
  then show "bs_active s = [bs_workers s ! i]"
    "\<And>w. filter (\<lambda>w. w \<noteq> BEnter) ((bs_workers s)[i := w]) = (if w \<noteq> BEnter then [w] else [])"
    "filter (\<lambda>w. w \<noteq> BEnter) (remove_nth i (bs_workers s)) = []"
    using AB assms(3) by simp_all
qed

lemma broadcast_simulates:
  assumes inv: "broadcast_inv s" and step: "broadcast_step s s'"
  shows "fifo_step\<^sup>=\<^sup>= (fifo_of s) (fifo_of s')"
  using step
proof cases
  case (enqueue ms)
  then have "fifo_of s' = (fifo_of s)\<lparr>ff_queue := ff_queue (fifo_of s) @ ms\<rparr>" by (simp add: fifo_of_def bs_active_def)
  then show ?thesis using fifo_step.put [of "fifo_of s" ms] by simp
next
  case submit
  then show ?thesis by (simp add: fifo_of_def bs_active_def)
next
  case (enter i)
  obtain A B where "bs_active s = A @ B"
    "filter (\<lambda>w. w \<noteq> BEnter) ((bs_workers s)[i := BLoop]) = A @ [BLoop] @ B"
    "filter (\<lambda>w. w \<noteq> BEnter) (remove_nth i (bs_workers s)) = A @ B"
    by (rule active_at [OF enter(2)], rule that) (simp_all add: enter(3))
  then show ?thesis using enter(1) by (simp add: fifo_of_def bs_active_def)
next
  case (deque i m ms)
  then show ?thesis using sole_worker [OF inv deque(2)] by (simp add: fifo_of_def bs_active_def)
next
  case (consume i m)
  have "fifo_of s' = (fifo_of s)\<lparr>ff_queue := bs_queue s, ff_taken := ff_taken (fifo_of s) @ [m]\<rparr>"
    "ff_queue (fifo_of s) = m # bs_queue s"
    using consume sole_worker [OF inv consume(2)] by (simp_all add: fifo_of_def bs_active_def)
  then show ?thesis using fifo_step.take [of "fifo_of s" m "bs_queue s"] by simp
next
  case (drained i)
  then show ?thesis using sole_worker [OF inv drained(2)] by (simp add: fifo_of_def bs_active_def)
next
  case (leave i)
  then show ?thesis using sole_worker [OF inv leave(2)] by (simp add: fifo_of_def bs_active_def)
qed

interpretation broadcast: simulation broadcast_step fifo_step fifo_of broadcast_inv
  by unfold_locales (rule broadcast_simulates, assumption+, rule broadcast_step_inv, assumption+)

lemma broadcast_inv_start: "broadcast_inv broadcast_start"
  by (simp add: broadcast_inv_def broadcast_start_def bs_active_def held_by_def)

section \<open>Properties\<close>

text \<open>C2: Consuming implements a mailbox with flow control.  Every run of a process queue, its tasks and callbacks, in any
  interleaving and with any answers of the broker and the listener, is a run of the mailbox whose limit is the configured cache
  size: messages arrive only while fewer than the limit are pending, at most a batch at a time; each pending message is done at most
  once, one by one; and a queue that was taken away changes no more.\<close>

theorem consume_refines_mailbox:
  assumes "(consume_step c batch)\<^sup>*\<^sup>* (consume_initial threads mq fe now) s"
    and "cv_message_model c = CLUSTERING" "unat (cv_max_cached_quantity c) + batch < 2 ^ 32"
  shows "(mailbox_step (unat (cv_max_cached_quantity c)) batch)\<^sup>*\<^sup>* \<lparr>mb_open = True, mb_pending = {#}, mb_done = {#}\<rparr> (mailbox_of s)"
proof -
  have "consume_ok c batch (consume_initial threads mq fe now)"
    using consume_inv_initial assms(2,3) by (simp add: consume_ok_def)
  moreover have "mailbox_of (consume_initial threads mq fe now) = \<lparr>mb_open = True, mb_pending = {#}, mb_done = {#}\<rparr>"
    by (simp add: mailbox_of_def consume_start_def held_keys_def held_tasks_def svc_start_def ConsumeMessageService_new_def
        compare_exchange_strong_def)
  ultimately show ?thesis using consume.refines [OF assms(1)] by simp
qed

theorem consume_refines_mailbox_witness:
  "(mailbox_step 2 2)\<^sup>*\<^sup>* \<lparr>mb_open = True, mb_pending = {#}, mb_done = {#}\<rparr> (mailbox_of demo_failed)"
  using consume_refines_mailbox [OF demo_run [unfolded demo_initial_def]] by (simp add: demo_view_def)

text \<open>Broadcasting implements a first-in-first-out queue.\<close>

lemma broadcast_refines_fifo:
  "broadcast_step\<^sup>*\<^sup>* broadcast_start s \<Longrightarrow> fifo_step\<^sup>*\<^sup>* \<lparr>ff_queue = [], ff_taken = []\<rparr> (fifo_of s)"
  using broadcast.refines [OF _ broadcast_inv_start]
  by (simp add: fifo_of_def broadcast_start_def bs_active_def)

end
