(* ===== verification/Credentials.thy ===== *)
theory Credentials
  imports MixAll
begin

text \<open>
  Credentials and their four providers (rocketmq/CredentialsProvider.cpp, api/rocketmq/Credentials.h), and the texts
  of the error category (base/ErrorCategory.cpp).  Times are in nanoseconds.  Parameters: the environment, the content of
  a file, the parser of JSON (an object as the string values of its fields) and that of times, and the HTTP client.
\<close>

section \<open>Credentials\<close>

record Credentials =
  cr_access_key :: string
  cr_access_secret :: string
  cr_session_token :: string
  cr_expiration :: int

text \<open>\<open>time_point::max()\<close>.\<close>

definition time_point_max :: int where "time_point_max = 2 ^ 63 - 1"

definition Credentials_new :: "string \<Rightarrow> string \<Rightarrow> Credentials" where
  "Credentials_new key secret =
     \<lparr>cr_access_key = key, cr_access_secret = secret, cr_session_token = [], cr_expiration = time_point_max\<rparr>"

definition cr_empty :: "Credentials \<Rightarrow> bool" where
  "cr_empty c \<longleftrightarrow> cr_access_key c = [] \<or> cr_access_secret c = []"

definition cr_expired :: "int \<Rightarrow> Credentials \<Rightarrow> bool" where
  "cr_expired now c \<longleftrightarrow> now > cr_expiration c"

section \<open>Providers\<close>

definition EnvironmentVariables_getCredentials :: "(string \<rightharpoonup> string) \<Rightarrow> Credentials" where
  "EnvironmentVariables_getCredentials getenv =
     Credentials_new (case getenv ''ROCKETMQ_ACCESS_KEY'' of Some key \<Rightarrow> key | None \<Rightarrow> [])
       (case getenv ''ROCKETMQ_ACCESS_SECRET'' of Some secret \<Rightarrow> secret | None \<Rightarrow> [])"

text \<open>\<open>read_file\<close>: the content of a file that exists and opens.  The provider reads it once, when it is made.\<close>

definition ConfigFile_getCredentials ::
  "absl_strings \<Rightarrow> (string \<Rightarrow> (string \<rightharpoonup> string) option) \<Rightarrow> (string \<rightharpoonup> string) \<Rightarrow> (string \<rightharpoonup> string) \<Rightarrow> string option \<Rightarrow> Credentials" where
  "ConfigFile_getCredentials A parse_json read_file getenv pw_dir =
     (case homeDirectory getenv pw_dir [] of
        (False, _) \<Rightarrow> Credentials_new [] []
      | (True, dir) \<Rightarrow>
          (let config_file = (if EndsWith A dir ''/'' then dir else dir @ ''/'') @ ''rocketmq/credentials''
           in case read_file config_file of
                None \<Rightarrow> Credentials_new [] []
              | Some content \<Rightarrow>
                  (case parse_json content of
                     None \<Rightarrow> Credentials_new [] []
                   | Some root \<Rightarrow>
                       Credentials_new (case root ''AccessKey'' of Some key \<Rightarrow> key | None \<Rightarrow> [])
                         (case root ''AccessSecret'' of Some secret \<Rightarrow> secret | None \<Rightarrow> []))))"

text \<open>Credentials of a role, from the metadata service.  A new provider has no HTTP client until one is injected.\<close>

record sts_provider =
  sts_role :: string
  sts_access_key :: string
  sts_access_secret :: string
  sts_session_token :: string
  sts_expiration :: int
  sts_http :: "(string \<Rightarrow> string \<Rightarrow> int \<times> string) option"

definition Sts_new :: "string \<Rightarrow> sts_provider" where
  "Sts_new role =
     \<lparr>sts_role = role, sts_access_key = [], sts_access_secret = [], sts_session_token = [], sts_expiration = 0, sts_http = None\<rparr>"

definition withHttpClient :: "(string \<Rightarrow> string \<Rightarrow> int \<times> string) \<Rightarrow> sts_provider \<Rightarrow> sts_provider" where
  "withHttpClient http p = p\<lparr>sts_http := Some http\<rparr>"

text \<open>\<open>None\<close>: the process dies, of the missing client or of a field that is not in the answer.\<close>

definition sts_refresh ::
  "(string \<Rightarrow> (string \<rightharpoonup> string) option) \<Rightarrow> (string \<Rightarrow> string \<Rightarrow> int option) \<Rightarrow> sts_provider \<Rightarrow> sts_provider option" where
  "sts_refresh parse_json parse_time p =
     (case sts_http p of
        None \<Rightarrow> None
      | Some http \<Rightarrow>
          (case http ''100.100.100.200'' (''/latest/meta-data/Ram/security-credentials/'' @ sts_role p) of
             (code, body) \<Rightarrow>
               if code \<noteq> 200 then Some p
               else (case parse_json body of
                 None \<Rightarrow> Some p
               | Some doc \<Rightarrow>
                   (case (doc ''AccessKeyId'', doc ''AccessKeySecret'', doc ''SecurityToken'', doc ''Expiration'') of
                      (Some key, Some secret, Some token, Some expiration) \<Rightarrow>
                        Some (case parse_time ''%Y-%m-%d%ET%H:%H:%S%Ez'' expiration of
                          Some t \<Rightarrow> p\<lparr>sts_access_key := key, sts_access_secret := secret, sts_session_token := token,
                            sts_expiration := t\<rparr>
                        | None \<Rightarrow> p)
                    | _ \<Rightarrow> None))))"

definition sts_credentials :: "sts_provider \<Rightarrow> Credentials" where
  "sts_credentials p =
     \<lparr>cr_access_key = sts_access_key p, cr_access_secret = sts_access_secret p, cr_session_token = sts_session_token p,
      cr_expiration = sts_expiration p\<rparr>"

definition sts_getCredentials ::
  "(string \<Rightarrow> (string \<rightharpoonup> string) option) \<Rightarrow> (string \<Rightarrow> string \<Rightarrow> int option) \<Rightarrow> int \<Rightarrow> sts_provider \<Rightarrow>
   (sts_provider \<times> Credentials) option" where
  "sts_getCredentials parse_json parse_time now p =
     (case (if now \<ge> sts_expiration p then sts_refresh parse_json parse_time p else Some p) of
        None \<Rightarrow> None
      | Some p' \<Rightarrow> Some (p', sts_credentials p'))"

section \<open>Error texts\<close>

definition error_messages :: "(ErrorCode \<times> string) list" where
  "error_messages =
     [(Success, ''Success''),
      (IllegalState, ''Client state illegal. Forgot to call start()?''),
      (BadConfiguration, ''Bad configuration.''),
      (BadRequest, ''Message is ill-formed. Check validity of your topic, tag, etc''),
      (Unauthorized, ''Authentication failed. Possibly caused by invalid credentials.''),
      (Forbidden, ''Authenticated user does not have privilege to perform the requested action''),
      (NotFound, ''Topic not found, which should be created through console or administration API before hand.''),
      (RequestTimeout, ''Timeout when connecting, reading from or writing to brokers.''),
      (PayloadTooLarge, ''Message body is too large.''),
      (PreconditionRequired, ''State of dependent procedure is not right''),
      (TooManyRequest, ''Quota exchausted. The user has sent too many requests in a given amount of time.''),
      (UnavailableForLegalReasons, ''A server operator has received a legal demand to deny access to a resource or to a set of resources that includes the requested resource.''),
      (HeaderFieldsTooLarge, ''The server is unwilling to process the request because either an individual header field, or all the header fields collectively, are too large''),
      (InternalServerError, ''Server side interval error''),
      (NotImplemented, ''The server either does not recognize the request method, or it lacks the ability to fulfil the request.''),
      (BadGateway, ''The server was acting as a gateway or proxy and received an invalid response from the upstream server.''),
      (ServiceUnavailable, ''The server cannot handle the request (because it is overloaded or down for maintenance). Generally, this is a temporary state.''),
      (GatewayTimeout, ''The server was acting as a gateway or proxy and did not receive a timely response from the upstream server.''),
      (ProtocolVersionNotSupported, ''The server does not support the protocol version used in the request.''),
      (InsufficientStorage, ''The server is unable to store the representation needed to complete the request.'')]"

definition ErrorCategory_message :: "int \<Rightarrow> string" where
  "ErrorCategory_message code =
     (case find (\<lambda>(e, _). ErrorCode_value e = code) error_messages of
        Some (_, text) \<Rightarrow> text
      | None \<Rightarrow> ''Not-Implemented'')"

section \<open>Lemmas\<close>

text \<open>Credentials that have not expired are served from memory.\<close>

lemma sts_cached:
  "now < sts_expiration p \<Longrightarrow> sts_getCredentials parse_json parse_time now p = Some (p, sts_credentials p)"
  by (simp add: sts_getCredentials_def)

text \<open>A refresh changes all four fields or none.\<close>

lemma sts_refresh_atomic:
  assumes "sts_refresh parse_json parse_time p = Some p'"
  shows "p' = p \<or> (\<exists>http body doc key secret token expiration t.
    sts_http p = Some http \<and> http ''100.100.100.200'' (''/latest/meta-data/Ram/security-credentials/'' @ sts_role p) = (200, body) \<and>
    parse_json body = Some doc \<and> doc ''AccessKeyId'' = Some key \<and> doc ''AccessKeySecret'' = Some secret \<and>
    doc ''SecurityToken'' = Some token \<and> doc ''Expiration'' = Some expiration \<and>
    parse_time ''%Y-%m-%d%ET%H:%H:%S%Ez'' expiration = Some t \<and>
    sts_credentials p' = \<lparr>cr_access_key = key, cr_access_secret = secret, cr_session_token = token, cr_expiration = t\<rparr>)"
  using assms by (auto simp: sts_refresh_def sts_credentials_def split: option.splits prod.splits if_splits)

text \<open>When the refresh fails, the expired credentials are handed out.\<close>

lemma sts_stale:
  assumes "sts_http p = Some (\<lambda>_ _. (code, body))" "code \<noteq> 200" "sts_expiration p < now"
  shows "\<exists>c. sts_getCredentials parse_json parse_time now p = Some (p, c) \<and> cr_expired now c"
  using assms by (simp add: sts_getCredentials_def sts_refresh_def sts_credentials_def cr_expired_def)

text \<open>Without an injected client the first use of a provider of role credentials is the end of the process.\<close>

lemma sts_needs_client: "0 \<le> now \<Longrightarrow> sts_getCredentials parse_json parse_time now (Sts_new role) = None"
  by (simp add: sts_getCredentials_def sts_refresh_def Sts_new_def)

lemma sts_first_use:
  assumes "http ''100.100.100.200'' (''/latest/meta-data/Ram/security-credentials/'' @ role) = (200, body)"
    and "parse_json body = Some [''AccessKeyId'' \<mapsto> key, ''AccessKeySecret'' \<mapsto> secret, ''SecurityToken'' \<mapsto> token,
      ''Expiration'' \<mapsto> expiration]"
    and "parse_time ''%Y-%m-%d%ET%H:%H:%S%Ez'' expiration = Some t" "0 \<le> now"
  shows "\<exists>p. sts_getCredentials parse_json parse_time now (withHttpClient http (Sts_new role)) =
    Some (p, \<lparr>cr_access_key = key, cr_access_secret = secret, cr_session_token = token, cr_expiration = t\<rparr>)"
  using assms by (simp add: sts_getCredentials_def sts_refresh_def Sts_new_def withHttpClient_def sts_credentials_def)

text \<open>Every error code has a text of its own.\<close>

lemma error_texts_distinct: "distinct (map snd error_messages)"
  by code_simp

lemma error_texts_complete: "e \<in> set (map fst error_messages)"
  by (cases e) (simp_all add: error_messages_def)

lemma error_message_of_code: "ErrorCategory_message (ErrorCode_value e) = the (map_of error_messages e)"
  by (cases e) (simp_all add: ErrorCategory_message_def error_messages_def)

end
