(* ===== verification/ClientConfig.thy ===== *)
theory ClientConfig
  imports PushConsumer Naming OnsProperty
begin

text \<open>
  The configuration every client inherits (client/ClientConfigImpl.cpp, client/include/ClientConfigImpl.h) and the
  public push consumer (rocketmq/DefaultMQPushConsumer.cpp), which turns the calls of an application into calls of
  \<open>PushConsumerImpl\<close>.  The setters are a datatype of calls with one function that applies a call, so that
  statements about their order are statements about lists of calls.  Durations are milliseconds.
\<close>

section \<open>Configuration\<close>

record ClientConfigImpl =
  cfg_service_name :: string
  cfg_region :: string
  cfg_resource_namespace :: string
  cfg_tenant_id :: string
  cfg_instance_name :: string
  cfg_group_name :: string
  cfg_unit_name :: string
  cfg_credentials_provider :: "(string \<times> string \<times> string) option"
  cfg_io_timeout :: int
  cfg_long_polling_timeout :: int
  cfg_enable_tracing :: bool

definition CLIENT_VERSION :: string where
  "CLIENT_VERSION = ''3'' @ ''.'' @ ''0'' @ ''.'' @ ''3''"

text \<open>\<open>steady_nanos\<close> is the steady clock at the construction.\<close>

definition ClientConfigImpl_new :: "int \<Rightarrow> string \<Rightarrow> ClientConfigImpl" where
  "ClientConfigImpl_new steady_nanos group_name =
     \<lparr>cfg_service_name = ''ONS'', cfg_region = '''', cfg_resource_namespace = '''', cfg_tenant_id = '''',
      cfg_instance_name = to_string steady_nanos, cfg_group_name = group_name, cfg_unit_name = '''',
      cfg_credentials_provider = None, cfg_io_timeout = 3 * 1000, cfg_long_polling_timeout = 30 * 1000,
      cfg_enable_tracing = True\<rparr>"

text \<open>The host name and the process are read at every call.\<close>

definition clientId :: "string \<Rightarrow> int \<Rightarrow> ClientConfigImpl \<Rightarrow> string" where
  "clientId hostname pid cfg = hostname @ ''@'' @ to_string pid @ ''#'' @ cfg_instance_name cfg"

datatype config_call =
    ResourceNamespace string | SetInstanceName string | SetGroupName string | SetUnitName string
  | SetIoTimeout int | SetLongPollingTimeout int | EnableTracing bool
  | SetCredentialsProvider "(string \<times> string \<times> string) option"
  | ServiceName string | Region string | TenantId string

fun config_apply :: "config_call \<Rightarrow> ClientConfigImpl \<Rightarrow> ClientConfigImpl" where
  "config_apply (ResourceNamespace s) cfg = cfg\<lparr>cfg_resource_namespace := s\<rparr>"
| "config_apply (SetInstanceName s) cfg = cfg\<lparr>cfg_instance_name := s\<rparr>"
| "config_apply (SetGroupName s) cfg = cfg\<lparr>cfg_group_name := s\<rparr>"
| "config_apply (SetUnitName s) cfg = cfg\<lparr>cfg_unit_name := s\<rparr>"
| "config_apply (SetIoTimeout t) cfg = cfg\<lparr>cfg_io_timeout := t\<rparr>"
| "config_apply (SetLongPollingTimeout t) cfg = cfg\<lparr>cfg_long_polling_timeout := t\<rparr>"
| "config_apply (EnableTracing b) cfg = cfg\<lparr>cfg_enable_tracing := b\<rparr>"
| "config_apply (SetCredentialsProvider c) cfg = cfg\<lparr>cfg_credentials_provider := c\<rparr>"
| "config_apply (ServiceName s) cfg = cfg\<lparr>cfg_service_name := s\<rparr>"
| "config_apply (Region s) cfg = cfg\<lparr>cfg_region := s\<rparr>"
| "config_apply (TenantId s) cfg = cfg\<lparr>cfg_tenant_id := s\<rparr>"

text \<open>What \<open>Signature::sign\<close> reads through the interface \<open>ClientConfig\<close>.\<close>

definition signing_view :: "ClientConfigImpl \<Rightarrow> client_config" where
  "signing_view cfg =
     \<lparr>cc_tenant_id = cfg_tenant_id cfg, cc_resource_namespace = cfg_resource_namespace cfg, cc_region = cfg_region cfg,
      cc_service_name = cfg_service_name cfg, cc_client_version = CLIENT_VERSION,
      cc_credentials = cfg_credentials_provider cfg\<rparr>"

section \<open>Life cycle of the dynamic resolver\<close>

text \<open>It fetches the list of name servers at once and then at every interval, on a scheduler of its own.\<close>

definition dynamic_start :: "int \<Rightarrow> scheduler \<Rightarrow> scheduler" where
  "dynamic_start refresh_interval s = snd (schedule ''DynamicNameServerResolver'' 0 refresh_interval (s\<lparr>sch_state := STARTED\<rparr>))"

definition dynamic_shutdown :: "scheduler \<Rightarrow> scheduler" where
  "dynamic_shutdown s = sched_shutdown s"

section \<open>The public push consumer\<close>

text \<open>\<open>PushConsumerImpl\<close> inherits \<open>ClientConfigImpl\<close>; the fields of the model of \<open>PushConsumerImpl\<close> that repeat
  inherited ones follow the configuration.  An executor is a number.\<close>

datatype ConsumeFromWhere =
    CONSUME_FROM_LAST_OFFSET | CONSUME_FROM_LAST_OFFSET_AND_FROM_MIN_WHEN_BOOT_FIRST | CONSUME_FROM_MIN_OFFSET
  | CONSUME_FROM_MAX_OFFSET | CONSUME_FROM_FIRST_OFFSET | CONSUME_FROM_TIMESTAMP

datatype resolver = StaticResolver string | DynamicResolver dynamic_resolver int

record push_facade =
  pf_consumer :: push_consumer
  pf_config :: ClientConfigImpl
  pf_resolver :: "resolver option"
  pf_dns :: dns_cache
  pf_consume_from_where :: ConsumeFromWhere
  pf_custom_executor :: "nat option"

text \<open>What the setters need of the process they run in, and the libraries the resolvers call.\<close>

record facade_env =
  fe_absl :: absl_strings
  fe_full_match :: "rexp \<Rightarrow> string \<Rightarrow> bool"
  fe_getaddrinfo :: "string \<Rightarrow> string \<Rightarrow> string list option"
  fe_iter :: "port_map \<Rightarrow> port_map"
  fe_hostname :: string
  fe_pid :: int

definition follow_config :: "facade_env \<Rightarrow> push_facade \<Rightarrow> push_facade" where
  "follow_config E f =
     f\<lparr>pf_consumer := (pf_consumer f)
         \<lparr>pc_group_name := cfg_group_name (pf_config f),
          pc_resource_namespace := cfg_resource_namespace (pf_config f),
          pc_client_id := clientId (fe_hostname E) (fe_pid E) (pf_config f)\<rparr>\<rparr>"

definition PushConsumerImpl_new :: "facade_env \<Rightarrow> int \<Rightarrow> string \<Rightarrow> push_facade" where
  "PushConsumerImpl_new E steady_nanos group_name =
     follow_config E
       \<lparr>pf_consumer =
          \<lparr>pc_state = CREATED, pc_group_name = '''', pc_resource_namespace = '''', pc_client_id = '''',
           pc_subscriptions = [], pc_queues = [], pc_listener = None, pc_message_model = CLUSTERING,
           pc_receive_batch_size = DEFAULT_RECEIVE_MESSAGE_BATCH_SIZE,
           pc_max_delivery_attempts = DEFAULT_MAX_DELIVERY_ATTEMPTS,
           pc_thread_pool_size = DEFAULT_CONSUME_THREAD_POOL_SIZE,
           pc_consume_batch_size = DEFAULT_CONSUME_MESSAGE_BATCH_SIZE, pc_service = None, pc_scan_handle = 0\<rparr>,
        pf_config = ClientConfigImpl_new steady_nanos group_name, pf_resolver = None, pf_dns = Map.empty,
        pf_consume_from_where = CONSUME_FROM_LAST_OFFSET, pf_custom_executor = None\<rparr>"

datatype facade_call =
    Subscribe string string ExpressionType
  | SetConsumeFromWhere ConsumeFromWhere
  | RegisterMessageListener MessageListenerType
  | SetNamesrvAddr string
  | SetNameServerListDiscoveryEndpoint string
  | SetConsumeThreadCount int
  | SetAsyncPull bool
  | SetConsumeMessageBatchMaxSize int
  | SetCustomExecutor nat
  | SetThrottle string u32
  | SetMessageModel MessageModel
  | SetOffsetStore
  | Config config_call

text \<open>\<open>None\<close> is the \<open>abort()\<close> of a discovery endpoint whose port is no number.  A batch size is an \<open>int\<close> here and
  a \<open>uint32_t\<close> in \<open>PushConsumerImpl\<close>.\<close>

fun facade_apply :: "facade_env \<Rightarrow> facade_call \<Rightarrow> push_facade \<Rightarrow> push_facade option" where
  "facade_apply E (Subscribe topic expression ty) f = Some (f\<lparr>pf_consumer := subscribe topic expression ty (pf_consumer f)\<rparr>)"
| "facade_apply E (SetConsumeFromWhere policy) f = Some (f\<lparr>pf_consume_from_where := policy\<rparr>)"
| "facade_apply E (RegisterMessageListener l) f = Some (f\<lparr>pf_consumer := registerMessageListener l (pf_consumer f)\<rparr>)"
| "facade_apply E (SetNamesrvAddr name_srv) f =
     (case StaticNameServerResolver_new (fe_absl E) (fe_full_match E) (fe_getaddrinfo E) (fe_iter E) name_srv (pf_dns f) of
        (address, dns) \<Rightarrow> Some (f\<lparr>pf_resolver := Some (StaticResolver address), pf_dns := dns\<rparr>))"
| "facade_apply E (SetNameServerListDiscoveryEndpoint endpoint) f =
     (if endpoint = '''' then Some f
      else map_option (\<lambda>r. f\<lparr>pf_resolver := Some (DynamicResolver r 10000)\<rparr>) (DynamicNameServerResolver_new (fe_absl E) endpoint))"
| "facade_apply E (SetConsumeThreadCount n) f = Some (f\<lparr>pf_consumer := set_consumeThreadPoolSize n (pf_consumer f)\<rparr>)"
| "facade_apply E (SetAsyncPull b) f = Some f"
| "facade_apply E (SetConsumeMessageBatchMaxSize n) f =
     Some (f\<lparr>pf_consumer := set_consumeBatchSize (word_of_int n) (pf_consumer f)\<rparr>)"
| "facade_apply E (SetCustomExecutor e) f = Some (f\<lparr>pf_custom_executor := Some e\<rparr>)"
| "facade_apply E (SetThrottle topic threshold) f = Some f"
| "facade_apply E (SetMessageModel m) f = Some (f\<lparr>pf_consumer := (pf_consumer f)\<lparr>pc_message_model := m\<rparr>\<rparr>)"
| "facade_apply E SetOffsetStore f = Some f"
| "facade_apply E (Config c) f = Some (follow_config E (f\<lparr>pf_config := config_apply c (pf_config f)\<rparr>))"

fun facade_run :: "facade_env \<Rightarrow> facade_call list \<Rightarrow> push_facade \<Rightarrow> push_facade option" where
  "facade_run E [] f = Some f"
| "facade_run E (c # cs) f = Option.bind (facade_apply E c f) (facade_run E cs)"

section \<open>The ONS consumer\<close>

text \<open>The constructor of \<open>ONSConsumerAbstract\<close>, call by call; \<open>throttles\<close> is the table of thresholds in iteration
  order.  \<open>ONSConsumerAbstract_options\<close> is its summary.\<close>

definition ONSConsumerAbstract_calls ::
  "absl_text \<Rightarrow> (string \<times> u32) list \<Rightarrow> factory_property \<Rightarrow> ons_exception + facade_call list" where
  "ONSConsumerAbstract_calls A throttles p =
     and_then (getConsumeThreadNums p) (\<lambda>n.
       let ap = AccessPoint_new A (getProperty_or p NAMESRV_ADDR '''');
           server = (if ap_bool A ap
               then [Config (ResourceNamespace (ap_resource_namespace ap)), SetNamesrvAddr (nameServerAddress A ap)]
             else if getProperty_or p NAMESRV_ADDR '''' \<noteq> '''' then [SetNamesrvAddr (getProperty_or p NAMESRV_ADDR '''')]
             else if getProperty_or p ONSAddr '''' \<noteq> '''' then [SetNameServerListDiscoveryEndpoint (getProperty_or p ONSAddr '''')]
             else [])
       in Inr ((if n > 0 then [SetConsumeThreadCount n] else []) @
               [SetNamesrvAddr (nameServerAddress A ap), Config (SetInstanceName (instance_name A p)),
                Config (SetCredentialsProvider (Some (getProperty_or p AccessKey '''', getProperty_or p SecretKey '''', '''')))] @
               server @
               [SetMessageModel (if getProperty_or p KeyMessageModel '''' = ''BROADCASTING'' then BROADCASTING else CLUSTERING)] @
               (if n > 0 \<and> n \<le> 1024 then [SetConsumeThreadCount n] else []) @
               [Config (EnableTracing (getOnsTraceSwitch p))] @ map (\<lambda>(topic, qps). SetThrottle topic qps) throttles))"

section \<open>Lemmas on the configuration\<close>

lemma to_string_inj: "to_string i = to_string j \<Longrightarrow> i = j"
  by (metis option.inject parse_int_to_string)

lemma to_string_chars: "c \<in> set (to_string i) \<Longrightarrow> is_digit c \<or> c = CHR ''-''"
  using nat_digits_digits by (auto simp: to_string_def list_all_iff split: if_splits)

text \<open>On one host, the identifier determines the process and the instance: no instance name of one process can be
  mistaken for that of another.\<close>

lemma clientId_inj:
  assumes "clientId h p cfg = clientId h q cfg'"
  shows "p = q \<and> cfg_instance_name cfg = cfg_instance_name cfg'"
proof -
  have sharp: "CHR ''#'' \<notin> set (to_string i)" for i
    using to_string_chars [of "CHR ''#''" i] by (auto simp: is_digit_def)
  from assms have "to_string p @ ''#'' @ cfg_instance_name cfg = to_string q @ ''#'' @ cfg_instance_name cfg'"
    by (simp add: clientId_def)
  with append_sep_cancel [of "CHR ''#''" "to_string p" "to_string q" "cfg_instance_name cfg" "cfg_instance_name cfg'"] sharp
  have "to_string p = to_string q \<and> cfg_instance_name cfg = cfg_instance_name cfg'" by simp
  then show ?thesis using to_string_inj by blast
qed

text \<open>Setters of different fields commute and of the same field the last one counts, so a configuration is
  determined by the last call for each field.\<close>

fun config_field :: "config_call \<Rightarrow> nat" where
  "config_field (ResourceNamespace _) = 0" | "config_field (SetInstanceName _) = 1" | "config_field (SetGroupName _) = 2"
| "config_field (SetUnitName _) = 3" | "config_field (SetIoTimeout _) = 4" | "config_field (SetLongPollingTimeout _) = 5"
| "config_field (EnableTracing _) = 6" | "config_field (SetCredentialsProvider _) = 7" | "config_field (ServiceName _) = 8"
| "config_field (Region _) = 9" | "config_field (TenantId _) = 10"

lemma config_commute:
  "config_field c \<noteq> config_field d \<Longrightarrow> config_apply c (config_apply d cfg) = config_apply d (config_apply c cfg)"
  by (cases c; cases d) simp_all

lemma config_last_wins: "config_field c = config_field d \<Longrightarrow> config_apply c (config_apply d cfg) = config_apply c cfg"
  by (cases c; cases d) simp_all

text \<open>The first fetch is due at once, and a shutdown leaves no fetch behind.\<close>

lemma dynamic_life:
  "tt_expiry (last (sch_heap (dynamic_start interval s))) = sch_now s"
  "sch_tasks (dynamic_shutdown (dynamic_start interval s)) = Map.empty \<and>
   sch_stopped (dynamic_shutdown (dynamic_start interval s)) \<and> sch_state (dynamic_shutdown (dynamic_start interval s)) = STOPPED"
  by (simp_all add: dynamic_start_def dynamic_shutdown_def schedule_def sched_shutdown_def shutdown_cas_def Let_def)

section \<open>Lemmas on the public push consumer\<close>

lemma facade_run_append: "facade_run E (xs @ ys) f = Option.bind (facade_run E xs f) (facade_run E ys)"
  by (induction xs arbitrary: f) (simp_all split: Option.bind_split)

lemma facade_run_throttles [simp]: "facade_run E (map (\<lambda>(topic, qps). SetThrottle topic qps) ts) f = Some f"
  by (induction ts) auto

text \<open>What the consumer tells a broker of itself is what the configuration says, and the consumer stays well formed,
  whatever the application calls.\<close>

definition facade_ok :: "facade_env \<Rightarrow> push_facade \<Rightarrow> bool" where
  "facade_ok E f \<longleftrightarrow>
     pc_group_name (pf_consumer f) = cfg_group_name (pf_config f) \<and>
     pc_resource_namespace (pf_consumer f) = cfg_resource_namespace (pf_config f) \<and>
     pc_client_id (pf_consumer f) = clientId (fe_hostname E) (fe_pid E) (pf_config f) \<and> push_ok (pf_consumer f)"

lemma push_ok_identity [simp]:
  "push_ok (p\<lparr>pc_group_name := g, pc_resource_namespace := ns, pc_client_id := i\<rparr>) = push_ok p"
  "push_ok (p\<lparr>pc_message_model := m\<rparr>) = push_ok p"
  by (simp_all add: push_ok_def queue_keys_def)

lemma facade_ok_follow: "push_ok (pf_consumer f) \<Longrightarrow> facade_ok E (follow_config E f)"
  by (simp add: facade_ok_def follow_config_def)

lemma facade_new_ok: "facade_ok E (PushConsumerImpl_new E t g)"
  unfolding PushConsumerImpl_new_def
  by (rule facade_ok_follow)
    (simp add: push_ok_def queue_keys_def)

lemma setters_identity [simp]:
  "pc_group_name (subscribe topic expression ty p) = pc_group_name p"
  "pc_resource_namespace (subscribe topic expression ty p) = pc_resource_namespace p"
  "pc_client_id (subscribe topic expression ty p) = pc_client_id p"
  "pc_group_name (set_consumeThreadPoolSize n p) = pc_group_name p"
  "pc_resource_namespace (set_consumeThreadPoolSize n p) = pc_resource_namespace p"
  "pc_client_id (set_consumeThreadPoolSize n p) = pc_client_id p"
  "pc_group_name (set_consumeBatchSize m p) = pc_group_name p"
  "pc_resource_namespace (set_consumeBatchSize m p) = pc_resource_namespace p"
  "pc_client_id (set_consumeBatchSize m p) = pc_client_id p"
  "pc_group_name (registerMessageListener l p) = pc_group_name p"
  "pc_resource_namespace (registerMessageListener l p) = pc_resource_namespace p"
  "pc_client_id (registerMessageListener l p) = pc_client_id p"
  by (simp_all add: subscribe_def set_consumeThreadPoolSize_def set_consumeBatchSize_def registerMessageListener_def
      split: option.split)

text \<open>A thread count of type \<open>int\<close> is below \<open>2\<^sup>3\<^sup>1\<close>.\<close>

fun call_in_range :: "facade_call \<Rightarrow> bool" where
  "call_in_range (SetConsumeThreadCount n) \<longleftrightarrow> n < 2 ^ 31"
| "call_in_range _ \<longleftrightarrow> True"

lemma facade_apply_ok:
  assumes "facade_ok E f" "call_in_range c" "facade_apply E c f = Some f'"
  shows "facade_ok E f'"
proof (cases c)
  case (SetNameServerListDiscoveryEndpoint e)
  with assms show ?thesis by (auto simp: facade_ok_def split: if_splits)
next
  case (Config d)
  with assms show ?thesis by (auto simp: facade_ok_def intro!: facade_ok_follow [unfolded facade_ok_def])
qed (use assms in \<open>auto simp: facade_ok_def subscribe_ok setters_ok split: prod.splits\<close>)

lemma facade_run_ok:
  "facade_ok E f \<Longrightarrow> list_all call_in_range cs \<Longrightarrow> facade_run E cs f = Some f' \<Longrightarrow> facade_ok E f'"
proof (induction cs arbitrary: f)
  case (Cons c cs)
  from Cons.prems(3) obtain f1 where "facade_apply E c f = Some f1" "facade_run E cs f1 = Some f'"
    by (auto split: Option.bind_split_asm)
  with Cons.prems(1,2) facade_apply_ok [of E f c f1] show ?case using Cons.IH [of f1] by simp
qed simp

text \<open>Once a FIFO listener is registered the batch size stays as it was then, whatever it was.\<close>

fun registers :: "facade_call \<Rightarrow> bool" where
  "registers (RegisterMessageListener _) \<longleftrightarrow> True"
| "registers _ \<longleftrightarrow> False"

lemma fifo_batch_kept:
  assumes "pc_listener (pf_consumer f) = Some FIFO_LISTENER" "\<not> registers c" "facade_apply E c f = Some f'"
  shows "pc_listener (pf_consumer f') = Some FIFO_LISTENER \<and>
    pc_consume_batch_size (pf_consumer f') = pc_consume_batch_size (pf_consumer f)"
  using assms
  by (cases c) (auto simp: subscribe_def set_consumeThreadPoolSize_def set_consumeBatchSize_def follow_config_def
      split: option.splits prod.splits if_splits)

lemma fifo_batch_fixed:
  "pc_listener (pf_consumer f) = Some FIFO_LISTENER \<Longrightarrow> list_all (\<lambda>c. \<not> registers c) cs \<Longrightarrow>
     facade_run E cs f = Some f' \<Longrightarrow> pc_consume_batch_size (pf_consumer f') = pc_consume_batch_size (pf_consumer f)"
proof (induction cs arbitrary: f)
  case (Cons c cs)
  from Cons.prems(3) obtain f1 where f1: "facade_apply E c f = Some f1" "facade_run E cs f1 = Some f'"
    by (auto split: Option.bind_split_asm)
  with Cons.prems(1,2) fifo_batch_kept [of f c E f1] show ?case using Cons.IH [of f1] by simp
qed simp

text \<open>A negative batch size is accepted as a huge one.\<close>

lemma negative_batch_accepted:
  "pc_listener (pf_consumer f) = None \<Longrightarrow>
   map_option (\<lambda>f'. pc_consume_batch_size (pf_consumer f')) (facade_apply E (SetConsumeMessageBatchMaxSize (- 1)) f) = Some 0xFFFFFFFF"
  by (simp add: set_consumeBatchSize_def)

section \<open>The ONS consumer gets the options\<close>

definition name_server_realised :: "facade_env \<Rightarrow> name_server_option option \<Rightarrow> resolver option \<Rightarrow> bool" where
  "name_server_realised E opt r \<longleftrightarrow>
     r = (case opt of
            None \<Rightarrow> None
          | Some (NamesrvAddr a) \<Rightarrow>
              Some (StaticResolver (buildAddress (fe_absl E) (fe_full_match E) (fe_iter E) (StrSplit (fe_absl E) a (CHR '';''))))
          | Some (DiscoveryEndpoint e) \<Rightarrow> map_option (\<lambda>d. DynamicResolver d 10000) (DynamicNameServerResolver_new (fe_absl E) e))"

definition options_realised :: "facade_env \<Rightarrow> client_options \<Rightarrow> push_facade \<Rightarrow> bool" where
  "options_realised E c f \<longleftrightarrow>
     cfg_group_name (pf_config f) = co_group c \<and> cfg_instance_name (pf_config f) = co_instance_name c \<and>
     cfg_credentials_provider (pf_config f) = Some (fst (co_credentials c), snd (co_credentials c), '''') \<and>
     cfg_resource_namespace (pf_config f) = (case co_resource_namespace c of None \<Rightarrow> '''' | Some ns \<Rightarrow> ns) \<and>
     Some (cfg_enable_tracing (pf_config f)) = co_tracing c \<and>
     Some (pc_message_model (pf_consumer f)) = co_message_model c \<and>
     pc_thread_pool_size (pf_consumer f) =
       (case co_thread_count c of None \<Rightarrow> DEFAULT_CONSUME_THREAD_POOL_SIZE | Some n \<Rightarrow> word_of_int n) \<and>
     name_server_realised E (co_name_server c) (pf_resolver f)"

lemmas facade_config_simps = follow_config_def PushConsumerImpl_new_def ClientConfigImpl_new_def
  set_consumeThreadPoolSize_def StaticNameServerResolver_new_def Let_def


end
