(* ===== verification/Tracing.thy ===== *)
theory Tracing
  imports ClientConfig Sched
begin

text \<open>
  Tracing: the attributes a client puts on its spans (tracing/TracingUtility.cpp, rocketmq/ProducerImpl.cpp), the
  translation of finished OpenCensus spans into OpenTelemetry ones and their delivery (tracing/exporters/OtlpExporter.cpp),
  and the start of the exporter's poller, which every client runs when it starts.  OpenCensus is a library
  the code calls: a span is the list of the calls made on it, and a finished span is a record of what the exporter reads.
  Times are nanoseconds since the epoch where the code uses them so, and milliseconds in attributes and deadlines.
\<close>

section \<open>Attributes of a span\<close>

datatype attribute_value = AString string | AInt int | ABool bool

type_synonym attributes = "(string \<times> attribute_value) list"

datatype span_call =
    AddAttribute string attribute_value | AddAnnotation string attributes | SetStatus RpcCode | EndSpan

definition message_type_value :: "MessageType option \<Rightarrow> string" where
  "message_type_value t =
     (case t of Some FIFO \<Rightarrow> ''fifo'' | Some DELAY \<Rightarrow> ''delay'' | Some TRANSACTION \<Rightarrow> ''transaction'' | _ \<Rightarrow> ''normal'')"

text \<open>\<open>None\<close> is the dereference of a credentials provider that was not set.\<close>

definition addUniversalSpanAttributes ::
  "absl_strings \<Rightarrow> string \<Rightarrow> int \<Rightarrow> MQMessage \<Rightarrow> ClientConfigImpl \<Rightarrow> span_call list option" where
  "addUniversalSpanAttributes A hostname pid message cfg =
     (let sys = m_sys message; keys = sys_keys sys; timestamp_millis = sys_delivery_timestamp sys in
      case cfg_credentials_provider cfg of
        None \<Rightarrow> None
      | Some (access_key, _, _) \<Rightarrow> Some (
          [AddAttribute ''messaging.message_id'' (AString (sys_message_id sys)),
           AddAttribute ''messaging.message_payload_size_bytes'' (AInt (int (length (m_body message)))),
           AddAttribute ''messaging.rocketmq.message_tag'' (AString (sys_tag sys))] @
          (if keys \<noteq> [] then [AddAnnotation ''__message_keys'' [(''__message_keys'', AString (StrJoin A keys '' ''))]] else []) @
          [AddAttribute ''messaging.rocketmq.message_type'' (AString (message_type_value (sys_message_type sys)))] @
          (if timestamp_millis > 0 then [AddAttribute ''messaging.rocketmq.delivery_timestamp'' (AInt timestamp_millis)] else []) @
          [AddAttribute ''messaging.system'' (AString ''rocketmq''),
           AddAttribute ''messaging.destination'' (AString (m_topic message)),
           AddAttribute ''messaging.destination_kind'' (AString ''topic''),
           AddAttribute ''messaging.protocol'' (AString ''RMQ-gRPC''),
           AddAttribute ''messaging.protocol_version'' (AString ''v1''),
           AddAttribute ''messaging.rocketmq.namespace'' (AString (cfg_resource_namespace cfg)),
           AddAttribute ''messaging.rocketmq.client_id'' (AString (clientId hostname pid cfg)),
           AddAttribute ''messaging.rocketmq.client_group'' (AString (cfg_group_name cfg)),
           AddAttribute ''messaging.rocketmq.access_key'' (AString access_key),
           AddAttribute ''messaging.rocketmq.namespace'' (AString (cfg_resource_namespace cfg))]))"

text \<open>The span of one attempt to send a message; \<open>format_time\<close> is \<open>absl::FormatTime\<close>.\<close>

definition send_span ::
  "absl_strings \<Rightarrow> (int \<Rightarrow> string) \<Rightarrow> string \<Rightarrow> int \<Rightarrow> ClientConfigImpl \<Rightarrow> MQMessage \<Rightarrow> int \<Rightarrow> (string \<times> span_call list) option" where
  "send_span A format_time hostname pid cfg message attempt_time =
     map_option (\<lambda>universal.
       (cfg_resource_namespace cfg @ ''/'' @ m_topic message @ '' '' @ ''send'',
        [AddAttribute ''messaging.operation'' (AString ''send''), AddAttribute ''messaging.rocketmq.operation'' (AString ''send'')] @
        universal @ [AddAttribute ''messaging.rocketmq.attempt'' (AInt (1 + attempt_time))] @
        (if sys_delivery_timestamp (m_sys message) \<noteq> 0
         then [AddAttribute ''messaging.rocketmq.delivery_timestamp'' (AString (format_time (sys_delivery_timestamp (m_sys message))))]
         else [])))
       (addUniversalSpanAttributes A hostname pid message cfg)"

definition transaction_span ::
  "absl_strings \<Rightarrow> string \<Rightarrow> int \<Rightarrow> ClientConfigImpl \<Rightarrow> MQMessage \<Rightarrow> bool \<Rightarrow> (string \<times> span_call list) option" where
  "transaction_span A hostname pid cfg message commit =
     (let operation = (if commit then ''commit'' else ''rollback'') in
      map_option (\<lambda>universal.
        (cfg_resource_namespace cfg @ ''/'' @ m_topic message @ '' '' @ operation,
         [AddAttribute ''messaging.operation'' (AString operation), AddAttribute ''messaging.rocketmq.operation'' (AString operation)] @
         universal))
        (addUniversalSpanAttributes A hostname pid message cfg))"

text \<open>How a span ends: in \<open>RetrySendCallback\<close> and in the callback of \<open>endTransaction0\<close>.\<close>

definition send_span_end :: "bool \<Rightarrow> span_call list" where
  "send_span_end success = [SetStatus (if success then OK else INTERNAL), EndSpan]"

definition transaction_span_end :: "(ErrorCode \<Rightarrow> string) \<Rightarrow> ErrorCode \<Rightarrow> span_call list" where
  "transaction_span_end error_message ec =
     (if ec_bool ec then [SetStatus ABORTED, AddAnnotation (error_message ec) [], EndSpan] else [SetStatus OK, EndSpan])"

section \<open>Spans\<close>

text \<open>What the exporter reads of an \<open>opencensus::trace::exporter::SpanData\<close>; a message event is its time.\<close>

record annotation_event =
  an_timestamp :: int
  an_description :: string
  an_attributes :: attributes

record link_data =
  ln_trace_id :: bytes
  ln_span_id :: bytes
  ln_attributes :: attributes

record span_data =
  sd_trace_id :: bytes
  sd_span_id :: bytes
  sd_parent_span_id :: bytes
  sd_name :: string
  sd_start_time :: int
  sd_end_time :: int
  sd_message_events :: "int list"
  sd_message_events_dropped :: int
  sd_annotations :: "annotation_event list"
  sd_annotations_dropped :: int
  sd_links :: "link_data list"
  sd_attributes :: attributes
  sd_attributes_dropped :: int
  sd_ok :: bool
  sd_error_message :: string

text \<open>What it fills in of the messages of opentelemetry/proto/trace/v1 and common/v1.  A value of an attribute is
  absent until it is set.\<close>

datatype any_value = StringValue string | IntValue int | BoolValue bool | ArrayValue "any_value list"

type_synonym key_values = "(string \<times> any_value option) list"

datatype SpanKind =
    SPAN_KIND_UNSPECIFIED | SPAN_KIND_INTERNAL | SPAN_KIND_SERVER | SPAN_KIND_CLIENT | SPAN_KIND_PRODUCER | SPAN_KIND_CONSUMER

record otlp_event =
  oe_time :: u64
  oe_attributes :: key_values

record otlp_link =
  ol_trace_id :: bytes
  ol_span_id :: bytes
  ol_attributes :: key_values

record otlp_span =
  os_trace_id :: bytes
  os_span_id :: bytes
  os_parent_span_id :: bytes
  os_name :: string
  os_kind :: SpanKind
  os_start_time :: u64
  os_end_time :: u64
  os_attributes :: key_values
  os_events :: "otlp_event list"
  os_dropped_events :: u32
  os_links :: "otlp_link list"
  os_dropped_links :: u32
  os_status_ok :: bool
  os_status_message :: string

section \<open>Translation\<close>

text \<open>\<open>attr.second.int_value() * 1e6\<close> is computed in \<open>double\<close>: an integer is rounded to 53 bits, ties to even, and so
  is the product.  The conversion to \<open>uint64_t\<close> is undefined out of range, \<open>None\<close>.\<close>

fun bit_length :: "nat \<Rightarrow> nat" where
  "bit_length n = (if n = 0 then 0 else Suc (bit_length (n div 2)))"

declare bit_length.simps [simp del]

definition round_double :: "int \<Rightarrow> int" where
  "round_double i =
     (let a = nat \<bar>i\<bar>; e = bit_length a - 53; q = a div 2 ^ e; r = a mod 2 ^ e;
          q' = (if 2 ^ e < 2 * r \<or> (2 ^ e = 2 * r \<and> odd q) then q + 1 else q)
      in sgn i * int (q' * 2 ^ e))"

definition millis_to_nanos :: "int \<Rightarrow> u64 option" where
  "millis_to_nanos i =
     (let d = round_double (round_double i * 1000000) in if 0 \<le> d \<and> d < 2 ^ 64 then Some (word_of_int d) else None)"

fun any_value_of :: "attribute_value \<Rightarrow> any_value" where
  "any_value_of (AString s) = StringValue s"
| "any_value_of (AInt i) = IntValue i"
| "any_value_of (ABool b) = BoolValue b"

definition key_values_of :: "attributes \<Rightarrow> key_values" where
  "key_values_of = map (\<lambda>(k, v). (k, Some (any_value_of v)))"

text \<open>The two annotations the clients use among themselves.  \<open>None\<close> is a failing \<open>assert\<close> on the type of an
  attribute.\<close>

fun adjust_start_time :: "attributes \<Rightarrow> otlp_span \<Rightarrow> otlp_span option" where
  "adjust_start_time [] item = Some item"
| "adjust_start_time ((k, v) # attrs) item =
     (if k = ''__start_time''
      then (case v of
              AInt i \<Rightarrow> (case millis_to_nanos i of
                 None \<Rightarrow> None
               | Some t \<Rightarrow> adjust_start_time attrs (item\<lparr>os_start_time := t\<rparr>))
            | _ \<Rightarrow> None)
      else adjust_start_time attrs item)"

fun add_message_keys :: "absl_strings \<Rightarrow> attributes \<Rightarrow> otlp_span \<Rightarrow> otlp_span option" where
  "add_message_keys A [] item = Some item"
| "add_message_keys A ((k, v) # attrs) item =
     (if k = ''__message_keys''
      then (case v of
              AString keys \<Rightarrow> add_message_keys A attrs
                (item\<lparr>os_attributes := os_attributes item @
                   [(''messaging.rocketmq.message_keys'', Some (ArrayValue (map StringValue (StrSplit A keys (CHR '' '')))))]\<rparr>)
            | _ \<Rightarrow> None)
      else add_message_keys A attrs item)"

text \<open>Any other annotation becomes an event.  The value of its attributes is computed and dropped.\<close>

definition event_of :: "annotation_event \<Rightarrow> otlp_event" where
  "event_of an = \<lparr>oe_time = word_of_int (an_timestamp an), oe_attributes = map (\<lambda>(k, v). (k, None)) (an_attributes an)\<rparr>"

definition export_annotation :: "absl_strings \<Rightarrow> annotation_event \<Rightarrow> otlp_span \<Rightarrow> otlp_span option" where
  "export_annotation A an item =
     (if an_description an = ''__await_consumption'' then adjust_start_time (an_attributes an) item
      else if an_description an = ''__message_keys'' then add_message_keys A (an_attributes an) item
      else Some (item\<lparr>os_events := os_events item @ [event_of an]\<rparr>))"

fun export_annotations :: "absl_strings \<Rightarrow> annotation_event list \<Rightarrow> otlp_span \<Rightarrow> otlp_span option" where
  "export_annotations A [] item = Some item"
| "export_annotations A (an # ans) item = Option.bind (export_annotation A an item) (export_annotations A ans)"

text \<open>A link: both identifiers are written into the span, not into the link.\<close>

definition export_link :: "link_data \<Rightarrow> otlp_span \<Rightarrow> otlp_span" where
  "export_link link item =
     (let item1 = item\<lparr>os_trace_id := ln_trace_id link\<rparr>; item2 = item1\<lparr>os_trace_id := ln_span_id link\<rparr>
      in item2\<lparr>os_links := os_links item2 @
           [\<lparr>ol_trace_id = [], ol_span_id = [], ol_attributes = key_values_of (ln_attributes link)\<rparr>]\<rparr>)"

text \<open>The name is passed as a C string.  Message events are created but not added.\<close>

definition span_head :: "span_data \<Rightarrow> otlp_span" where
  "span_head sd =
     \<lparr>os_trace_id = sd_trace_id sd, os_span_id = sd_span_id sd, os_parent_span_id = sd_parent_span_id sd,
      os_name = takeWhile (\<lambda>c. c \<noteq> CHR 0x00) (sd_name sd), os_kind = SPAN_KIND_CLIENT,
      os_start_time = word_of_int (sd_start_time sd), os_end_time = word_of_int (sd_end_time sd),
      os_attributes = [], os_events = [],
      os_dropped_events = (if sd_message_events sd \<noteq> [] then word_of_int (sd_message_events_dropped sd) else 0),
      os_links = [], os_dropped_links = 0, os_status_ok = False, os_status_message = ''''\<rparr>"

definition span_tail :: "span_data \<Rightarrow> otlp_span \<Rightarrow> otlp_span" where
  "span_tail sd item =
     (let item1 = fold export_link (sd_links sd) item;
          item2 = item1\<lparr>os_dropped_links := word_of_int (sd_attributes_dropped sd),
                        os_attributes := os_attributes item1 @ key_values_of (sd_attributes sd)\<rparr>
      in if sd_ok sd then item2\<lparr>os_status_ok := True\<rparr>
         else item2\<lparr>os_status_ok := False, os_status_message := sd_error_message sd\<rparr>)"

definition export_span :: "absl_strings \<Rightarrow> span_data \<Rightarrow> otlp_span option" where
  "export_span A sd =
     (if sd_annotations sd = [] then Some (span_tail sd (span_head sd))
      else map_option (\<lambda>item. span_tail sd (item\<lparr>os_dropped_events := word_of_int (sd_annotations_dropped sd)\<rparr>))
        (export_annotations A (sd_annotations sd) (span_head sd)))"

section \<open>The exporter\<close>

datatype TraceMode = Off | Develop | Grpc

record otlp_exporter =
  ex_client_manager_alive :: bool
  ex_config :: ClientConfigImpl
  ex_hosts :: "string list"
  ex_mode :: TraceMode

definition OtlpExporter_new :: "bool \<Rightarrow> ClientConfigImpl \<Rightarrow> otlp_exporter" where
  "OtlpExporter_new alive cfg =
     \<lparr>ex_client_manager_alive = alive, ex_config = cfg, ex_hosts = [], ex_mode = (if cfg_enable_tracing cfg then Grpc else Off)\<rparr>"

definition updateHosts :: "string list \<Rightarrow> otlp_exporter \<Rightarrow> otlp_exporter" where
  "updateHosts hosts ex = (if hosts = [] then ex else ex\<lparr>ex_hosts := hosts\<rparr>)"

definition setTraceMode :: "TraceMode \<Rightarrow> otlp_exporter \<Rightarrow> otlp_exporter" where
  "setTraceMode mode ex = ex\<lparr>ex_mode := mode\<rparr>"

text \<open>\<open>clients_map_\<close> is the list of the hosts it has a client for, in the order of insertion; \<open>iter\<close> puts them in the
  order of iteration.\<close>

definition syncExportClients :: "otlp_exporter \<Rightarrow> string list \<Rightarrow> string list" where
  "syncExportClients ex clients =
     (let kept = filter (\<lambda>c. c \<in> set (ex_hosts ex)) clients
      in if ex_client_manager_alive ex then fold (\<lambda>host cs. if host \<in> set cs then cs else cs @ [host]) (ex_hosts ex) kept
         else kept)"

datatype trace_line =
    SpanLine int int string | AnnotationLine string string attribute_value | AttributesSize nat | AttributeLine string attribute_value

definition develop_lines :: "span_data \<Rightarrow> trace_line list" where
  "develop_lines sd =
     SpanLine (sd_start_time sd) (sd_end_time sd) (sd_name sd) #
     concat (map (\<lambda>an. map (\<lambda>(k, v). AnnotationLine (an_description an) k v) (an_attributes an)) (sd_annotations sd)) @
     AttributesSize (length (sd_attributes sd)) # map (\<lambda>(k, v). AttributeLine k v) (sd_attributes sd)"

record export_request =
  er_spans :: "otlp_span list"
  er_library :: "(string \<times> string) option"
  er_resource :: key_values

definition resource_attributes :: "string \<Rightarrow> key_values" where
  "resource_attributes hostname =
     [(''telemetry.sdk.language'', Some (StringValue ''cpp'')), (''host.name'', Some (StringValue hostname)),
      (''service.name'', Some (StringValue ''rocketmq-client''))]"

fun export_spans :: "absl_strings \<Rightarrow> span_data list \<Rightarrow> otlp_span list option" where
  "export_spans A [] = Some []"
| "export_spans A (sd # sds) =
     Option.bind (export_span A sd) (\<lambda>item. map_option (\<lambda>items. item # items) (export_spans A sds))"

record export_call =
  ec_remote_address :: string
  ec_deadline :: int
  ec_metadata :: metadata
  ec_request :: export_request

datatype export_outcome = NoExporter | TracingOff | Developed "trace_line list" | NoClient | Exported export_call | ExportAborted

text \<open>\<open>round_robin_\<close> belongs to the calling thread.\<close>

definition Export ::
  "absl_strings \<Rightarrow> (string list \<Rightarrow> string list) \<Rightarrow> (string \<Rightarrow> string \<Rightarrow> string) \<Rightarrow> string \<Rightarrow> string \<Rightarrow> int \<Rightarrow>
   otlp_exporter option \<Rightarrow> span_data list \<Rightarrow> string list \<times> u32 \<Rightarrow> export_outcome \<times> string list \<times> u32" where
  "Export A iter hmac hostname date_time now exporter spans st =
     (let (clients, round_robin) = st in
      case exporter of
        None \<Rightarrow> (NoExporter, st)
      | Some ex \<Rightarrow>
          (case ex_mode ex of
             Off \<Rightarrow> (TracingOff, st)
           | Develop \<Rightarrow> (Developed (concat (map develop_lines spans)), st)
           | Grpc \<Rightarrow>
               let clients' = syncExportClients ex clients
               in if clients' = [] then (NoClient, clients', round_robin)
                  else let remote = iter clients' ! (unat round_robin mod length clients')
                       in (case export_spans A spans of
                             None \<Rightarrow> ExportAborted
                           | Some items \<Rightarrow> Exported
                               \<lparr>ec_remote_address = remote, ec_deadline = now + 3 * 1000,
                                ec_metadata = sign hmac (signing_view (ex_config ex)) date_time Map.empty,
                                ec_request =
                                  \<lparr>er_spans = items,
                                   er_library = (if spans = [] then None else Some (''org.apache.rocketmq.message'', CLIENT_VERSION)),
                                   er_resource = resource_attributes hostname\<rparr>\<rparr>,
                           clients', round_robin + 1)))"

text \<open>The call is made only while the completion queue, which the handler owns, exists.\<close>

definition asyncExport :: "bool \<Rightarrow> export_call \<Rightarrow> export_call option" where
  "asyncExport queue_alive call = (if queue_alive then Some call else None)"

text \<open>\<open>ClientImpl::updateTraceHosts\<close> hands over the master brokers of the cached routes; \<open>iter\<close> is the order of a hash set.\<close>

definition updateTraceHosts :: "(string set \<Rightarrow> string list) \<Rightarrow> route_table \<Rightarrow> otlp_exporter \<Rightarrow> otlp_exporter" where
  "updateTraceHosts iter tbl ex = updateHosts (iter (trace_hosts tbl)) ex"

section \<open>Start and poll\<close>

text \<open>\<open>OtlpExporterHandler::start\<close> creates the poller and then waits for its signal; there is nothing it tests.  The
  positions of the caller are those of the scheduler; \<open>WSignal\<close> is a poller about to enter its first block.\<close>

inductive handler_step :: "main_pc \<times> worker_pc option \<Rightarrow> main_pc \<times> worker_pc option \<Rightarrow> bool" where
  spawn: "handler_step (MSpawn 1, None) (MLock, Some WSignal)"
| lock: "handler_step (MLock, w) (MEnter, w)"
| wait: "handler_step (MEnter, w) (MWaiting, w)"
| signal: "m \<noteq> MEnter \<Longrightarrow> handler_step (m, Some WSignal) (SignalAll m, Some WRun)"
| relock: "handler_step (MRelock, w) (MDone, w)"

text \<open>\<open>poll\<close>: the completions it handles and how it ends, given whether \<open>stopped_\<close> is set when it looks first, the
  completions that come, whether the queue is then shut down, and whether \<open>stopped_\<close> is set by then.  \<open>Next\<close> returns
  false only on a queue that is shut down and drained; it is called in a loop of its own.\<close>

datatype poll_end = BlockedInNext | Spinning | PollQuit

definition poll :: "bool \<Rightarrow> bool list \<Rightarrow> bool \<Rightarrow> bool \<Rightarrow> bool list \<times> poll_end" where
  "poll stopped_first completions queue_shutdown stopped_then =
     (if stopped_first then ([], PollQuit)
      else (completions, if \<not> queue_shutdown then BlockedInNext else if stopped_then then PollQuit else Spinning))"

text \<open>\<open>OtlpExporterHandler::shutdown\<close> sets \<open>stopped_\<close> and joins the poller; it does not shut the queue down.  Whether it
  returns, for a poller that has looked at \<open>stopped_\<close> before.\<close>

definition handler_shutdown_returns :: "bool list \<Rightarrow> bool" where
  "handler_shutdown_returns completions \<longleftrightarrow> snd (poll False completions False True) = PollQuit"

section \<open>Lemmas on translation\<close>

lemma export_link_simps [simp]:
  "os_trace_id (export_link l item) = ln_span_id l" "os_span_id (export_link l item) = os_span_id item"
  "os_parent_span_id (export_link l item) = os_parent_span_id item" "os_name (export_link l item) = os_name item"
  "os_attributes (export_link l item) = os_attributes item" "os_events (export_link l item) = os_events item"
  "os_links (export_link l item) =
     os_links item @ [\<lparr>ol_trace_id = [], ol_span_id = [], ol_attributes = key_values_of (ln_attributes l)\<rparr>]"
  by (simp_all add: export_link_def Let_def)

lemma fold_export_link:
  "os_trace_id (fold export_link ls item) = (if ls = [] then os_trace_id item else ln_span_id (last ls))"
  "os_span_id (fold export_link ls item) = os_span_id item"
  "os_attributes (fold export_link ls item) = os_attributes item"
  "os_events (fold export_link ls item) = os_events item"
  "os_links (fold export_link ls item) =
     os_links item @ map (\<lambda>l. \<lparr>ol_trace_id = [], ol_span_id = [], ol_attributes = key_values_of (ln_attributes l)\<rparr>) ls"
  by (induction ls arbitrary: item) auto

lemma span_tail_simps [simp]:
  "os_trace_id (span_tail sd item) = (if sd_links sd = [] then os_trace_id item else ln_span_id (last (sd_links sd)))"
  "os_span_id (span_tail sd item) = os_span_id item"
  "os_attributes (span_tail sd item) = os_attributes item @ key_values_of (sd_attributes sd)"
  "os_events (span_tail sd item) = os_events item"
  "os_links (span_tail sd item) =
     os_links item @ map (\<lambda>l. \<lparr>ol_trace_id = [], ol_span_id = [], ol_attributes = key_values_of (ln_attributes l)\<rparr>) (sd_links sd)"
  "os_status_ok (span_tail sd item) = sd_ok sd"
  by (simp_all add: span_tail_def Let_def fold_export_link)

lemma adjust_start_time_keeps:
  "adjust_start_time attrs item = Some item' \<Longrightarrow> \<exists>t. item' = item\<lparr>os_start_time := t\<rparr>"
proof (induction attrs item rule: adjust_start_time.induct)
  case (1 item)
  then show ?case by (metis adjust_start_time.simps(1) option.inject otlp_span.surjective otlp_span.update_convs(6))
next
  case (2 k v attrs item)
  then show ?case by (fastforce split: if_splits attribute_value.splits option.splits)
qed

lemma add_message_keys_keeps:
  "add_message_keys A attrs item = Some item' \<Longrightarrow> \<exists>as. item' = item\<lparr>os_attributes := os_attributes item @ as\<rparr>"
proof (induction attrs arbitrary: item)
  case Nil
  then show ?case by (intro exI [of _ "[]"]) simp
next
  case (Cons a attrs)
  then show ?case by (cases a) (fastforce split: if_splits attribute_value.splits)
qed

lemma export_annotation_keeps:
  assumes "export_annotation A an item = Some item'"
  shows "os_trace_id item' = os_trace_id item \<and> os_span_id item' = os_span_id item \<and> os_links item' = os_links item \<and>
    (os_events item' = os_events item \<or> os_events item' = os_events item @ [event_of an])"
  using assms by (auto simp: export_annotation_def dest!: adjust_start_time_keeps add_message_keys_keeps split: if_splits)

lemma export_annotations_keep:
  "export_annotations A ans item = Some item' \<Longrightarrow>
     os_trace_id item' = os_trace_id item \<and> os_span_id item' = os_span_id item \<and> os_links item' = os_links item \<and>
     set (os_events item') \<subseteq> set (os_events item) \<union> event_of ` set ans"
proof (induction ans arbitrary: item)
  case (Cons an ans)
  then obtain item1 where "export_annotation A an item = Some item1" "export_annotations A ans item1 = Some item'"
    by (auto split: Option.bind_split_asm)
  with Cons.IH [of item1] export_annotation_keeps [of A an item item1] show ?case by auto
qed simp

lemma export_span_cases:
  assumes "export_span A sd = Some item"
  obtains item0 where "item = span_tail sd item0" "os_trace_id item0 = sd_trace_id sd" "os_span_id item0 = sd_span_id sd"
    "os_links item0 = []" "set (os_events item0) \<subseteq> event_of ` set (sd_annotations sd)"
proof (cases "sd_annotations sd = []")
  case True
  with assms show ?thesis by (intro that [of "span_head sd"]) (simp_all add: export_span_def span_head_def)
next
  case False
  with assms obtain i where i: "export_annotations A (sd_annotations sd) (span_head sd) = Some i"
    "item = span_tail sd (i\<lparr>os_dropped_events := word_of_int (sd_annotations_dropped sd)\<rparr>)"
    by (auto simp: export_span_def)
  with export_annotations_keep [OF i(1)] show ?thesis
    by (intro that [OF i(2)]) (auto simp: span_head_def)
qed

text \<open>Keys without a blank come out as they went in.\<close>

lemma message_keys_roundtrip:
  assumes "absl_ok A" "keys \<noteq> []" "\<forall>k \<in> set keys. CHR '' '' \<notin> set k"
  shows "StrSplit A (StrJoin A keys '' '') (CHR '' '') = keys"
  using assms by (simp add: absl_StrJoin absl_StrSplit split_on_join)

section \<open>Lemmas on the handshake\<close>

inductive_simps handler_step_iff: "handler_step (m, w) c"

lemma handler_reach:
  "handler_step\<^sup>*\<^sup>* (MSpawn 1, None) c \<Longrightarrow>
     c = (MSpawn 1, None) \<or> c = (MLock, Some WSignal) \<or> c = (MEnter, Some WSignal) \<or> c = (MWaiting, Some WSignal) \<or>
     c = (MLock, Some WRun) \<or> c = (MEnter, Some WRun) \<or> c = (MWaiting, Some WRun) \<or> c = (MRelock, Some WRun) \<or>
     c = (MDone, Some WRun)"
proof (induction rule: rtranclp_induct)
  case (step y z)
  from step.IH step.hyps(2) show ?case
    by (elim disjE; hypsubst; simp add: handler_step_iff SignalAll_def) blast+
qed simp

lemma handler_path:
  "handler_step (MSpawn 1, None) (MLock, Some WSignal)" "handler_step (MLock, Some WSignal) (MLock, Some WRun)"
  "handler_step (MLock, w) (MEnter, w)" "handler_step (MEnter, w) (MWaiting, w)"
  "handler_step (MWaiting, Some WSignal) (MRelock, Some WRun)" "handler_step (MRelock, w) (MDone, w)"
  by (simp_all add: handler_step_iff SignalAll_def)

lemma handler_stuck: "\<not> handler_step (MDone, Some WRun) c" "\<not> handler_step (MWaiting, Some WRun) c"
  by (simp_all add: handler_step_iff)

lemmas handler_go = converse_rtranclp_into_rtranclp [where r = handler_step]

lemma handler_hangs: "handler_step\<^sup>*\<^sup>* (MSpawn 1, None) (MWaiting, Some WRun)"
  by (rule handler_go [OF handler_path(1)], rule handler_go [OF handler_path(2)],
      rule handler_go [OF handler_path(3)], rule r_into_rtranclp [where r = handler_step, OF handler_path(4)])

lemma handler_returns: "handler_step\<^sup>*\<^sup>* (MSpawn 1, None) (MDone, Some WRun)"
  by (rule handler_go [OF handler_path(1)], rule handler_go [OF handler_path(3)],
      rule handler_go [OF handler_path(4)], rule handler_go [OF handler_path(5)],
      rule r_into_rtranclp [where r = handler_step, OF handler_path(6)])

text \<open>\<open>shutdown\<close> never returns once the poller waits in \<open>Next\<close>.\<close>

lemma handler_shutdown_hangs: "\<not> handler_shutdown_returns completions"
  by (simp add: handler_shutdown_returns_def poll_def)

section \<open>Lemmas on delivery\<close>

lemma fold_add_hosts:
  "set (fold (\<lambda>host cs. if host \<in> set cs then cs else cs @ [host]) hosts cs) = set cs \<union> set hosts"
  "distinct cs \<Longrightarrow> distinct (fold (\<lambda>host cs. if host \<in> set cs then cs else cs @ [host]) hosts cs)"
  by (induction hosts arbitrary: cs) auto

lemma syncExportClients_hosts:
  "ex_client_manager_alive ex \<Longrightarrow> set (syncExportClients ex clients) = set (ex_hosts ex)"
  "set (syncExportClients ex clients) \<subseteq> set (ex_hosts ex)"
  by (auto simp: syncExportClients_def Let_def fold_add_hosts)

lemma syncExportClients_distinct: "distinct clients \<Longrightarrow> distinct (syncExportClients ex clients)"
  by (simp add: syncExportClients_def Let_def fold_add_hosts)

lemma Export_remote:
  assumes "Export A iter hmac hostname date_time now (Some ex) spans (clients, rr) = (Exported c, clients', rr')"
  shows "ec_remote_address c = iter clients' ! (unat rr mod length clients')" "clients' = syncExportClients ex clients"
    "clients' \<noteq> []" "rr' = rr + 1" "ec_deadline c = now + 3000"
  using assms by (auto simp: Export_def Let_def split: TraceMode.splits if_splits option.splits)

text \<open>The exports of one thread visit the hosts in turn: any \<open>n\<close> in a row, for \<open>n\<close> hosts, visit each of them once
  unless the counter wraps around.\<close>

lemma mod_window: "0 < n \<Longrightarrow> (\<lambda>k. (r + k) mod n) ` {..<n} = {..<(n :: nat)}"
proof (intro equalityI subsetI)
  fix x assume n: "0 < n" and "x \<in> {..<n}"
  then have "x = (r + (x + (n - r mod n)) mod n) mod n"
  proof -
    have "(r + (x + (n - r mod n)) mod n) mod n = (r mod n + (x + (n - r mod n))) mod n" by (simp add: mod_simps)
    also have "r mod n + (x + (n - r mod n)) = x + n" using mod_less_divisor [OF n, of r] by linarith
    finally show ?thesis using \<open>x \<in> {..<n}\<close> by simp
  qed
  with n show "x \<in> (\<lambda>k. (r + k) mod n) ` {..<n}" by (intro image_eqI [of _ _ "(x + (n - r mod n)) mod n"]) auto
qed auto

lemma round_robin_covers:
  assumes "clients \<noteq> []" "mset (iter clients) = mset clients" "unat rr + length clients \<le> 2 ^ 32"
  shows "set (map (\<lambda>k. iter clients ! (unat (rr + of_nat k :: u32) mod length clients)) [0..<length clients]) = set clients"
proof -
  let ?n = "length clients"
  have len: "length (iter clients) = ?n" using assms(2) by (metis size_mset)
  have "unat (rr + of_nat k :: u32) = unat rr + k" if "k < ?n" for k
    using that assms(3) by (simp add: unat_word_ariths unat_of_nat)
  then have "(\<lambda>k. iter clients ! (unat (rr + of_nat k :: u32) mod ?n)) ` {..<?n} = (!) (iter clients) ` ((\<lambda>k. (unat rr + k) mod ?n) ` {..<?n})"
    by (auto simp: image_image intro!: image_cong)
  also have "\<dots> = (!) (iter clients) ` {..<?n}" using assms(1) by (simp add: mod_window)
  also have "\<dots> = set (iter clients)" using len by (auto simp: set_conv_nth)
  also have "\<dots> = set clients" using mset_eq_setD [OF assms(2)] .
  finally show ?thesis by (simp add: lessThan_atLeast0)
qed

section \<open>Properties\<close>

text \<open>What OpenCensus documents of a finished span, for fewer calls than its limits: its annotations in order, the last
  value of each attribute, and the last status.  The clients add no link.\<close>

definition annotations_of :: "span_call list \<Rightarrow> (string \<times> attributes) list" where
  "annotations_of calls = concat (map (\<lambda>c. case c of AddAnnotation d a \<Rightarrow> [(d, a)] | _ \<Rightarrow> []) calls)"

definition attribute_of :: "span_call list \<Rightarrow> string \<Rightarrow> attribute_value option" where
  "attribute_of calls = map_of (rev (concat (map (\<lambda>c. case c of AddAttribute k v \<Rightarrow> [(k, v)] | _ \<Rightarrow> []) calls)))"

definition statuses_of :: "span_call list \<Rightarrow> RpcCode list" where
  "statuses_of calls = concat (map (\<lambda>c. case c of SetStatus s \<Rightarrow> [s] | _ \<Rightarrow> []) calls)"

definition recorded :: "span_call list \<Rightarrow> span_data \<Rightarrow> bool" where
  "recorded calls sd \<longleftrightarrow>
     map (\<lambda>an. (an_description an, an_attributes an)) (sd_annotations sd) = annotations_of calls \<and>
     map_of (sd_attributes sd) = attribute_of calls \<and> sd_links sd = [] \<and>
     sd_ok sd = (statuses_of calls = [] \<or> last (statuses_of calls) = OK)"

lemma calls_append [simp]:
  "annotations_of (xs @ ys) = annotations_of xs @ annotations_of ys" "statuses_of (xs @ ys) = statuses_of xs @ statuses_of ys"
  by (simp_all add: annotations_of_def statuses_of_def)

lemma send_span_annotations:
  assumes "send_span A format_time hostname pid cfg message attempt = Some (name, calls)"
  shows "annotations_of calls = (if sys_keys (m_sys message) = [] then []
      else [(''__message_keys'', [(''__message_keys'', AString (StrJoin A (sys_keys (m_sys message)) '' ''))])]) \<and>
    statuses_of calls = []"
  using assms
  by (auto simp: send_span_def addUniversalSpanAttributes_def annotations_of_def statuses_of_def Let_def split: option.splits if_splits)

text \<open>C21: From the message to the collector.  The span of a finished attempt to send a message, whose keys contain no
  blank, is exported with its own identifiers, without events, with the outcome as its status, and with exactly the
  recorded attributes preceded by the keys of the message as a list.\<close>

theorem send_span_exported:
  assumes "absl_ok A" "\<forall>k \<in> set (sys_keys (m_sys message)). CHR '' '' \<notin> set k"
    and "send_span A format_time hostname pid cfg message attempt = Some (name, calls)"
    and "recorded (calls @ send_span_end success) sd"
  shows "\<exists>item. export_span A sd = Some item \<and> os_trace_id item = sd_trace_id sd \<and> os_span_id item = sd_span_id sd \<and>
    os_events item = [] \<and> os_links item = [] \<and> os_status_ok item = success \<and>
    os_attributes item = (if sys_keys (m_sys message) = [] then []
        else [(''messaging.rocketmq.message_keys'', Some (ArrayValue (map StringValue (sys_keys (m_sys message)))))]) @
      key_values_of (sd_attributes sd)"
proof -
  let ?keys = "sys_keys (m_sys message)"
  have ok: "sd_ok sd = success" "sd_links sd = []"
    using assms(4) send_span_annotations [OF assms(3)] by (simp_all add: recorded_def send_span_end_def statuses_of_def)
  have anns: "map (\<lambda>an. (an_description an, an_attributes an)) (sd_annotations sd) = annotations_of calls"
    using assms(4) by (simp add: recorded_def send_span_end_def annotations_of_def)
  show ?thesis
  proof (cases "?keys = []")
    case True
    with anns send_span_annotations [OF assms(3)] ok show ?thesis
      by (simp add: export_span_def span_head_def)
  next
    case False
    with anns send_span_annotations [OF assms(3)] obtain an where an: "sd_annotations sd = [an]"
      "an_description an = ''__message_keys''" "an_attributes an = [(''__message_keys'', AString (StrJoin A ?keys '' ''))]"
      by (auto simp: map_eq_Cons_conv)
    with message_keys_roundtrip [OF assms(1) False assms(2)] False ok show ?thesis
      by (simp add: export_span_def export_annotation_def span_head_def)
  qed
qed

definition demo_config :: ClientConfigImpl where
  "demo_config = config_apply (SetCredentialsProvider (Some (''k'', ''s'', ''''))) (ClientConfigImpl_new 7 ''g'')"

definition demo_traced :: MQMessage where
  "demo_traced = setKeys [''k1'', ''k2''] (MQMessage_new (Some NORMAL) 1 ''host'' ''id'' ''T'' '''' '''' ''body'')"

definition demo_span :: span_data where
  "demo_span =
     \<lparr>sd_trace_id = replicate 16 1, sd_span_id = replicate 8 2, sd_parent_span_id = replicate 8 0, sd_name = ''/T send'',
      sd_start_time = 1, sd_end_time = 2, sd_message_events = [], sd_message_events_dropped = 0,
      sd_annotations = [\<lparr>an_timestamp = 1, an_description = ''__message_keys'', an_attributes = [(''__message_keys'', AString ''k1 k2'')]\<rparr>],
      sd_annotations_dropped = 0, sd_links = [],
      sd_attributes = rev (concat (map (\<lambda>c. case c of AddAttribute k v \<Rightarrow> [(k, v)] | _ \<Rightarrow> [])
        (snd (the (send_span absl_ref (\<lambda>_. '''') ''h'' 1 demo_config demo_traced 0))))),
      sd_attributes_dropped = 0, sd_ok = True, sd_error_message = ''''\<rparr>"

theorem send_span_exported_witness:
  "\<exists>item. export_span absl_ref demo_span = Some item \<and> os_trace_id item = replicate 16 1 \<and> os_status_ok item"
proof -
  obtain name calls where s: "send_span absl_ref (\<lambda>_. '''') ''h'' 1 demo_config demo_traced 0 = Some (name, calls)"
    by (simp add: send_span_def addUniversalSpanAttributes_def demo_config_def Let_def)
  have keys: "sys_keys (m_sys demo_traced) = [''k1'', ''k2'']" by (simp add: demo_traced_def setKeys_def)
  have "annotations_of calls = [(''__message_keys'', [(''__message_keys'', AString ''k1 k2'')])]" "statuses_of calls = []"
    using send_span_annotations [OF s] keys by (simp_all add: absl_StrJoin)
  then have "recorded (calls @ send_span_end True) demo_span"
    using s by (simp add: recorded_def demo_span_def send_span_end_def attribute_of_def annotations_of_def statuses_of_def)
  with send_span_exported [OF absl_ref_ok _ s, of True demo_span] keys show ?thesis by (auto simp: demo_span_def)
qed

text \<open>What an exported span loses.  A span with links takes the span identifier of its last link for its trace
  identifier, and the links have none; no attribute of an event has a value.\<close>

theorem exported_span_losses:
  assumes "export_span A sd = Some item"
  shows "os_trace_id item = (if sd_links sd = [] then sd_trace_id sd else ln_span_id (last (sd_links sd))) \<and>
    list_all (\<lambda>l. ol_trace_id l = [] \<and> ol_span_id l = []) (os_links item) \<and> length (os_links item) = length (sd_links sd) \<and>
    list_all (\<lambda>ev. list_all (\<lambda>(k, v). v = None) (oe_attributes ev)) (os_events item)"
proof -
  from assms obtain item0 where i: "item = span_tail sd item0" "os_trace_id item0 = sd_trace_id sd" "os_links item0 = []"
    "set (os_events item0) \<subseteq> event_of ` set (sd_annotations sd)"
    by (rule export_span_cases)
  have "list_all (\<lambda>(k, v). v = None) (oe_attributes (event_of an))" for an
    by (auto simp: event_of_def list_all_iff)
  with i(4) have "\<forall>ev \<in> set (os_events item0). list_all (\<lambda>(k, v). v = None) (oe_attributes ev)" by blast
  with i(1-3) show ?thesis by (simp add: list_all_iff)
qed

definition demo_linked :: span_data where
  "demo_linked = demo_span\<lparr>sd_annotations := [], sd_links := [\<lparr>ln_trace_id = replicate 16 3, ln_span_id = replicate 8 4, ln_attributes = []\<rparr>]\<rparr>"

theorem exported_span_losses_witness:
  "\<exists>item. export_span absl_ref demo_linked = Some item \<and> os_trace_id item = replicate 8 4 \<and> sd_trace_id demo_linked = replicate 16 1"
proof -
  have e: "export_span absl_ref demo_linked = Some (span_tail demo_linked (span_head demo_linked))"
    by (simp add: export_span_def demo_linked_def)
  then show ?thesis using exported_span_losses [OF e] by (simp add: demo_linked_def demo_span_def)
qed

text \<open>C36: Every client starts this handshake when it starts, and it can hang: the runs of the caller and the poller end
  either with both running or with the poller running and the caller waiting for a signal that has gone by.\<close>

theorem exporter_start_ends:
  "handler_step\<^sup>*\<^sup>* (MSpawn 1, None) c \<and> (\<nexists>c'. handler_step c c') \<longleftrightarrow>
     c = (MDone, Some WRun) \<or> c = (MWaiting, Some WRun)"
proof
  assume c: "handler_step\<^sup>*\<^sup>* (MSpawn 1, None) c \<and> (\<nexists>c'. handler_step c c')"
  then show "c = (MDone, Some WRun) \<or> c = (MWaiting, Some WRun)"
    using handler_reach [of c] handler_path by (elim conjE disjE impE) blast+
next
  assume "c = (MDone, Some WRun) \<or> c = (MWaiting, Some WRun)"
  then show "handler_step\<^sup>*\<^sup>* (MSpawn 1, None) c \<and> (\<nexists>c'. handler_step c c')"
    using handler_hangs handler_returns handler_stuck by blast
qed

text \<open>A thread that exports batch after batch.\<close>

fun export_run ::
  "absl_strings \<Rightarrow> (string list \<Rightarrow> string list) \<Rightarrow> (string \<Rightarrow> string \<Rightarrow> string) \<Rightarrow> string \<Rightarrow> otlp_exporter \<Rightarrow>
   (string \<times> int \<times> span_data list) list \<Rightarrow> string list \<times> u32 \<Rightarrow> export_outcome list" where
  "export_run A iter hmac hostname ex [] st = []"
| "export_run A iter hmac hostname ex ((date_time, now, spans) # bs) st =
     (case Export A iter hmac hostname date_time now (Some ex) spans st of
        (out, st') \<Rightarrow> out # export_run A iter hmac hostname ex bs st')"

fun remote_of :: "export_outcome \<Rightarrow> string option" where
  "remote_of (Exported c) = Some (ec_remote_address c)"
| "remote_of _ = None"

lemma fold_add_known: "set hosts \<subseteq> set cs \<Longrightarrow> fold (\<lambda>host cs. if host \<in> set cs then cs else cs @ [host]) hosts cs = cs"
  by (induction hosts) auto

lemma syncExportClients_again:
  "ex_client_manager_alive ex \<Longrightarrow> set clients = set (ex_hosts ex) \<Longrightarrow> syncExportClients ex clients = clients"
  by (simp add: syncExportClients_def Let_def fold_add_known)

lemma Export_steady:
  assumes "ex_mode ex = Grpc" "clients' = syncExportClients ex clients" "clients' \<noteq> []" "export_spans A spans \<noteq> None"
  shows "\<exists>c. Export A iter hmac hostname date_time now (Some ex) spans (clients, rr) = (Exported c, clients', rr + 1) \<and>
    ec_remote_address c = iter clients' ! (unat rr mod length clients')"
  using assms by (auto simp: Export_def Let_def)

lemma export_run_targets:
  assumes "ex_client_manager_alive ex" "ex_mode ex = Grpc" "set clients = set (ex_hosts ex)" "clients \<noteq> []"
    and "list_all (\<lambda>(d, t, spans). export_spans A spans \<noteq> None) bs"
  shows "map remote_of (export_run A iter hmac hostname ex bs (clients, rr)) =
    map (\<lambda>k. Some (iter clients ! (unat (rr + of_nat k :: u32) mod length clients))) [0..<length bs]"
  using assms(5)
proof (induction bs arbitrary: rr)
  case (Cons b bs)
  obtain d t spans where b: "b = (d, t, spans)" by (cases b)
  have again: "clients = syncExportClients ex clients" using syncExportClients_again [OF assms(1,3)] by simp
  from Cons.prems b have "export_spans A spans \<noteq> None" by simp
  with Export_steady [OF assms(2) again assms(4)] obtain c where
    "Export A iter hmac hostname d t (Some ex) spans (clients, rr) = (Exported c, clients, rr + 1)"
    "ec_remote_address c = iter clients ! (unat rr mod length clients)" by blast
  with Cons.IH [of "rr + 1"] Cons.prems b show ?case
    by (simp add: map_upt_Suc add.assoc [symmetric] add.commute [of _ 1] del: upt_Suc)
qed simp

text \<open>C27: Traces go to the brokers in turn.  Once the trace hosts have been taken from the route table, as many batches
  in a row as there are master brokers with a permission in it reach exactly these brokers, each once, unless the
  counter of the thread wraps around.\<close>

theorem traces_reach_masters:
  assumes "set (order (trace_hosts tbl)) = trace_hosts tbl" "distinct (order (trace_hosts tbl))" "trace_hosts tbl \<noteq> {}"
    and "ex_client_manager_alive ex" "ex_mode ex = Grpc" "ex' = updateTraceHosts order tbl ex"
    and "clients = syncExportClients ex' old" "distinct old" "mset (iter clients) = mset clients"
    and "length bs = card (trace_hosts tbl)" "list_all (\<lambda>(d, t, spans). export_spans A spans \<noteq> None) bs"
    and "unat rr + length bs \<le> 2 ^ 32"
  shows "remote_of ` set (export_run A iter hmac hostname ex' bs (clients, rr)) = Some ` trace_hosts tbl"
proof -
  have hosts: "ex_hosts ex' = order (trace_hosts tbl)" "ex_client_manager_alive ex'" "ex_mode ex' = Grpc"
    using assms(1,3-6) by (auto simp: updateTraceHosts_def updateHosts_def)
  then have cl: "set clients = trace_hosts tbl" "distinct clients"
    using assms(1,7,8) by (simp_all add: syncExportClients_hosts syncExportClients_distinct)
  then have n: "length clients = length bs" using assms(10) distinct_card by metis
  have ne: "clients \<noteq> []" using cl(1) assms(3) by auto
  have "map remote_of (export_run A iter hmac hostname ex' bs (clients, rr)) =
    map (\<lambda>k. Some (iter clients ! (unat (rr + of_nat k :: u32) mod length clients))) [0..<length clients]"
    using export_run_targets [OF hosts(2,3) _ ne assms(11)] cl(1) hosts(1) assms(1) n by simp
  from arg_cong [OF this, of set] have "remote_of ` set (export_run A iter hmac hostname ex' bs (clients, rr)) =
    Some ` set (map (\<lambda>k. iter clients ! (unat (rr + of_nat k :: u32) mod length clients)) [0..<length clients])"
    by (simp add: image_image)
  also have "\<dots> = Some ` set clients" using round_robin_covers [of clients iter rr] ne assms(9,12) n by simp
  finally show ?thesis using cl(1) by simp
qed

definition demo_broker :: "string \<Rightarrow> int \<Rightarrow> Partition" where
  "demo_broker host i =
     \<lparr>p_topic = \<lparr>t_resource_namespace = [], t_name = ''T''\<rparr>,
      p_broker = \<lparr>b_name = host, b_id = i, b_service_address = ServiceAddress_new IPv4 [\<lparr>a_host = host, a_port = 80\<rparr>]\<rparr>,
      p_id = 0, p_permission = READ_WRITE\<rparr>"

definition demo_table :: route_table where
  "demo_table = [(''T'', \<lparr>rd_partitions = [demo_broker ''a'' 0, demo_broker ''b'' 0, demo_broker ''c'' 1], rd_debug_string = ''''\<rparr>)]"

lemma export_spans_demo: "export_spans absl_ref [demo_span] \<noteq> None"
  by (simp add: export_span_def demo_span_def export_annotation_def)

theorem traces_reach_masters_witness:
  "trace_hosts demo_table = {''ipv4:a:80'', ''ipv4:b:80''} \<and>
   remote_of ` set (export_run absl_ref id (\<lambda>_ _. '''') ''h''
     (updateTraceHosts (\<lambda>_. [''ipv4:a:80'', ''ipv4:b:80'']) demo_table (OtlpExporter_new True demo_config))
     [('''', 0, [demo_span]), ('''', 1, [])] ([''ipv4:a:80'', ''ipv4:b:80''], 5)) =
   Some ` {''ipv4:a:80'', ''ipv4:b:80''}"
proof -
  let ?hs = "[''ipv4:a:80'', ''ipv4:b:80'']"
  have f: "p_permission (demo_broker h i) = READ_WRITE" "b_id (p_broker (demo_broker h i)) = i" for h i
    by (simp_all add: demo_broker_def)
  have a: "broker_serviceAddress (p_broker (demo_broker ''a'' 0)) = ''ipv4:a:80''"
    "broker_serviceAddress (p_broker (demo_broker ''b'' 0)) = ''ipv4:b:80''" by code_simp+
  have t: "trace_hosts demo_table = set ?hs"
    by (simp add: trace_hosts_def demo_table_def f a del: set_filter)
  let ?ex = "updateTraceHosts (\<lambda>_. ?hs) demo_table (OtlpExporter_new True demo_config)"
  have c: "?hs = syncExportClients ?ex []"
    by (simp add: updateTraceHosts_def updateHosts_def OtlpExporter_new_def syncExportClients_def)
  have "remote_of ` set (export_run absl_ref id (\<lambda>_ _. '''') ''h'' ?ex [('''', 0, [demo_span]), ('''', 1, [])] (?hs, 5)) =
    Some ` trace_hosts demo_table"
    by (rule traces_reach_masters [where old = "[]" and ex = "OtlpExporter_new True demo_config", OF _ _ _ _ _ refl c])
      (use t export_spans_demo in \<open>simp_all add: OtlpExporter_new_def demo_config_def ClientConfigImpl_new_def del: export_spans.simps(2)\<close>)
  with t show ?thesis by (simp del: export_run.simps)
qed

end
