(* ===== verification/Rpc.thy ===== *)
theory Rpc
  imports ClientManager ClientCore
begin

text \<open>
  The outgoing half of the remote calls (client/ClientManagerImpl.cpp, client/RpcClientImpl.cpp,
  base/include/InvocationContext.h) and the way of a call through the completion queue, its poller and the pool of
  callbacks, with the shutdown of the client manager running against it.  gRPC is not part of the repository: a call
  that has been started is in flight until gRPC puts it into the completion queue, at its deadline at the latest.
  Times are milliseconds; metadata is the list of entries added.
\<close>

section \<open>Calls\<close>

type_synonym entries = "(string \<times> string) list"

record invocation =
  iv_task_name :: string
  iv_remote_address :: string
  iv_metadata :: entries
  iv_deadline :: "int option"

text \<open>The constructor of \<open>BaseInvocationContext\<close> adds the request identifier.\<close>

definition InvocationContext_new :: "string \<Rightarrow> invocation" where
  "InvocationContext_new request_id =
     \<lparr>iv_task_name = '''', iv_remote_address = '''', iv_metadata = [(''x-mq-request-id'', request_id)], iv_deadline = None\<rparr>"

definition queue_label :: "string \<Rightarrow> string \<Rightarrow> string \<Rightarrow> int \<Rightarrow> string" where
  "queue_label grp topic broker i = ''queue['' @ grp @ ''-'' @ topic @ ''-'' @ broker @ ''-'' @ to_string i @ '']''"

text \<open>Each function takes the target, the metadata, the time now and the timeout, and returns the call it starts and the
  client manager, whose table of RPC clients has an entry for the target.  \<open>getRpcClient\<close> never returns null, so the
  tests of some functions for a missing client have no branch here.\<close>

type_synonym outgoing_call = "string \<Rightarrow> string \<Rightarrow> entries \<Rightarrow> int \<Rightarrow> int \<Rightarrow> client_manager \<Rightarrow> invocation \<times> client_manager"

definition remote_call :: "bool \<Rightarrow> bool \<Rightarrow> string \<Rightarrow> outgoing_call" where
  "remote_call need_heartbeat timed task rid target metadata now timeout m =
     (let ctx = InvocationContext_new rid
      in (ctx\<lparr>iv_task_name := task, iv_remote_address := target, iv_metadata := iv_metadata ctx @ metadata,
              iv_deadline := (if timed then Some (now + timeout) else None)\<rparr>,
          getRpcClient target need_heartbeat m))"

definition cm_healthCheck :: outgoing_call where
  "cm_healthCheck rid target = remote_call True True (''HealthCheck to '' @ target) rid target"

definition cm_heartbeat :: outgoing_call where
  "cm_heartbeat rid target = remote_call True True (''Heartbeat to '' @ target) rid target"

text \<open>\<open>send\<close> has no timeout and sets no deadline.\<close>

definition cm_send :: "string \<Rightarrow> outgoing_call" where
  "cm_send message_id rid target =
     remote_call True False (''Send message[message-id='' @ message_id @ ''] to '' @ target) rid target"

definition cm_resolveRoute :: "string \<Rightarrow> outgoing_call" where
  "cm_resolveRoute topic rid target = remote_call False True (''Query route of topic='' @ topic @ '' from '' @ target) rid target"

definition cm_queryAssignment :: outgoing_call where
  "cm_queryAssignment rid target = remote_call True True (''QueryAssignment from '' @ target) rid target"

definition cm_receiveMessage :: "string \<Rightarrow> string \<Rightarrow> string \<Rightarrow> int \<Rightarrow> outgoing_call" where
  "cm_receiveMessage grp topic broker i rid target =
     remote_call True True (''ReceiveMessage from '' @ queue_label grp topic broker i @ '', host='' @ target) rid target"

definition cm_ack :: "string \<Rightarrow> outgoing_call" where
  "cm_ack message_id rid target = remote_call True True (''Ack message['' @ message_id @ ''] against '' @ target) rid target"

definition cm_nack :: "string \<Rightarrow> outgoing_call" where
  "cm_nack message_id rid target = remote_call True True (''Nack Message['' @ message_id @ ''] against '' @ target) rid target"

text \<open>The format has two places and three arguments: the message identifier stands where the host is meant.\<close>

definition cm_endTransaction :: "string \<Rightarrow> string \<Rightarrow> outgoing_call" where
  "cm_endTransaction transaction_id message_id rid target =
     remote_call True True (''End transaction['' @ transaction_id @ ''] of message[] against '' @ message_id) rid target"

definition cm_pollCommand :: outgoing_call where
  "cm_pollCommand rid target = remote_call True True '''' rid target"

definition cm_queryOffset :: outgoing_call where
  "cm_queryOffset rid target = remote_call True True '''' rid target"

definition cm_pullMessage :: "string \<Rightarrow> string \<Rightarrow> string \<Rightarrow> int \<Rightarrow> outgoing_call" where
  "cm_pullMessage grp topic broker i rid target =
     remote_call True True (''PullMessage for '' @ queue_label grp topic broker i @ '' from '' @ target) rid target"

definition cm_forwardMessageToDeadLetterQueue :: "string \<Rightarrow> outgoing_call" where
  "cm_forwardMessageToDeadLetterQueue message_id rid target =
     remote_call True True (''Forward message['' @ message_id @ ''] to DLQ against '' @ target) rid target"

datatype rpc_request =
    HealthCheckCall | HeartbeatCall | SendCall string | ResolveRouteCall string | QueryAssignmentCall
  | ReceiveMessageCall string string string int | AckCall string | NackCall string | EndTransactionCall string string
  | PollCommandCall | QueryOffsetCall | PullMessageCall string string string int | ForwardCall string

fun call_of :: "rpc_request \<Rightarrow> outgoing_call" where
  "call_of HealthCheckCall = cm_healthCheck"
| "call_of HeartbeatCall = cm_heartbeat"
| "call_of (SendCall message_id) = cm_send message_id"
| "call_of (ResolveRouteCall topic) = cm_resolveRoute topic"
| "call_of QueryAssignmentCall = cm_queryAssignment"
| "call_of (ReceiveMessageCall grp topic broker i) = cm_receiveMessage grp topic broker i"
| "call_of (AckCall message_id) = cm_ack message_id"
| "call_of (NackCall message_id) = cm_nack message_id"
| "call_of (EndTransactionCall tx message_id) = cm_endTransaction tx message_id"
| "call_of PollCommandCall = cm_pollCommand"
| "call_of QueryOffsetCall = cm_queryOffset"
| "call_of (PullMessageCall grp topic broker i) = cm_pullMessage grp topic broker i"
| "call_of (ForwardCall message_id) = cm_forwardMessageToDeadLetterQueue message_id"

text \<open>\<open>InvocationContext::onCompletion\<close>: what the callback, if there is one, reads in the context.  gRPC fills in the
  status and the response only of a call that is not dead; unfilled they are those of a success.\<close>

definition invocation_onCompletion :: "bool \<Rightarrow> bool \<Rightarrow> bool \<times> RpcCode \<Rightarrow> (bool \<times> RpcCode) option" where
  "invocation_onCompletion has_callback ok reply =
     (if has_callback then Some (if ok then reply else (True, OK)) else None)"

section \<open>The way of a call\<close>

text \<open>Where \<open>ClientManagerImpl::shutdown\<close> stands: not called, about to stop the pool, about to shut the completion
  queue down, joining the poller, returned.\<close>

datatype shutdown_pc = SIdle | SPool | SQueue | SJoin | SReturned

text \<open>Calls are numbered in the order they are started.  \<open>rp_called\<close> are the calls whose callback has been run, \<open>rp_lost\<close>
  those whose callback will never be: they were in the pool when it stopped, or came out of the queue later.\<close>

record rpc_sys =
  rp_now :: int
  rp_next :: nat
  rp_manager :: client_manager
  rp_inflight :: "(nat \<times> rpc_request \<times> invocation) list"
  rp_queue :: "nat list"
  rp_pool :: "nat list"
  rp_called :: "nat list"
  rp_lost :: "nat list"
  rp_pool_running :: bool
  rp_queue_open :: bool
  rp_polling :: bool
  rp_shutdown :: shutdown_pc

definition rpc_begin :: "int \<Rightarrow> client_manager \<Rightarrow> rpc_sys" where
  "rpc_begin now m =
     \<lparr>rp_now = now, rp_next = 0, rp_manager = m, rp_inflight = [], rp_queue = [], rp_pool = [], rp_called = [], rp_lost = [],
      rp_pool_running = True, rp_queue_open = True, rp_polling = True, rp_shutdown = SIdle\<rparr>"

text \<open>\<open>RpcClientImpl::async\<dots>\<close>: the call goes on the wire with the context as its tag.\<close>

definition start_call :: "rpc_request \<Rightarrow> string \<Rightarrow> string \<Rightarrow> entries \<Rightarrow> int \<Rightarrow> rpc_sys \<Rightarrow> rpc_sys" where
  "start_call req rid target metadata timeout s =
     (let (ctx, m) = call_of req rid target metadata (rp_now s) timeout (rp_manager s)
      in s\<lparr>rp_manager := m, rp_inflight := rp_inflight s @ [(rp_next s, req, ctx)], rp_next := rp_next s + 1\<rparr>)"

text \<open>\<open>ThreadPoolImpl::submit\<close> drops a task unless the pool is running, and its shutdown drops what it has not begun.\<close>

definition pool_submit :: "nat \<Rightarrow> rpc_sys \<Rightarrow> rpc_sys" where
  "pool_submit i s = (if rp_pool_running s then s\<lparr>rp_pool := rp_pool s @ [i]\<rparr> else s\<lparr>rp_lost := rp_lost s @ [i]\<rparr>)"

text \<open>gRPC ends a call when its deadline comes, so time does not pass the deadline of a call in flight.  Timeouts are not
  negative, and nothing is started on a queue that is shut down, which gRPC does not allow.\<close>

definition in_time :: "int \<Rightarrow> invocation \<Rightarrow> bool" where
  "in_time now ctx \<longleftrightarrow> (case iv_deadline ctx of None \<Rightarrow> True | Some d \<Rightarrow> now \<le> d)"

inductive rpc_step :: "rpc_sys \<Rightarrow> rpc_sys \<Rightarrow> bool" where
  issue: "rp_queue_open s \<Longrightarrow> 0 \<le> timeout \<Longrightarrow> rpc_step s (start_call req rid target metadata timeout s)"
| finish: "rp_inflight s = xs @ (i, req, ctx) # ys \<Longrightarrow>
    rpc_step s (s\<lparr>rp_inflight := xs @ ys, rp_queue := rp_queue s @ [i]\<rparr>)"
| tick: "list_all (\<lambda>(i, req, ctx). in_time (rp_now s + 1) ctx) (rp_inflight s) \<Longrightarrow>
    rpc_step s (s\<lparr>rp_now := rp_now s + 1\<rparr>)"
| take: "rp_polling s \<Longrightarrow> rp_queue s = i # rest \<Longrightarrow> rpc_step s (pool_submit i (s\<lparr>rp_queue := rest\<rparr>))"
| drained: "rp_polling s \<Longrightarrow> \<not> rp_queue_open s \<Longrightarrow> rp_queue s = [] \<Longrightarrow> rp_inflight s = [] \<Longrightarrow> rp_shutdown s \<noteq> SIdle \<Longrightarrow>
    rpc_step s (s\<lparr>rp_polling := False\<rparr>)"
| work: "rp_pool_running s \<Longrightarrow> rp_pool s = xs @ i # ys \<Longrightarrow>
    rpc_step s (s\<lparr>rp_pool := xs @ ys, rp_called := rp_called s @ [i]\<rparr>)"
| stopping: "rp_shutdown s = SIdle \<Longrightarrow> rpc_step s (s\<lparr>rp_shutdown := SPool\<rparr>)"
| stop_pool: "rp_shutdown s = SPool \<Longrightarrow>
    rpc_step s (s\<lparr>rp_shutdown := SQueue, rp_pool_running := False, rp_lost := rp_lost s @ rp_pool s, rp_pool := []\<rparr>)"
| stop_queue: "rp_shutdown s = SQueue \<Longrightarrow>
    rpc_step s (s\<lparr>rp_shutdown := SJoin, rp_manager := cleanRpcClients (rp_manager s), rp_queue_open := False\<rparr>)"
| joined: "rp_shutdown s = SJoin \<Longrightarrow> \<not> rp_polling s \<Longrightarrow> rpc_step s (s\<lparr>rp_shutdown := SReturned\<rparr>)"

section \<open>Lemmas on calls\<close>

lemma remote_call_simps [simp]:
  "iv_remote_address (fst (remote_call nh timed task rid target metadata now timeout m)) = target"
  "iv_metadata (fst (remote_call nh timed task rid target metadata now timeout m)) = (''x-mq-request-id'', rid) # metadata"
  "iv_deadline (fst (remote_call nh timed task rid target metadata now timeout m)) = (if timed then Some (now + timeout) else None)"
  "snd (remote_call nh timed task rid target metadata now timeout m) = getRpcClient target nh m"
  by (simp_all add: remote_call_def InvocationContext_new_def Let_def)

lemmas remote_calls = cm_healthCheck_def cm_heartbeat_def cm_send_def cm_resolveRoute_def cm_queryAssignment_def
  cm_receiveMessage_def cm_ack_def cm_nack_def cm_endTransaction_def cm_pollCommand_def cm_queryOffset_def
  cm_pullMessage_def cm_forwardMessageToDeadLetterQueue_def

fun is_send :: "rpc_request \<Rightarrow> bool" where
  "is_send (SendCall _) \<longleftrightarrow> True"
| "is_send _ \<longleftrightarrow> False"

lemma call_deadline:
  "iv_deadline (fst (call_of req rid target metadata now timeout m)) = (if is_send req then None else Some (now + timeout))"
  by (cases req) (simp_all add: remote_calls)

lemma call_target:
  "iv_remote_address (fst (call_of req rid target metadata now timeout m)) = target \<and>
   iv_metadata (fst (call_of req rid target metadata now timeout m)) = (''x-mq-request-id'', rid) # metadata \<and>
   (\<exists>c. map_of (cm_rpc_clients (snd (call_of req rid target metadata now timeout m))) target = Some c \<and> rpc_ok c)"
proof -
  have "\<exists>c. map_of (cm_rpc_clients (getRpcClient target nh m)) target = Some c \<and> rpc_ok c" for nh
    using getRpcClient_ok(1) by blast
  then show ?thesis by (cases req) (simp_all add: remote_calls)
qed

text \<open>A dead call would read as a success to every handler.\<close>

lemma dead_call_reads_as_success:
  "invocation_onCompletion True False reply = Some (True, OK)" "ack_completion True OK = Success"
  by (simp_all add: invocation_onCompletion_def ack_completion_def ack_code_def)

section \<open>The invariant\<close>

definition rpc_calls :: "rpc_sys \<Rightarrow> nat list" where
  "rpc_calls s = map fst (rp_inflight s) @ rp_queue s @ rp_pool s @ rp_called s @ rp_lost s"

text \<open>Every call is in exactly one place; none is lost while the pool runs; a call in flight is not past its deadline;
  the poller has quit only from a drained queue that is shut down, and shutdown goes by its steps.\<close>

definition rpc_inv :: "rpc_sys \<Rightarrow> bool" where
  "rpc_inv s \<longleftrightarrow>
     mset (rpc_calls s) = mset [0..<rp_next s] \<and>
     (rp_pool_running s \<longleftrightarrow> rp_shutdown s = SIdle \<or> rp_shutdown s = SPool) \<and>
     (rp_queue_open s \<longleftrightarrow> rp_shutdown s = SIdle \<or> rp_shutdown s = SPool \<or> rp_shutdown s = SQueue) \<and>
     (rp_pool_running s \<longrightarrow> rp_lost s = []) \<and> (\<not> rp_pool_running s \<longrightarrow> rp_pool s = []) \<and>
     list_all (\<lambda>(i, req, ctx). in_time (rp_now s) ctx) (rp_inflight s) \<and>
     list_all (\<lambda>(i, req, ctx). iv_deadline ctx = None \<longleftrightarrow> is_send req) (rp_inflight s) \<and>
     (\<not> rp_polling s \<longrightarrow> \<not> rp_queue_open s \<and> rp_queue s = [] \<and> rp_inflight s = []) \<and>
     (rp_shutdown s = SReturned \<longrightarrow> \<not> rp_polling s)"

lemma rpc_inv_begin: "rpc_inv (rpc_begin now m)"
  by (simp add: rpc_inv_def rpc_begin_def rpc_calls_def)



lemma start_call_inv:
  assumes "rpc_inv s" "rp_queue_open s" "0 \<le> timeout"
  shows "rpc_inv (start_call req rid target metadata timeout s)"
proof -
  obtain ctx m where c: "call_of req rid target metadata (rp_now s) timeout (rp_manager s) = (ctx, m)" by fastforce
  then have "in_time (rp_now s) ctx \<and> (iv_deadline ctx = None \<longleftrightarrow> is_send req)"
    using call_deadline [of req rid target metadata "rp_now s" timeout "rp_manager s"] assms(3) by (simp add: in_time_def)
  with assms show ?thesis by (auto simp: rpc_inv_def start_call_def c rpc_calls_def)
qed

lemma rpc_inv_step: "rpc_step s s' \<Longrightarrow> rpc_inv s \<Longrightarrow> rpc_inv s'"
proof (induction rule: rpc_step.induct)
  case (issue s timeout req rid target metadata)
  then show ?case using start_call_inv by blast
next
  case (finish s xs i req ctx ys)
  then show ?case by (auto simp: rpc_inv_def rpc_calls_def)
next
  case (take s i rest)
  then show ?case by (auto simp: rpc_inv_def rpc_calls_def pool_submit_def)
next
  case (stop_pool s)
  then show ?case by (auto simp: rpc_inv_def rpc_calls_def ac_simps)
next
  case (work s xs i ys)
  then show ?case by (auto simp: rpc_inv_def rpc_calls_def)
qed (auto simp: rpc_inv_def rpc_calls_def)

lemma rpc_inv_reach: "rpc_step\<^sup>*\<^sup>* s s' \<Longrightarrow> rpc_inv s \<Longrightarrow> rpc_inv s'"
  by (induction rule: rtranclp_induct) (auto intro: rpc_inv_step)

lemma rpc_inv_calls:
  assumes "rpc_inv s"
  shows "distinct (rpc_calls s)" "set (rpc_calls s) = {..<rp_next s}"
proof -
  from assms have m: "mset (rpc_calls s) = mset [0..<rp_next s]" unfolding rpc_inv_def by blast
  show "distinct (rpc_calls s)" using mset_eq_imp_distinct_iff [OF m] by simp
  show "set (rpc_calls s) = {..<rp_next s}" using mset_eq_setD [OF m] by (simp add: lessThan_atLeast0)
qed

section \<open>Progress\<close>

text \<open>The steps that move a call along, without new calls, the clock or the shutdown.\<close>

definition rpc_progress :: "rpc_sys \<Rightarrow> rpc_sys \<Rightarrow> bool" where
  "rpc_progress s s' \<longleftrightarrow> rpc_step s s' \<and> rp_next s' = rp_next s \<and> rp_now s' = rp_now s \<and> rp_shutdown s' = rp_shutdown s"

definition rpc_weight :: "rpc_sys \<Rightarrow> nat" where
  "rpc_weight s = 3 * length (rp_inflight s) + 2 * length (rp_queue s) + length (rp_pool s) + (if rp_polling s then 1 else 0)"

lemma rpc_progress_weight: "rpc_progress s s' \<Longrightarrow> rpc_weight s' < rpc_weight s"
  unfolding rpc_progress_def
  by (elim conjE, erule rpc_step.cases)
    (auto simp: rpc_weight_def pool_submit_def start_call_def split: prod.splits)

lemma wf_rpc_progress: "wfP (\<lambda>s' s. rpc_progress s s')"
  by (rule wfp_if_convertible_to_nat [where f = rpc_weight]) (rule rpc_progress_weight)

lemma rpc_stuck:
  assumes "rpc_inv s" "rp_shutdown s = SIdle" "\<nexists>s'. rpc_progress s s'"
  shows "rp_inflight s = []" "rp_queue s = []" "rp_pool s = []"
proof -
  have on: "rp_pool_running s" "rp_polling s" using assms(1,2) by (auto simp: rpc_inv_def)
  show "rp_inflight s = []"
  proof (cases "rp_inflight s")
    case (Cons c cs)
    obtain i req ctx where "c = (i, req, ctx)" by (cases c)
    with Cons rpc_step.finish [of s "[]" i req ctx cs] have "rpc_progress s (s\<lparr>rp_inflight := cs, rp_queue := rp_queue s @ [i]\<rparr>)"
      by (simp add: rpc_progress_def)
    with assms(3) show ?thesis by blast
  qed
  show "rp_queue s = []"
  proof (cases "rp_queue s")
    case (Cons i rest)
    with rpc_step.take [OF on(2) Cons] have "rpc_progress s (pool_submit i (s\<lparr>rp_queue := rest\<rparr>))"
      by (simp add: rpc_progress_def pool_submit_def)
    with assms(3) show ?thesis by blast
  qed
  show "rp_pool s = []"
  proof (cases "rp_pool s")
    case (Cons i rest)
    with rpc_step.work [OF on(1), of "[]" i rest] have "rpc_progress s (s\<lparr>rp_pool := rest, rp_called := rp_called s @ [i]\<rparr>)"
      by (simp add: rpc_progress_def)
    with assms(3) show ?thesis by blast
  qed
qed

section \<open>Shutdown\<close>

lemma stopped_called:
  "rpc_step\<^sup>*\<^sup>* s s' \<Longrightarrow> \<not> rp_pool_running s \<Longrightarrow> \<not> rp_pool_running s' \<and> rp_called s' = rp_called s"
proof (induction rule: rtranclp_induct)
  case (step y z)
  from step.hyps(2) step.IH [OF step.prems] show ?case
    by (cases rule: rpc_step.cases) (auto simp: pool_submit_def start_call_def split: prod.splits)
qed simp

lemma closed_inflight:
  "rpc_step\<^sup>*\<^sup>* s s' \<Longrightarrow> \<not> rp_queue_open s \<Longrightarrow> \<not> rp_queue_open s' \<and> set (rp_inflight s') \<subseteq> set (rp_inflight s)"
proof (induction rule: rtranclp_induct)
  case (step y z)
  from step.hyps(2) step.IH [OF step.prems] show ?case
    by (cases rule: rpc_step.cases) (auto simp: pool_submit_def start_call_def split: prod.splits)
qed simp

lemma finish_all_but:
  "\<exists>s'. rpc_step\<^sup>*\<^sup>* s s' \<and> rp_inflight s' = filter (\<lambda>(i, req, ctx). iv_deadline ctx = None) (rp_inflight s) \<and> rp_shutdown s' = rp_shutdown s"
proof (induction "length (filter (\<lambda>(i, req, ctx). iv_deadline ctx \<noteq> None) (rp_inflight s))" arbitrary: s)
  case 0
  then have "filter (\<lambda>(i, req, ctx). iv_deadline ctx = None) (rp_inflight s) = rp_inflight s"
    by (auto simp: filter_empty_conv filter_id_conv)
  then show ?case by (intro exI [of _ s]) simp
next
  case (Suc n)
  then have "filter (\<lambda>(i, req, ctx). iv_deadline ctx \<noteq> None) (rp_inflight s) \<noteq> []" by force
  then obtain i req ctx where "(i, req, ctx) \<in> set (rp_inflight s)" "iv_deadline ctx \<noteq> None"
    by (auto simp: filter_empty_conv)
  then obtain xs ys where c: "rp_inflight s = xs @ (i, req, ctx) # ys" "iv_deadline ctx \<noteq> None"
    using split_list by fast
  let ?s = "s\<lparr>rp_inflight := xs @ ys, rp_queue := rp_queue s @ [i]\<rparr>"
  have "rpc_step s ?s" using c(1) by (rule rpc_step.finish)
  moreover obtain s' where "rpc_step\<^sup>*\<^sup>* ?s s'"
    "rp_inflight s' = filter (\<lambda>(i, req, ctx). iv_deadline ctx = None) (xs @ ys)" "rp_shutdown s' = rp_shutdown s"
    using Suc.hyps(1) [of ?s] Suc.hyps(2) c by auto
  ultimately show ?case using c by (intro exI [of _ s']) (auto intro: converse_rtranclp_into_rtranclp)
qed

lemma let_time_pass:
  "list_all (\<lambda>(i, req, ctx). iv_deadline ctx = None) (rp_inflight s) \<Longrightarrow>
     rpc_step\<^sup>*\<^sup>* s (s\<lparr>rp_now := rp_now s + int n\<rparr>)"
proof (induction n)
  case (Suc n)
  let ?s = "s\<lparr>rp_now := rp_now s + int n\<rparr>"
  have "rpc_step ?s (?s\<lparr>rp_now := rp_now ?s + 1\<rparr>)"
    using Suc.prems by (intro rpc_step.tick) (auto simp: list_all_iff in_time_def)
  with Suc show ?case by (simp add: ac_simps)
qed simp

lemma closed_queue_drains:
  assumes "rpc_step\<^sup>*\<^sup>* (rpc_begin now m) s" "\<not> rp_queue_open s"
  shows "(\<exists>D. \<forall>s'. rpc_step\<^sup>*\<^sup>* s s' \<and> D < rp_now s' \<longrightarrow> rp_inflight s' = []) \<longleftrightarrow>
    (\<forall>(i, req, ctx) \<in> set (rp_inflight s). iv_deadline ctx \<noteq> None)"
proof
  assume "\<exists>D. \<forall>s'. rpc_step\<^sup>*\<^sup>* s s' \<and> D < rp_now s' \<longrightarrow> rp_inflight s' = []"
  then obtain D where D: "rpc_step\<^sup>*\<^sup>* s s' \<Longrightarrow> D < rp_now s' \<Longrightarrow> rp_inflight s' = []" for s' by blast
  obtain s1 where s1: "rpc_step\<^sup>*\<^sup>* s s1" "rp_inflight s1 = filter (\<lambda>(i, req, ctx). iv_deadline ctx = None) (rp_inflight s)"
    using finish_all_but by blast
  let ?s2 = "s1\<lparr>rp_now := rp_now s1 + int (nat (D + 1 - rp_now s1))\<rparr>"
  have "rpc_step\<^sup>*\<^sup>* s1 ?s2" using s1(2) by (intro let_time_pass) (auto simp: list_all_iff)
  with s1(1) have "rp_inflight ?s2 = []" by (intro D rtranclp_trans [OF s1(1)]) auto
  with s1(2) show "\<forall>(i, req, ctx) \<in> set (rp_inflight s). iv_deadline ctx \<noteq> None" by (auto simp: filter_empty_conv)
next
  assume timed: "\<forall>(i, req, ctx) \<in> set (rp_inflight s). iv_deadline ctx \<noteq> None"
  let ?D = "Max (insert 0 ((\<lambda>(i, req, ctx). the (iv_deadline ctx)) ` set (rp_inflight s)))"
  have "rp_inflight s' = []" if "rpc_step\<^sup>*\<^sup>* s s'" "?D < rp_now s'" for s'
  proof (rule ccontr)
    assume "rp_inflight s' \<noteq> []"
    then obtain i req ctx where c: "(i, req, ctx) \<in> set (rp_inflight s')" by (cases "rp_inflight s'") auto
    then have c': "(i, req, ctx) \<in> set (rp_inflight s)" using closed_inflight [OF that(1) assms(2)] by blast
    then obtain d where d: "iv_deadline ctx = Some d" using timed by auto
    have "rpc_inv s'" using rpc_inv_reach [OF rtranclp_trans [OF assms(1) that(1)] rpc_inv_begin] .
    then have "rp_now s' \<le> d" using c d by (auto simp: rpc_inv_def list_all_iff in_time_def)
    moreover have "d \<in> (\<lambda>(i, req, ctx). the (iv_deadline ctx)) ` set (rp_inflight s)"
      using image_eqI [OF _ c', of d "\<lambda>(i, req, ctx). the (iv_deadline ctx)"] d by simp
    then have "d \<le> ?D" by (intro Max_ge) simp_all
    ultimately show False using that(2) by simp
  qed
  then show "\<exists>D. \<forall>s'. rpc_step\<^sup>*\<^sup>* s s' \<and> D < rp_now s' \<longrightarrow> rp_inflight s' = []" by blast
qed

section \<open>Properties\<close>

text \<open>C11: Every remote call is completed exactly once while the client manager runs.  In every interleaving of callers,
  gRPC, the poller, the pool of callbacks and a shutdown, each call is in exactly one place; none is lost before the
  shutdown; and without new calls the way of the calls ends, with every callback run.\<close>

theorem rpc_exactly_once:
  assumes "rpc_step\<^sup>*\<^sup>* (rpc_begin now m) s" "rp_shutdown s = SIdle"
  shows "distinct (rpc_calls s) \<and> set (rpc_calls s) = {..<rp_next s} \<and> rp_lost s = [] \<and>
    wfP (\<lambda>s' s. rpc_progress s s') \<and> ((\<nexists>s'. rpc_progress s s') \<longrightarrow> set (rp_called s) = {..<rp_next s})"
proof -
  have inv: "rpc_inv s" using rpc_inv_reach [OF assms(1) rpc_inv_begin] .
  then have lost: "rp_lost s = []" using assms(2) by (auto simp: rpc_inv_def)
  have "set (rp_called s) = {..<rp_next s}" if "\<nexists>s'. rpc_progress s s'"
    using rpc_stuck [OF inv assms(2) that] rpc_inv_calls(2) [OF inv] lost by (simp add: rpc_calls_def)
  with lost rpc_inv_calls [OF inv] wf_rpc_progress show ?thesis by blast
qed

definition demo_sys :: rpc_sys where
  "demo_sys = rpc_begin 0 (ClientManager_new ''ns'' 1 0 0)"

definition demo_call :: "invocation \<times> client_manager" where
  "demo_call = call_of (SendCall ''id'') ''r'' ''h'' [] 0 3000 (ClientManager_new ''ns'' 1 0 0)"

definition demo_sent :: rpc_sys where
  "demo_sent = start_call (SendCall ''id'') ''r'' ''h'' [] 3000 demo_sys"

lemma demo_sent_eq:
  "demo_sent =
     \<lparr>rp_now = 0, rp_next = 1, rp_manager = snd demo_call, rp_inflight = [(0, SendCall ''id'', fst demo_call)], rp_queue = [],
      rp_pool = [], rp_called = [], rp_lost = [], rp_pool_running = True, rp_queue_open = True, rp_polling = True, rp_shutdown = SIdle\<rparr>"
  unfolding demo_sent_def start_call_def demo_sys_def rpc_begin_def rpc_sys.select_convs demo_call_def [symmetric]
  by (simp add: case_prod_unfold)

lemma demo_sent_reached: "rpc_step\<^sup>*\<^sup>* demo_sys demo_sent" "rp_shutdown demo_sent = SIdle"
  using rpc_step.issue [of demo_sys 3000 "SendCall ''id''" "''r''" "''h''" "[]"]
  by (simp_all add: demo_sent_def [symmetric] r_into_rtranclp) (simp_all add: demo_sent_eq demo_sys_def rpc_begin_def r_into_rtranclp)

theorem rpc_exactly_once_witness:
  "rpc_step\<^sup>*\<^sup>* (rpc_begin 0 (ClientManager_new ''ns'' 1 0 0)) demo_sent \<and> distinct (rpc_calls demo_sent) \<and>
   set (rpc_calls demo_sent) = {..<1}"
  using rpc_exactly_once [of 0 "ClientManager_new ''ns'' 1 0 0" demo_sent] demo_sent_reached
    arg_cong [OF demo_sent_eq, of rp_next] by (simp add: demo_sys_def)

text \<open>C34: What a shutdown drops.  The pool is stopped before the completion queue, so from then on no callback runs: when
  the shutdown returns, exactly the calls whose callback had not run by then have been dropped, and a caller that waits
  for one of them waits for ever.\<close>

theorem shutdown_drops_callbacks:
  assumes "rpc_step\<^sup>*\<^sup>* (rpc_begin now m) s" "\<not> rp_pool_running s" "rpc_step\<^sup>*\<^sup>* s s'" "rp_shutdown s' = SReturned"
  shows "rp_called s' = rp_called s \<and> set (rp_lost s') = {..<rp_next s'} - set (rp_called s)"
proof -
  have inv: "rpc_inv s'" using rpc_inv_reach [OF rtranclp_trans [OF assms(1,3)] rpc_inv_begin] .
  then have "rp_inflight s' = []" "rp_queue s' = []" "rp_pool s' = []" using assms(4) by (auto simp: rpc_inv_def)
  then have calls: "rpc_calls s' = rp_called s' @ rp_lost s'" by (simp add: rpc_calls_def)
  have "rp_called s' = rp_called s" using stopped_called [OF assms(3,2)] by blast
  with rpc_inv_calls [OF inv] show ?thesis unfolding calls by auto
qed

text \<open>C35: How long a shutdown waits.  Once the completion queue is shut down, there is a time by which every call in flight
  is over exactly if none of them is a send: \<open>send\<close> is the one call without a deadline, so a broker that does not answer
  keeps the shutdown waiting.\<close>

theorem shutdown_waits_for_sends:
  assumes "rpc_step\<^sup>*\<^sup>* (rpc_begin now m) s" "\<not> rp_queue_open s"
  shows "(\<exists>D. \<forall>s'. rpc_step\<^sup>*\<^sup>* s s' \<and> D < rp_now s' \<longrightarrow> rp_inflight s' = []) \<longleftrightarrow>
    (\<forall>(i, req, ctx) \<in> set (rp_inflight s). \<not> is_send req)"
proof -
  have "rpc_inv s" using rpc_inv_reach [OF assms(1) rpc_inv_begin] .
  then have "list_all (\<lambda>(i, req, ctx). iv_deadline ctx = None \<longleftrightarrow> is_send req) (rp_inflight s)" unfolding rpc_inv_def by blast
  then have b: "(\<forall>(i, req, ctx) \<in> set (rp_inflight s). \<not> is_send req) \<longleftrightarrow> (\<forall>(i, req, ctx) \<in> set (rp_inflight s). iv_deadline ctx \<noteq> None)"
    by (intro ball_cong refl) (auto simp: list_all_iff)
  show ?thesis unfolding b by (rule closed_queue_drains [OF assms])
qed

text \<open>A send in flight while the client manager shuts down: the pool stopped, then the queue, and at last an answer.\<close>

definition demo_stopped :: rpc_sys where
  "demo_stopped = demo_sent\<lparr>rp_shutdown := SQueue, rp_pool_running := False\<rparr>"

definition demo_closed :: rpc_sys where
  "demo_closed = demo_stopped\<lparr>rp_shutdown := SJoin, rp_manager := cleanRpcClients (rp_manager demo_stopped), rp_queue_open := False\<rparr>"

definition demo_returned :: rpc_sys where
  "demo_returned = demo_closed\<lparr>rp_inflight := [], rp_lost := [0], rp_polling := False, rp_shutdown := SReturned\<rparr>"

lemma demo_inflight: obtains ctx where "rp_inflight demo_sent = [(0, SendCall ''id'', ctx)]"
  by (rule that) (simp add: demo_sent_eq)

lemma demo_shutdown:
  "rpc_step\<^sup>*\<^sup>* demo_sys demo_stopped" "rpc_step demo_stopped demo_closed" "rpc_step\<^sup>*\<^sup>* demo_closed demo_returned"
proof -
  have "rpc_step demo_sent (demo_sent\<lparr>rp_shutdown := SPool\<rparr>)" using demo_sent_reached(2) by (rule rpc_step.stopping)
  moreover have "rpc_step (demo_sent\<lparr>rp_shutdown := SPool\<rparr>) demo_stopped"
    using rpc_step.stop_pool [of "demo_sent\<lparr>rp_shutdown := SPool\<rparr>"] by (simp add: demo_stopped_def demo_sent_eq)
  ultimately show "rpc_step\<^sup>*\<^sup>* demo_sys demo_stopped" using demo_sent_reached(1) by simp
  show "rpc_step demo_stopped demo_closed"
    using rpc_step.stop_queue [of demo_stopped] by (simp add: demo_stopped_def demo_closed_def)
  let ?a = "demo_closed\<lparr>rp_inflight := [], rp_queue := [0]\<rparr>" and ?b = "demo_closed\<lparr>rp_inflight := [], rp_lost := [0]\<rparr>"
  note d = demo_closed_def demo_stopped_def demo_sent_eq
  have "rpc_step demo_closed ?a" using rpc_step.finish [of demo_closed "[]"] by (simp add: d)
  moreover have "rpc_step ?a ?b" using rpc_step.take [of ?a 0 "[]"] by (simp add: pool_submit_def d)
  moreover have "rpc_step ?b (?b\<lparr>rp_polling := False\<rparr>)" using rpc_step.drained [of ?b] by (simp add: d)
  moreover have "rpc_step (?b\<lparr>rp_polling := False\<rparr>) demo_returned"
    using rpc_step.joined [of "?b\<lparr>rp_polling := False\<rparr>"] by (simp add: demo_returned_def d)
  ultimately show "rpc_step\<^sup>*\<^sup>* demo_closed demo_returned" by (simp add: rtranclp.rtrancl_into_rtrancl r_into_rtranclp)
qed

lemma demo_returned_fields: "rp_called demo_returned = []" "rp_next demo_returned = 1" "rp_shutdown demo_returned = SReturned"
    "rp_called demo_stopped = []" "\<not> rp_pool_running demo_stopped"
  by (simp_all add: demo_returned_def demo_closed_def demo_stopped_def demo_sent_eq)

theorem shutdown_drops_callbacks_witness:
  "rpc_step\<^sup>*\<^sup>* (rpc_begin 0 (ClientManager_new ''ns'' 1 0 0)) demo_stopped \<and> rp_called demo_returned = [] \<and> set (rp_lost demo_returned) = {..<1}"
proof -
  have "rpc_step\<^sup>*\<^sup>* demo_stopped demo_returned"
    by (rule converse_rtranclp_into_rtranclp [where r = rpc_step, OF demo_shutdown(2,3)])
  with shutdown_drops_callbacks [of 0 "ClientManager_new ''ns'' 1 0 0" demo_stopped demo_returned] demo_shutdown(1)
  show ?thesis by (simp add: demo_sys_def demo_returned_fields)
qed

theorem shutdown_waits_for_sends_witness:
  "\<not> rp_queue_open demo_closed \<and> (\<nexists>D. \<forall>s'. rpc_step\<^sup>*\<^sup>* demo_closed s' \<and> D < rp_now s' \<longrightarrow> rp_inflight s' = [])"
proof -
  obtain ctx where "rp_inflight demo_sent = [(0, SendCall ''id'', ctx)]" by (rule demo_inflight)
  then have "rp_inflight demo_closed = [(0, SendCall ''id'', ctx)]" by (simp add: demo_closed_def demo_stopped_def)
  moreover have "rpc_step\<^sup>*\<^sup>* (rpc_begin 0 (ClientManager_new ''ns'' 1 0 0)) demo_closed"
    using demo_shutdown(1,2) unfolding demo_sys_def by (rule rtranclp.rtrancl_into_rtrancl)
  moreover have "\<not> rp_queue_open demo_closed" by (simp add: demo_closed_def)
  ultimately show ?thesis using shutdown_waits_for_sends [of 0 "ClientManager_new ''ns'' 1 0 0" demo_closed] by simp
qed

end
