(* ===== verification/Logging.thy ===== *)
theory Logging
  imports MixAll "HOL-Library.AList"
begin

text \<open>
  Logging (log/LoggerImpl.cpp, log/include/LoggerImpl.h) and the administration server that changes its level at run
  time (admin/AdminServiceImpl.cpp, admin/AdminServerImpl.cpp, admin/include/ServerCall.h, admin/AdminClient.cpp),
  together with the two small users of the log level and of OpenSSL in client/ (LogInterceptor.cpp, TlsHelper.cpp).
  Of spdlog, a registered logger is its level and the levels of its two sinks, and a message reaches a sink when its
  level is at least both (\<open>logger::sink_it_\<close> in third_party/spdlog).
\<close>

section \<open>Levels\<close>

datatype Level = Trace | Debug | Info | Warn | Error

primrec Level_value :: "Level \<Rightarrow> nat" where
  "Level_value Trace = 0" | "Level_value Debug = 1" | "Level_value Info = 2" | "Level_value Warn = 3" | "Level_value Error = 4"

instantiation Level :: linorder
begin

definition less_eq_Level :: "Level \<Rightarrow> Level \<Rightarrow> bool" where
  "less_eq_Level a b \<longleftrightarrow> Level_value a \<le> Level_value b"

definition less_Level :: "Level \<Rightarrow> Level \<Rightarrow> bool" where
  "less_Level a b \<longleftrightarrow> Level_value a < Level_value b"

instance
proof
  fix x y z :: Level
  show "x < y \<longleftrightarrow> x \<le> y \<and> \<not> y \<le> x" by (auto simp: less_eq_Level_def less_Level_def)
  show "x \<le> x" by (simp add: less_eq_Level_def)
  show "x \<le> y \<Longrightarrow> y \<le> z \<Longrightarrow> x \<le> z" by (simp add: less_eq_Level_def)
  show "x \<le> y \<Longrightarrow> y \<le> x \<Longrightarrow> x = y" by (cases x; cases y) (simp_all add: less_eq_Level_def)
  show "x \<le> y \<or> y \<le> x" by (auto simp: less_eq_Level_def)
qed

end

section \<open>The logger\<close>

record spdlog_logger =
  sl_level :: Level
  sl_console_level :: Level
  sl_file_level :: Level
  sl_pattern :: string
  sl_file :: "string \<times> nat \<times> nat"

record logger_impl =
  lg_level :: Level
  lg_console_level :: Level
  lg_log_home :: string
  lg_file_size :: nat
  lg_file_count :: nat
  lg_pattern :: string
  lg_registered :: "spdlog_logger option"

definition LoggerImpl_new :: logger_impl where
  "LoggerImpl_new = \<lparr>lg_level = Info, lg_console_level = Warn, lg_log_home = '''', lg_file_size = 1048576 * 256,
     lg_file_count = 16, lg_pattern = '''', lg_registered = None\<rparr>"

text \<open>The registered logger's own level is set, not that of the file sink.\<close>

definition setLevel :: "Level \<Rightarrow> logger_impl \<Rightarrow> logger_impl" where
  "setLevel level l = l\<lparr>lg_level := level, lg_registered := map_option (\<lambda>r. r\<lparr>sl_level := level\<rparr>) (lg_registered l)\<rparr>"

definition setConsoleLevel :: "Level \<Rightarrow> logger_impl \<Rightarrow> logger_impl" where
  "setConsoleLevel level l =
     l\<lparr>lg_console_level := level, lg_registered := map_option (\<lambda>r. r\<lparr>sl_console_level := level\<rparr>) (lg_registered l)\<rparr>"

definition setFileSize :: "nat \<Rightarrow> logger_impl \<Rightarrow> logger_impl" where
  "setFileSize file_size l = l\<lparr>lg_file_size := file_size\<rparr>"

definition setFileCount :: "nat \<Rightarrow> logger_impl \<Rightarrow> logger_impl" where
  "setFileCount file_count l = l\<lparr>lg_file_count := file_count\<rparr>"

definition setPattern :: "string \<Rightarrow> logger_impl \<Rightarrow> logger_impl" where
  "setPattern pattern l =
     l\<lparr>lg_pattern := pattern, lg_registered := map_option (\<lambda>r. r\<lparr>sl_pattern := pattern\<rparr>) (lg_registered l)\<rparr>"

text \<open>\<open>init\<close> runs \<open>init0\<close> once.  \<open>getenv\<close> is the environment, \<open>temp_dir\<close> the system's directory for temporary files, and
  \<open>make_dir\<close> whether the directory of the log file exists or can be created; \<open>None\<close> is the \<open>abort()\<close>.  The level
  \<open>Error\<close> has no case of its own in the last switch.\<close>

definition logger_init :: "(string \<Rightarrow> string option) \<Rightarrow> string \<Rightarrow> (string \<Rightarrow> bool) \<Rightarrow> logger_impl \<Rightarrow> logger_impl option" where
  "logger_init getenv temp_dir make_dir l =
     (if lg_registered l \<noteq> None then Some l
      else let home = (if lg_log_home l = ''''
               then (case getenv ''HOME'' of Some h \<Rightarrow> h | None \<Rightarrow> temp_dir) @ ''/logs/rocketmq/client.log'' else lg_log_home l);
             pattern = (if lg_pattern l = '''' then ''[%Y/%m/%d-%H:%M:%S.%e %z] [%n] [%^---%L---%$] [thread %t] %v %@''
               else lg_pattern l)
         in if \<not> make_dir home then None
            else Some (l\<lparr>lg_log_home := home, lg_pattern := pattern,
              lg_registered := Some
                \<lparr>sl_level = (case min (lg_level l) (lg_console_level l) of
                    Trace \<Rightarrow> Trace | Debug \<Rightarrow> Debug | Info \<Rightarrow> Info | Warn \<Rightarrow> Warn | _ \<Rightarrow> Info),
                 sl_console_level = lg_console_level l, sl_file_level = lg_level l, sl_pattern = pattern,
                 sl_file = (home, lg_file_size l, lg_file_count l)\<rparr>\<rparr>))"

text \<open>\<open>spdlog::set_level(trace)\<close>, which the constructor of \<open>ClientManagerImpl\<close> calls.\<close>

definition manager_sets_level :: "logger_impl \<Rightarrow> logger_impl" where
  "manager_sets_level l = l\<lparr>lg_registered := map_option (\<lambda>r. r\<lparr>sl_level := Trace\<rparr>) (lg_registered l)\<rparr>"

definition to_file :: "logger_impl \<Rightarrow> Level \<Rightarrow> bool" where
  "to_file l m \<longleftrightarrow> (case lg_registered l of None \<Rightarrow> False | Some r \<Rightarrow> sl_level r \<le> m \<and> sl_file_level r \<le> m)"

definition to_console :: "logger_impl \<Rightarrow> Level \<Rightarrow> bool" where
  "to_console l m \<longleftrightarrow> (case lg_registered l of None \<Rightarrow> False | Some r \<Rightarrow> sl_level r \<le> m \<and> sl_console_level r \<le> m)"

section \<open>Administration\<close>

text \<open>\<open>ChangeLogLevelRequest\<close> has the same five levels, with \<open>TRACE\<close> as the value of a field that is not set.\<close>

definition wrapChangeLogLevelRequest :: "string \<Rightarrow> Level" where
  "wrapChangeLogLevelRequest level =
     (if level = '''' then Trace else if level = ''trace'' then Trace else if level = ''debug'' then Debug
      else if level = ''info'' then Info else if level = ''warn'' then Warn else if level = ''error'' then Error else Trace)"

definition applyChange :: "Level \<Rightarrow> logger_impl \<Rightarrow> RpcCode \<times> logger_impl" where
  "applyChange level l =
     (case lg_registered l of
        None \<Rightarrow> (INTERNAL, l)
      | Some r \<Rightarrow> (OK, l\<lparr>lg_registered := Some (r\<lparr>sl_level := level\<rparr>)\<rparr>))"

text \<open>The status, the remark and the logger.\<close>

definition ChangeLogLevel :: "Level \<Rightarrow> logger_impl \<Rightarrow> (RpcCode \<times> string) \<times> logger_impl" where
  "ChangeLogLevel level l = (case applyChange level l of (status, l') \<Rightarrow> ((status, if status = OK then ''OK'' else ''''), l'))"

text \<open>The port the client connects to: the command line, else the environment, else 9877.  A number that does not parse
  is reported and passed over.\<close>

definition admin_port :: "string option \<Rightarrow> string option \<Rightarrow> int" where
  "admin_port env_port arg_port =
     (let p1 = (case env_port of None \<Rightarrow> 9877 | Some s \<Rightarrow> (case stoi s of Inl _ \<Rightarrow> 9877 | Inr p \<Rightarrow> p))
      in case arg_port of None \<Rightarrow> p1 | Some s \<Rightarrow> (case stoi s of Inl _ \<Rightarrow> p1 | Inr p \<Rightarrow> p))"

text \<open>The server.  A \<open>ServerCall\<close> is its number and its status; the answers sent are recorded with the number.\<close>

datatype ServerCallStatus = CREATE | PROCESS | FINISH

record admin_server =
  ad_state :: State
  ad_port :: int
  ad_calls :: "(nat \<times> ServerCallStatus) list"
  ad_next :: nat
  ad_answers :: "(nat \<times> RpcCode) list"
  ad_logger :: logger_impl

definition AdminServerImpl_new :: "logger_impl \<Rightarrow> admin_server" where
  "AdminServerImpl_new l = \<lparr>ad_state = CREATED, ad_port = 0, ad_calls = [], ad_next = 0, ad_answers = [], ad_logger = l\<rparr>"

text \<open>The constructor of a \<open>ServerCall\<close> calls \<open>proceed\<close>, which asks gRPC for the next request.\<close>

definition new_ServerCall :: "admin_server \<Rightarrow> admin_server" where
  "new_ServerCall a = a\<lparr>ad_calls := ad_calls a @ [(ad_next a, PROCESS)], ad_next := ad_next a + 1\<rparr>"

definition proceed :: "nat \<Rightarrow> Level \<Rightarrow> admin_server \<Rightarrow> admin_server" where
  "proceed i request a =
     (case map_of (ad_calls a) i of
        Some PROCESS \<Rightarrow>
          (let a1 = new_ServerCall a; ((status, remark), l) = ChangeLogLevel request (ad_logger a1)
           in a1\<lparr>ad_calls := AList.update i FINISH (ad_calls a1), ad_answers := ad_answers a1 @ [(i, status)], ad_logger := l\<rparr>)
      | Some FINISH \<Rightarrow> a\<lparr>ad_calls := AList.delete i (ad_calls a)\<rparr>
      | Some CREATE \<Rightarrow> a\<lparr>ad_calls := AList.update i PROCESS (ad_calls a)\<rparr>
      | None \<Rightarrow> a)"

text \<open>Start returns when the loop thread runs; the port is the one gRPC bound.  The loop makes the first call.\<close>

definition admin_start :: "int \<Rightarrow> admin_server \<Rightarrow> bool \<times> admin_server" where
  "admin_start bound a =
     (case compare_exchange_strong (ad_state a) CREATED STARTING of
        (_, False) \<Rightarrow> (False, a)
      | (_, True) \<Rightarrow> (True, new_ServerCall (a\<lparr>ad_port := bound, ad_state := STARTED\<rparr>)))"

text \<open>Stop drains the queue without touching the calls.\<close>

definition admin_stop :: "admin_server \<Rightarrow> bool \<times> admin_server" where
  "admin_stop a =
     (case compare_exchange_strong (ad_state a) STARTED STOPPING of
        (_, False) \<Rightarrow> (False, a)
      | (_, True) \<Rightarrow> (True, a\<lparr>ad_state := STOPPED\<rparr>))"

section \<open>Interceptor and signature\<close>

text \<open>What the interceptor logs of the hook points gRPC reports; received metadata is given in the order of the hash map
  it is copied into.  The interceptor always proceeds.  A factory of it is made for every channel but not passed on.\<close>

record intercepted =
  ic_sent_metadata :: "(string \<times> string) list option"
  ic_sent_bytes :: "nat option"
  ic_received_metadata :: "(string \<times> string) list option"
  ic_received_text :: "string option"

definition Intercept :: "Level \<Rightarrow> string \<Rightarrow> intercepted \<Rightarrow> string list" where
  "Intercept level method ic =
     (let headers = (\<lambda>md. join [CHR 0x0A] (map (\<lambda>(k, v). k @ '' --> '' @ v) md)) in
      if level \<noteq> Trace \<and> level \<noteq> Debug then []
      else (case ic_sent_metadata ic of None \<Rightarrow> [] | Some md \<Rightarrow> [''[Outbound]Headers of '' @ method @ '': '' @ [CHR 0x0A] @ headers md]) @
           (case ic_sent_bytes ic of None \<Rightarrow> [] | Some n \<Rightarrow> [''[Outbound] '' @ method @ '': Buffer: '' @ nat_digits n @ ''bytes'']) @
           (case ic_received_metadata ic of None \<Rightarrow> []
            | Some md \<Rightarrow> if md \<noteq> [] then [''[Inbound]Response Headers of '' @ method @ '':'' @ [CHR 0x0A] @ headers md]
                        else [''[Inbound]Response metadata of '' @ method @ '' is empty'']) @
           (case ic_received_text ic of None \<Rightarrow> []
            | Some t \<Rightarrow> if length t \<le> 1024 then [''[Inbound] '' @ method @ [CHR 0x0A] @ t]
                       else [''[Inbound] '' @ method @ [CHR 0x0A] @ take 1024 t @ ''...'']))"

text \<open>\<open>hmac_sha1\<close> is OpenSSL's HMAC with SHA-1.\<close>

definition TlsHelper_sign :: "(string \<Rightarrow> string \<Rightarrow> bytes) \<Rightarrow> string \<Rightarrow> string \<Rightarrow> string" where
  "TlsHelper_sign hmac_sha1 access_secret content = hex (hmac_sha1 access_secret content)"

section \<open>Lemmas on the logger\<close>

lemma Level_least [simp]: "Trace \<le> m" "m \<le> Error"
  by (cases m; simp add: less_eq_Level_def)+

lemma logger_init_registered:
  assumes "lg_registered l = None" "logger_init getenv temp_dir make_dir l = Some l'"
  obtains r where "lg_registered l' = Some r" "sl_file_level r = lg_level l" "sl_console_level r = lg_console_level l"
    "sl_level r \<le> lg_level l" "sl_level r \<le> lg_console_level l"
proof -
  let ?f = "\<lambda>k. case k of Trace \<Rightarrow> Trace | Debug \<Rightarrow> Debug | Info \<Rightarrow> Info | Warn \<Rightarrow> Warn | _ \<Rightarrow> Info"
  have f: "?f k \<le> k" for k by (cases k) (simp_all add: less_eq_Level_def)
  from assms have "\<exists>r. lg_registered l' = Some r \<and> sl_file_level r = lg_level l \<and> sl_console_level r = lg_console_level l \<and>
      sl_level r = ?f (min (lg_level l) (lg_console_level l))"
    by (auto simp: logger_init_def Let_def split: if_split_asm)
  then show ?thesis
    using order_trans [OF f min.cobounded1] order_trans [OF f min.cobounded2] that by metis
qed

lemma logger_init_once: "lg_registered l \<noteq> None \<Longrightarrow> logger_init getenv temp_dir make_dir l = Some l"
  by (simp add: logger_init_def)

lemmas sink_simps = to_file_def to_console_def setLevel_def setConsoleLevel_def applyChange_def manager_sets_level_def

section \<open>Lemmas on the administration server\<close>

text \<open>One call waits for the next request, the others have answered theirs.\<close>

definition admin_inv :: "admin_server \<Rightarrow> bool" where
  "admin_inv a \<longleftrightarrow>
     distinct (map fst (ad_calls a)) \<and> (\<forall>(i, st) \<in> set (ad_calls a). i < ad_next a \<and> st \<noteq> CREATE) \<and>
     length (filter (\<lambda>(i, st). st = PROCESS) (ad_calls a)) = 1 \<and> length (ad_answers a) + 1 = ad_next a"

lemma update_split:
  assumes "map_of xs i = Some v" "distinct (map fst xs)"
  obtains ys zs where "xs = ys @ (i, v) # zs" "AList.update i w xs = ys @ (i, w) # zs" "AList.delete i xs = ys @ zs"
proof -
  from map_of_SomeD [OF assms(1)] obtain ys zs where xs: "xs = ys @ (i, v) # zs" by (meson split_list)
  have "i \<notin> set (map fst ys)" "i \<notin> set (map fst zs)" using assms(2) xs by auto
  moreover have "AList.update i w (ys @ (i, v) # zs) = ys @ (i, w) # zs" if "i \<notin> set (map fst ys)"
    using that by (induction ys) auto
  moreover have "filter (\<lambda>(k', _). i \<noteq> k') ys = ys" if "i \<notin> set (map fst ys)" using that by (induction ys) auto
  moreover have "filter (\<lambda>(k', _). i \<noteq> k') zs = zs" if "i \<notin> set (map fst zs)" using that by (induction zs) auto
  ultimately show ?thesis using xs by (intro that [of ys zs]) (simp_all add: AList.delete_eq)
qed

lemma admin_inv_start: "ad_calls a = [] \<Longrightarrow> ad_next a = 0 \<Longrightarrow> ad_answers a = [] \<Longrightarrow> ad_state a = CREATED \<Longrightarrow>
    admin_inv (snd (admin_start bound a))"
  by (simp add: admin_start_def new_ServerCall_def admin_inv_def)

lemma admin_inv_proceed:
  assumes "admin_inv a"
  shows "admin_inv (proceed i request a)"
proof (cases "map_of (ad_calls a) i")
  case None
  then show ?thesis using assms by (simp add: proceed_def)
next
  case (Some st)
  note inv = assms [unfolded admin_inv_def]
  from inv Some have fresh: "map_of (ad_calls a @ [(ad_next a, PROCESS)]) i = Some st" and i: "i < ad_next a" and "st \<noteq> CREATE"
    using map_of_SomeD [OF Some] by (auto simp: map_add_Some_iff)
  show ?thesis
  proof (cases st)
    case PROCESS
    have "distinct (map fst (ad_calls a @ [(ad_next a, PROCESS)]))" using inv by auto
    from update_split [OF fresh this, of FINISH] obtain ys zs where
      u: "ad_calls a @ [(ad_next a, PROCESS)] = ys @ (i, st) # zs"
         "AList.update i FINISH (ad_calls a @ [(ad_next a, PROCESS)]) = ys @ (i, FINISH) # zs" by blast
    let ?p = "\<lambda>(i, st). st = PROCESS"
    have "length (filter ?p (ys @ (i, st) # zs)) = 2" using inv by (simp add: u(1) [symmetric])
    then have one: "length (filter ?p (ys @ (i, FINISH) # zs)) = 1" using PROCESS by simp
    have keys: "map fst (ys @ (i, FINISH) # zs) = map fst (ad_calls a) @ [ad_next a]"
      using arg_cong [OF u(1), of "map fst"] by simp
    have old: "\<forall>(j, t) \<in> set (ys @ (i, st) # zs). j < ad_next a + 1 \<and> t \<noteq> CREATE"
      using inv unfolding u(1) [symmetric] by auto
    then have mem: "\<forall>(j, t) \<in> set (ys @ (i, FINISH) # zs). j < ad_next a + 1 \<and> t \<noteq> CREATE" by auto
    have dist: "distinct (map fst (ys @ (i, FINISH) # zs))" unfolding keys using inv by auto
    have calls: "ad_calls (proceed i request a) = ys @ (i, FINISH) # zs" "ad_next (proceed i request a) = ad_next a + 1"
      "length (ad_answers (proceed i request a)) = length (ad_answers a) + 1"
      using Some PROCESS by (simp_all add: proceed_def new_ServerCall_def u(2) Let_def split: prod.split)
    show ?thesis unfolding admin_inv_def calls using one dist mem inv by simp
  next
    case FINISH
    from update_split [OF Some, of FINISH] inv obtain ys zs where
      u: "ad_calls a = ys @ (i, st) # zs" "AList.delete i (ad_calls a) = ys @ zs" by blast
    with inv Some FINISH show ?thesis by (auto simp: admin_inv_def proceed_def)
  qed (use \<open>st \<noteq> CREATE\<close> in simp)
qed

text \<open>The events of the loop: a tag for a call, with the request gRPC has filled in.\<close>

definition admin_run :: "int \<Rightarrow> logger_impl \<Rightarrow> (nat \<times> Level) list \<Rightarrow> admin_server" where
  "admin_run bound l evs =
     fold (\<lambda>(i, request). proceed i request) evs
       (snd (admin_start bound (AdminServerImpl_new l)))"

lemma admin_inv_run: "admin_inv (admin_run bound l evs)"
proof -
  have "admin_inv (fold (\<lambda>(i, request). proceed i request) evs a)" if "admin_inv a" for a
    using that by (induction evs arbitrary: a) (auto intro: admin_inv_proceed)
  moreover have "admin_inv (snd (admin_start bound (AdminServerImpl_new l)))"
    by (rule admin_inv_start) (simp_all add: AdminServerImpl_new_def)
  ultimately show ?thesis unfolding admin_run_def by blast
qed

text \<open>The signature is twice as long as the digest and in upper-case hexadecimal.\<close>

lemma TlsHelper_sign_hex:
  "length (TlsHelper_sign hmac_sha1 secret content) = 2 * length (hmac_sha1 secret content)"
proof -
  have "length (hex bs) = 2 * length bs" for bs by (induction bs) simp_all
  then show ?thesis by (simp add: TlsHelper_sign_def)
qed

text \<open>No more than 1024 characters of a response are logged.\<close>

lemma Intercept_bounded:
  "ic_sent_metadata ic = None \<Longrightarrow> ic_sent_bytes ic = None \<Longrightarrow> ic_received_metadata ic = None \<Longrightarrow>
     list_all (\<lambda>line. length line \<le> length method + 1039) (Intercept level method ic)"
  by (auto simp: Intercept_def Let_def split: option.split)

text \<open>A level that is mistyped on the command line is sent as \<open>TRACE\<close> and reported as changed.\<close>

lemma mistyped_level: "wrapChangeLogLevelRequest ''warning'' = Trace" "wrapChangeLogLevelRequest ''WARN'' = Trace"
  by (simp_all add: wrapChangeLogLevelRequest_def)

section \<open>Properties\<close>


definition demo_log :: logger_impl where
  "demo_log = the (logger_init (\<lambda>_. None) ''/tmp'' (\<lambda>_. True) LoggerImpl_new)"



end
